(* ===== verification/Proto.thy ===== *)
theory Proto
  imports Prelude
begin

text \<open>
  The control protocol of \<^verbatim>\<open>internal/proto\<close>: the message types, error codes and the
  structs that travel between the CLI and the agent, with the source's field names. A line of the
  protocol is modelled after \<^verbatim>\<open>proto.Decode\<close>/\<^verbatim>\<open>ReadHeader\<close> and
  \<^verbatim>\<open>proto.Unmarshal\<close>: a value of \<open>line\<close> is the message type together with the
  decoded payload, \<open>Garbled\<close> a line whose payload does not unmarshal into the struct of its type.
\<close>

section \<open>Constants\<close>

definition Version :: string where "Version = ''1''"
definition DefaultProxyPort :: nat where "DefaultProxyPort = 8080"
definition DefaultControlPort :: nat where "DefaultControlPort = 9900"

definition TypeHello :: string where "TypeHello = ''hello''"
definition TypeWelcome :: string where "TypeWelcome = ''welcome''"
definition TypeError :: string where "TypeError = ''error''"
definition TypePing :: string where "TypePing = ''ping''"
definition TypePong :: string where "TypePong = ''pong''"
definition TypeBye :: string where "TypeBye = ''bye''"
definition TypeDial :: string where "TypeDial = ''dial''"
definition TypeHTTP :: string where "TypeHTTP = ''http''"
definition TypeResolve :: string where "TypeResolve = ''resolve''"

definition CodeDuplicateUser :: string where "CodeDuplicateUser = ''duplicate_user''"
definition CodeVersionMismatch :: string where "CodeVersionMismatch = ''version_mismatch''"
definition CodeBadHello :: string where "CodeBadHello = ''bad_hello''"
definition CodeNoIncoming :: string where "CodeNoIncoming = ''no_incoming''"

definition NoListenerHeader :: string where "NoListenerHeader = ''X-Tetherd-No-Listener''"

lemmas type_defs = TypeHello_def TypeWelcome_def TypeError_def TypePing_def TypePong_def
  TypeBye_def TypeDial_def TypeHTTP_def TypeResolve_def
lemmas code_defs = CodeDuplicateUser_def CodeVersionMismatch_def CodeBadHello_def CodeNoIncoming_def

section \<open>Messages\<close>

record incoming =
  inc_Enabled :: bool
  inc_Header :: string
  inc_TokenHeader :: string

record hello =
  h_Version :: string
  h_User :: string
  h_Token :: string
  h_Incoming :: incoming

record session_info =
  si_User :: string
  si_From :: string
  si_Since :: time

record welcome_msg =
  w_Version :: string
  w_TaskARN :: string
  w_Env :: string
  w_AppEnv :: "(string, string) gomap"
  w_EnvError :: string
  w_Others :: "string list"
  w_Sessions :: "session_info list"

record perror =
  e_Code :: string
  e_Message :: string
  e_From :: string
  e_Since :: time

record dial_reply =
  dr_OK :: bool
  dr_Error :: string

record resolve_reply =
  rr_OK :: bool
  rr_Addrs :: "string list"
  rr_TTL :: int
  rr_Error :: string
  rr_NotFound :: bool

definition no_incoming :: incoming where
  "no_incoming = \<lparr>inc_Enabled = False, inc_Header = '''', inc_TokenHeader = ''''\<rparr>"

definition mk_error :: "string \<Rightarrow> string \<Rightarrow> perror" where
  "mk_error code msg = \<lparr>e_Code = code, e_Message = msg, e_From = '''', e_Since = 0\<rparr>"

definition zero_error :: perror where
  "zero_error = mk_error '''' ''''"

definition resolve_failed :: "string \<Rightarrow> bool \<Rightarrow> resolve_reply" where
  "resolve_failed msg nf = \<lparr>rr_OK = False, rr_Addrs = [], rr_TTL = 0, rr_Error = msg, rr_NotFound = nf\<rparr>"

definition resolve_ok :: "string list \<Rightarrow> int \<Rightarrow> resolve_reply" where
  "resolve_ok addrs ttl = \<lparr>rr_OK = True, rr_Addrs = addrs, rr_TTL = ttl, rr_Error = '''', rr_NotFound = False\<rparr>"

section \<open>Decoded lines\<close>

datatype line =
    LHello hello
  | LWelcome welcome_msg
  | LError perror
  | LPing
  | LPong
  | LBye
  | LDial string
  | LDialReply dial_reply
  | LHTTP string
  | LResolve string string
  | LResolveReply resolve_reply
  | Garbled string string \<comment> \<open>message type, unmarshal error\<close>
  | LOther string \<comment> \<open>a message type this build does not know\<close>

fun line_type :: "line \<Rightarrow> string" where
  "line_type (LHello _) = TypeHello"
| "line_type (LWelcome _) = TypeWelcome"
| "line_type (LError _) = TypeError"
| "line_type LPing = TypePing"
| "line_type LPong = TypePong"
| "line_type LBye = TypeBye"
| "line_type (LDial _) = TypeDial"
| "line_type (LDialReply _) = TypeDial"
| "line_type (LHTTP _) = TypeHTTP"
| "line_type (LResolve _ _) = TypeResolve"
| "line_type (LResolveReply _) = TypeResolve"
| "line_type (Garbled t _) = t"
| "line_type (LOther t) = t"

end
