(* ===== verification/Session.thy ===== *)
theory Session
  imports Proto
begin

text \<open>
  One control session over yamux: \<^verbatim>\<open>internal/session/server.go\<close> (the agent's
  \<^verbatim>\<open>Serve\<close>, \<^verbatim>\<open>refuse\<close>, \<^verbatim>\<open>serveStream\<close>) and
  \<^verbatim>\<open>client.go\<close> (the CLI's \<^verbatim>\<open>Dial\<close>, \<^verbatim>\<open>DialTCP\<close>,
  \<^verbatim>\<open>Resolve\<close>, the accept, read and ping loops). yamux and the transport are
  parameters: what each \<^verbatim>\<open>Decode\<close> answers is a list of outcomes, and whether the
  \<open>n\<close>-th write succeeds is a predicate. The agent's implementation of \<^verbatim>\<open>session.Handler\<close>
  is a pair of functions on a state; the locale \<open>session_handler\<close> is its contract.
\<close>

section \<open>Unmarshalling a line\<close>

text \<open>
  \<^verbatim>\<open>proto.Unmarshal\<close> of a line into a struct: a line whose payload has none of the
  struct's fields leaves it zero, a garbled one is an error. The two replies share the fields
  \<^verbatim>\<open>ok\<close> and \<^verbatim>\<open>error\<close>.
\<close>

fun to_hello :: "line \<Rightarrow> string + hello" where
  "to_hello (LHello h) = Inr h"
| "to_hello (Garbled _ e) = Inl e"
| "to_hello _ = Inr \<lparr>h_Version = '''', h_User = '''', h_Token = '''', h_Incoming = no_incoming\<rparr>"

fun to_welcome :: "line \<Rightarrow> string + welcome_msg" where
  "to_welcome (LWelcome w) = Inr w"
| "to_welcome (Garbled _ e) = Inl e"
| "to_welcome _ = Inr \<lparr>w_Version = '''', w_TaskARN = '''', w_Env = '''', w_AppEnv = [], w_EnvError = '''',
                       w_Others = [], w_Sessions = []\<rparr>"

text \<open>For \<^verbatim>\<open>proto.Error\<close> the callers ignore the error of Unmarshal.\<close>

fun to_error :: "line \<Rightarrow> perror" where
  "to_error (LError e) = e"
| "to_error _ = zero_error"

fun to_dial_addr :: "line \<Rightarrow> string + string" where
  "to_dial_addr (LDial a) = Inr a"
| "to_dial_addr (Garbled _ e) = Inl e"
| "to_dial_addr _ = Inr ''''"

fun to_dial_reply :: "line \<Rightarrow> string + dial_reply" where
  "to_dial_reply (LDialReply r) = Inr r"
| "to_dial_reply (LResolveReply r) = Inr \<lparr>dr_OK = rr_OK r, dr_Error = rr_Error r\<rparr>"
| "to_dial_reply (Garbled _ e) = Inl e"
| "to_dial_reply _ = Inr \<lparr>dr_OK = False, dr_Error = ''''\<rparr>"

fun to_resolve_header :: "line \<Rightarrow> string + (string \<times> string)" where
  "to_resolve_header (LResolve n q) = Inr (n, q)"
| "to_resolve_header (Garbled _ e) = Inl e"
| "to_resolve_header _ = Inr ('''', '''')"

fun to_resolve_reply :: "line \<Rightarrow> string + resolve_reply" where
  "to_resolve_reply (LResolveReply r) = Inr r"
| "to_resolve_reply (LDialReply r) =
     Inr \<lparr>rr_OK = dr_OK r, rr_Addrs = [], rr_TTL = 0, rr_Error = dr_Error r, rr_NotFound = False\<rparr>"
| "to_resolve_reply (Garbled _ e) = Inl e"
| "to_resolve_reply _ = Inr (resolve_failed '''' False)"

section \<open>The agent side\<close>

type_synonym decoded = "string + line" \<comment> \<open>an error of \<^verbatim>\<open>Decode\<close>/\<^verbatim>\<open>ReadHeader\<close>, or a line\<close>

datatype serve_error =
    MuxFailed
  | AcceptFailed
  | ReadHello string
  | ExpectedHello
  | UnmarshalHello string
  | VersionMismatch
  | RejectedHello string \<comment> \<open>the code of the refusal\<close>
  | WriteFailed
  | ControlStream string

text \<open>
  The control loop after the welcome: \<open>sent\<close> is what has been written so far, \<open>wok n\<close> whether
  the write number \<open>n\<close> succeeds. When the peer sends nothing more, the read deadline ends it.
\<close>

fun control_loop :: "(nat \<Rightarrow> bool) \<Rightarrow> decoded list \<Rightarrow> line list \<Rightarrow> line list \<times> serve_error option" where
  "control_loop wok [] sent = (sent, Some (ControlStream ''i/o timeout''))"
| "control_loop wok (Inl e # ins) sent = (sent, Some (ControlStream e))"
| "control_loop wok (Inr l # ins) sent =
     (if line_type l = TypePing then
        (if wok (length sent) then control_loop wok ins (sent @ [LPong]) else (sent, Some WriteFailed))
      else if line_type l = TypeBye then (sent, None)
      else control_loop wok ins sent)"

record 's serve_result =
  sv_state :: 's
  sv_sent :: "line list"
  sv_err :: "serve_error option"
  sv_closed :: nat \<comment> \<open>how often \<^verbatim>\<open>Handler.Closed\<close> ran\<close>

text \<open>\<^verbatim>\<open>refuse\<close>: the reason goes out when the write succeeds, and the caller's error comes back.\<close>

definition refuse :: "(nat \<Rightarrow> bool) \<Rightarrow> 's \<Rightarrow> perror \<Rightarrow> serve_error \<Rightarrow> 's serve_result" where
  "refuse wok s e err =
     \<lparr>sv_state = s, sv_sent = (if wok 0 then [LError e] else []), sv_err = Some err, sv_closed = 0\<rparr>"

text \<open>
  \<^verbatim>\<open>Serve\<close>. \<open>mux_ok\<close> and \<open>accept_ok\<close> are yamux's answers; \<open>others\<close> is what the rest of
  the agent does to the handler's state while this session's control loop runs.
\<close>

definition Serve ::
  "('s \<Rightarrow> hello \<Rightarrow> 's \<times> (perror + welcome_msg)) \<Rightarrow> ('s \<Rightarrow> 's) \<Rightarrow> ('s \<Rightarrow> 's) \<Rightarrow>
   bool \<Rightarrow> bool \<Rightarrow> (nat \<Rightarrow> bool) \<Rightarrow> decoded list \<Rightarrow> 's \<Rightarrow> 's serve_result" where
  "Serve hello_f closed_f others mux_ok accept_ok wok ins s =
     (if \<not> mux_ok then \<lparr>sv_state = s, sv_sent = [], sv_err = Some MuxFailed, sv_closed = 0\<rparr>
      else if \<not> accept_ok then \<lparr>sv_state = s, sv_sent = [], sv_err = Some AcceptFailed, sv_closed = 0\<rparr>
      else case ins of
        [] \<Rightarrow> \<lparr>sv_state = s, sv_sent = [], sv_err = Some (ReadHello ''i/o timeout''), sv_closed = 0\<rparr>
      | Inl e # _ \<Rightarrow> \<lparr>sv_state = s, sv_sent = [], sv_err = Some (ReadHello e), sv_closed = 0\<rparr>
      | Inr l # ins' \<Rightarrow>
          if line_type l \<noteq> TypeHello then
            refuse wok s (mk_error CodeBadHello (''expected hello, got '' @ line_type l)) ExpectedHello
          else case to_hello l of
            Inl e \<Rightarrow> refuse wok s (mk_error CodeBadHello e) (UnmarshalHello e)
          | Inr h \<Rightarrow>
              if h_Version h \<noteq> Version then
                refuse wok s (mk_error CodeVersionMismatch (''agent speaks protocol '' @ Version)) VersionMismatch
              else (case hello_f s h of
                (s', Inl rej) \<Rightarrow> refuse wok s' rej (RejectedHello (e_Code rej))
              | (s', Inr w) \<Rightarrow>
                  if \<not> wok 0 then
                    \<lparr>sv_state = closed_f s', sv_sent = [], sv_err = Some WriteFailed, sv_closed = 1\<rparr>
                  else (case control_loop wok ins' [LWelcome w] of
                    (sent, err) \<Rightarrow>
                      \<lparr>sv_state = closed_f (others s'), sv_sent = sent, sv_err = err, sv_closed = 1\<rparr>)))"

text \<open>
  \<^verbatim>\<open>serveStream\<close>: the replies it writes and, for an accepted dial, the address whose
  connection is piped. \<open>dial\<close> answers the error of \<^verbatim>\<open>Handler.Dial\<close>, if any; \<open>resolve\<close>
  answers an error with whether it is \<^verbatim>\<open>ErrNameNotFound\<close>, or the addresses and their TTL.
\<close>

definition serveStream ::
  "(string \<Rightarrow> string option) \<Rightarrow> (string \<Rightarrow> (string \<times> bool) + (string list \<times> int)) \<Rightarrow> bool \<Rightarrow> decoded \<Rightarrow>
   line list \<times> string option" where
  "serveStream dial resolve wok hdr =
     (case hdr of
        Inl _ \<Rightarrow> ([], None)
      | Inr l \<Rightarrow>
        if line_type l = TypeDial then
          (case to_dial_addr l of
             Inl e \<Rightarrow> ([LDialReply \<lparr>dr_OK = False, dr_Error = e\<rparr>], None)
           | Inr addr \<Rightarrow>
               (case dial addr of
                  Some e \<Rightarrow> ([LDialReply \<lparr>dr_OK = False, dr_Error = e\<rparr>], None)
                | None \<Rightarrow> if wok then ([LDialReply \<lparr>dr_OK = True, dr_Error = ''''\<rparr>], Some addr) else ([], None)))
        else if line_type l = TypeResolve then
          (case to_resolve_header l of
             Inl e \<Rightarrow> ([LResolveReply (resolve_failed e False)], None)
           | Inr (name, qtype) \<Rightarrow>
               if qtype \<noteq> ''A'' then
                 ([LResolveReply (resolve_failed
                     (''unsupported query type '' @ quoted qtype @ '': only A is supported'') False)], None)
               else (case resolve name of
                  Inl (e, nf) \<Rightarrow> ([LResolveReply (resolve_failed e nf)], None)
                | Inr (addrs, ttl) \<Rightarrow> ([LResolveReply (resolve_ok addrs ttl)], None)))
        else ([LError (mk_error CodeBadHello (''unknown stream type '' @ line_type l))], None))"

section \<open>The CLI side\<close>

datatype dial_error =
    TransportError string
  | WaitingForWelcome string
  | BadWelcome string
  | Rejected perror \<comment> \<open>\<^verbatim>\<open>RejectedError\<close>\<close>
  | UnexpectedBeforeWelcome string

text \<open>
  \<^verbatim>\<open>session.Dial\<close>: \<open>transport\<close> is the error of yamux, of opening the control stream or of
  writing the hello, if any; \<open>reply\<close> what the first \<^verbatim>\<open>Decode\<close> answers. The result is the
  welcome the client keeps.
\<close>

definition Dial :: "string option \<Rightarrow> decoded \<Rightarrow> dial_error + welcome_msg" where
  "Dial transport reply =
     (case transport of
        Some e \<Rightarrow> Inl (TransportError e)
      | None \<Rightarrow>
        (case reply of
           Inl e \<Rightarrow> Inl (WaitingForWelcome e)
         | Inr l \<Rightarrow>
           if line_type l = TypeWelcome then
             (case to_welcome l of Inl e \<Rightarrow> Inl (BadWelcome e) | Inr w \<Rightarrow> Inr w)
           else if line_type l = TypeError then Inl (Rejected (to_error l))
           else Inl (UnexpectedBeforeWelcome (line_type l))))"

datatype http_outcome = Returned | Panicked
datatype inbound = InboundClosed | HandedOver bool | Refused line

text \<open>
  \<^verbatim>\<open>callOnHTTP\<close>: the handler owns the stream, unless it panics, in which case the session
  layer survives and closes the stream.
\<close>

definition callOnHTTP :: "http_outcome \<Rightarrow> bool" where
  "callOnHTTP r = (case r of Returned \<Rightarrow> False | Panicked \<Rightarrow> True)"

text \<open>
  \<^verbatim>\<open>serveInbound\<close>: \<open>onHTTP\<close> is the CLI's steal handler, if it has one;
  \<open>HandedOver b\<close> says whether the session layer closed the stream after it.
\<close>

definition serveInbound :: "http_outcome option \<Rightarrow> decoded \<Rightarrow> inbound" where
  "serveInbound onHTTP hdr =
     (case hdr of
        Inl _ \<Rightarrow> InboundClosed
      | Inr l \<Rightarrow>
          if line_type l = TypeHTTP then
            (case onHTTP of
               Some r \<Rightarrow> HandedOver (callOnHTTP r)
             | None \<Rightarrow> Refused (LError (mk_error CodeNoIncoming
                 ''this session is not accepting incoming requests (--no-incoming)'')))
          else Refused (LError (mk_error CodeBadHello (''unknown stream type '' @ line_type l))))"

definition DialTCP :: "string option \<Rightarrow> decoded \<Rightarrow> string \<Rightarrow> string option" where
  "DialTCP transport reply addr =
     (case transport of
        Some e \<Rightarrow> Some e
      | None \<Rightarrow>
        (case reply of
           Inl e \<Rightarrow> Some (''session: dial '' @ addr @ '': '' @ e)
         | Inr l \<Rightarrow>
           (case to_dial_reply l of
              Inl e \<Rightarrow> Some e
            | Inr r \<Rightarrow> if \<not> dr_OK r then Some (''dial '' @ addr @ '' via agent: '' @ dr_Error r) else None)))"

text \<open>The errors of \<^verbatim>\<open>Client.Resolve\<close>; \<open>NotFound\<close> is the one that wraps \<^verbatim>\<open>ErrNameNotFound\<close>.\<close>

datatype resolve_error = NotFound string | ResolveFailed string | ContextDone

definition Resolve ::
  "string option \<Rightarrow> bool \<Rightarrow> decoded \<Rightarrow> string \<Rightarrow> resolve_error + (string list \<times> int)" where
  "Resolve transport ctx_done reply name =
     (let pre = ''resolve '' @ name @ '' via agent: '' in
      case transport of
        Some e \<Rightarrow> Inl (ResolveFailed e)
      | None \<Rightarrow>
        (case reply of
           Inl e \<Rightarrow> if ctx_done then Inl ContextDone else Inl (ResolveFailed (''session: resolve '' @ name @ '': '' @ e))
         | Inr l \<Rightarrow>
           if line_type l = TypeResolve then
             (case to_resolve_reply l of
                Inl e \<Rightarrow> Inl (ResolveFailed e)
              | Inr r \<Rightarrow>
                if \<not> rr_OK r then
                  (let msg = (if rr_Error r = '''' then ''agent did not say why'' else rr_Error r) in
                   if rr_NotFound r then Inl (NotFound (pre @ msg)) else Inl (ResolveFailed (pre @ msg)))
                else Inr (rr_Addrs r, rr_TTL r))
           else if line_type l = TypeError then
             (let e = to_error l in
              if e_Code e = CodeBadHello then
                Inl (ResolveFailed (pre @ ''this agent does not support name resolution; upgrade the sidecar''))
              else Inl (ResolveFailed (pre @
                (if e_Message e = '''' then ''agent rejected the resolve request'' else e_Message e))))
           else Inl (ResolveFailed (pre @ ''unexpected reply type '' @ quoted (line_type l)))))"

section \<open>The life of a client\<close>

datatype client_error = ControlClosed string | RejectedLate perror | AgentSaidBye | PingFailed string | Unanswered nat

record client =
  c_done :: bool
  c_err :: "client_error option"
  c_pong :: bool \<comment> \<open>the one-slot \<^verbatim>\<open>pong\<close> channel\<close>
  c_reading :: bool \<comment> \<open>\<^verbatim>\<open>readLoop\<close> has not returned\<close>
  c_pinging :: bool \<comment> \<open>\<^verbatim>\<open>pingLoop\<close> has not returned\<close>
  c_waiting :: bool \<comment> \<open>\<^verbatim>\<open>pingLoop\<close> has sent a ping and waits for its pong\<close>
  c_missed :: nat

definition new_client :: client where
  "new_client = \<lparr>c_done = False, c_err = None, c_pong = False, c_reading = True, c_pinging = True,
                 c_waiting = False, c_missed = 0\<rparr>"

text \<open>\<^verbatim>\<open>finish\<close> runs its body once (\<^verbatim>\<open>sync.Once\<close>).\<close>

definition finish :: "client_error option \<Rightarrow> client \<Rightarrow> client" where
  "finish err c = (if c_done c then c else c\<lparr>c_done := True, c_err := err\<rparr>)"

definition Close :: "client \<Rightarrow> client" where
  "Close c = finish None c"

text \<open>One round of \<^verbatim>\<open>readLoop\<close>.\<close>

definition readLoop :: "decoded \<Rightarrow> client \<Rightarrow> client" where
  "readLoop d c =
     (case d of
        Inl e \<Rightarrow> (finish (Some (ControlClosed e)) c)\<lparr>c_reading := False\<rparr>
      | Inr l \<Rightarrow>
          if line_type l = TypePong then c\<lparr>c_pong := True\<rparr>
          else if line_type l = TypeError then (finish (Some (RejectedLate (to_error l))) c)\<lparr>c_reading := False\<rparr>
          else if line_type l = TypeBye then (finish (Some AgentSaidBye) c)\<lparr>c_reading := False\<rparr>
          else c)"

text \<open>The two halves of a round of \<^verbatim>\<open>pingLoop\<close>: the tick that sends a ping, and the wait for its pong.\<close>

definition ping_tick :: "string option \<Rightarrow> client \<Rightarrow> client" where
  "ping_tick werr c =
     (case werr of
        Some e \<Rightarrow> (finish (Some (PingFailed e)) c)\<lparr>c_pinging := False\<rparr>
      | None \<Rightarrow> c\<lparr>c_waiting := True\<rparr>)"

definition ping_answered :: "client \<Rightarrow> client" where
  "ping_answered c = c\<lparr>c_pong := False, c_missed := 0, c_waiting := False\<rparr>"

definition ping_silent :: "nat \<Rightarrow> client \<Rightarrow> client" where
  "ping_silent maxMissed c =
     (let m = Suc (c_missed c) in
      if maxMissed \<le> m then (finish (Some (Unanswered m)) c)\<lparr>c_missed := m, c_pinging := False\<rparr>
      else c\<lparr>c_missed := m, c_waiting := False\<rparr>)"

text \<open>The goroutines of one client interleaved: the read loop, the ping loop and a caller of \<^verbatim>\<open>Close\<close>.\<close>

inductive client_step :: "nat \<Rightarrow> client \<Rightarrow> client \<Rightarrow> bool" for maxMissed where
  read: "c_reading c \<Longrightarrow> client_step maxMissed c (readLoop d c)"
| tick: "c_pinging c \<Longrightarrow> \<not> c_waiting c \<Longrightarrow> client_step maxMissed c (ping_tick werr c)"
| pong: "c_pinging c \<Longrightarrow> c_waiting c \<Longrightarrow> c_pong c \<Longrightarrow> client_step maxMissed c (ping_answered c)"
| silent: "c_pinging c \<Longrightarrow> c_waiting c \<Longrightarrow> client_step maxMissed c (ping_silent maxMissed c)"
| stop: "c_pinging c \<Longrightarrow> c_done c \<Longrightarrow> client_step maxMissed c (c\<lparr>c_pinging := False\<rparr>)"
| close: "client_step maxMissed c (Close c)"

text \<open>A run of \<^verbatim>\<open>pingLoop\<close> alone: what happened to each ping it sent, in order.\<close>

datatype ping_round = Answered | Silent

fun pingLoop :: "nat \<Rightarrow> nat \<Rightarrow> ping_round list \<Rightarrow> client_error option" where
  "pingLoop maxMissed missed [] = None"
| "pingLoop maxMissed missed (Answered # rs) = pingLoop maxMissed 0 rs"
| "pingLoop maxMissed missed (Silent # rs) =
     (if maxMissed \<le> Suc missed then Some (Unanswered (Suc missed)) else pingLoop maxMissed (Suc missed) rs)"

inductive client_steps :: "nat \<Rightarrow> client \<Rightarrow> client \<Rightarrow> bool" for maxMissed where
  refl: "client_steps maxMissed c c"
| step: "client_steps maxMissed c c' \<Longrightarrow> client_step maxMissed c' c'' \<Longrightarrow> client_steps maxMissed c c''"

text \<open>A client whose ping loop still runs has missed fewer pongs than it tolerates.\<close>

definition client_inv :: "nat \<Rightarrow> client \<Rightarrow> bool" where
  "client_inv m c \<longleftrightarrow> (c_pinging c \<longrightarrow> c_missed c < m) \<and> (\<not> c_done c \<longrightarrow> c_pinging c \<and> c_reading c \<and> c_err c = None)"

section \<open>The contract of a handler\<close>

text \<open>
  What \<^verbatim>\<open>Serve\<close> relies on: a refused hello leaves the handler's state alone, and
  \<^verbatim>\<open>Closed\<close> undoes what an accepted hello of a fresh handler did, as seen through \<open>view\<close>.
\<close>

locale session_handler =
  fixes hello_f :: "'s \<Rightarrow> hello \<Rightarrow> 's \<times> (perror + welcome_msg)"
    and closed_f :: "'s \<Rightarrow> 's"
    and view :: "'s \<Rightarrow> 'v"
    and fresh :: "'s \<Rightarrow> bool"
  assumes hello_refused: "hello_f s h = (s', Inl e) \<Longrightarrow> s' = s"
    and closed_undoes: "fresh s \<Longrightarrow> hello_f s h = (s', Inr w) \<Longrightarrow> view (closed_f s') = view s"
begin

lemma Serve_restores:
  assumes "fresh s"
  shows "view (sv_state (Serve hello_f closed_f id mux_ok accept_ok wok ins s)) = view s"
  using assms
  by (auto simp: Serve_def refuse_def closed_undoes dest: hello_refused split: list.splits sum.splits prod.splits)

end

section \<open>Serving\<close>

text \<open>\<^verbatim>\<open>Serve\<close> calls \<^verbatim>\<open>Handler.Closed\<close> exactly once when the first line of the
  control stream is a hello of this protocol version that the handler accepts, and never for any other
  session, whatever the transport does afterwards.\<close>

lemma Serve_closed_once:
  "sv_closed (Serve hello_f closed_f others mux_ok accept_ok wok ins s) =
     (case ins of
        Inr (LHello h) # _ \<Rightarrow>
          if mux_ok \<and> accept_ok \<and> h_Version h = Version \<and> \<not> isl (snd (hello_f s h)) then 1 else 0
      | _ \<Rightarrow> 0)"
proof (cases ins)
  case (Cons d ins')
  have z: "'''' \<noteq> Version" by (simp add: Version_def)
  show ?thesis
  proof (cases d)
    case (Inr l)
    then show ?thesis
      using Cons z
      by (cases l) (auto simp: Serve_def refuse_def type_defs split: prod.splits sum.splits)
  qed (simp add: Cons Serve_def)
qed (simp add: Serve_def)

text \<open>The control loop answers each ping with one pong, until the first failure or bye.\<close>

lemma control_loop_pings:
  "control_loop (\<lambda>_. True) (replicate n (Inr LPing) @ Inr LBye # ins) sent = (sent @ replicate n LPong, None)"
proof (induction n arbitrary: sent)
  case (Suc n)
  then show ?case by (simp add: type_defs)
qed (simp add: type_defs)

text \<open>What a handler decides about a hello is what the CLI learns.\<close>

lemma handshake_reply:
  assumes "line_type l = TypeHello" and "to_hello l = Inr h"
  shows "sv_sent (Serve hello_f closed_f others True True (\<lambda>_. True) [Inr l] s) =
     [if h_Version h \<noteq> Version
      then LError (mk_error CodeVersionMismatch (''agent speaks protocol '' @ Version))
      else (case snd (hello_f s h) of Inl e \<Rightarrow> LError e | Inr w \<Rightarrow> LWelcome w)]"
  using assms by (auto simp: Serve_def refuse_def split: prod.splits sum.splits)

section \<open>Liveness of a client\<close>

lemma contains_replicate_break:
  assumes "k < m" and "a \<noteq> b"
  shows "contains (replicate k a @ b # xs) (replicate m a) \<longleftrightarrow> contains xs (replicate m a)"
  using assms(1)
proof (induction k)
  case 0
  then obtain m' where "m = Suc m'" by (cases m) auto
  with assms(2) show ?case by simp
next
  case (Suc k)
  have "\<not> has_prefix (replicate (Suc k) a @ b # xs) (replicate m a)"
  proof
    assume "has_prefix (replicate (Suc k) a @ b # xs) (replicate m a)"
    then obtain r where "replicate (Suc k) a @ b # xs = replicate m a @ r" by (auto simp: has_prefix_iff)
    then have "(replicate (Suc k) a @ b # xs) ! Suc k = (replicate m a @ r) ! Suc k" by simp
    with Suc.prems assms(2) show False by (simp add: nth_append)
  qed
  with Suc show ?case by simp
qed

lemma pingLoop_contains:
  "k < m \<Longrightarrow> pingLoop m k rs =
     (if contains (replicate k Silent @ rs) (replicate m Silent) then Some (Unanswered m) else None)"
proof (induction m k rs rule: pingLoop.induct)
  case (1 m k)
  have "\<not> contains (replicate k Silent) (replicate m Silent)"
    using 1 by (auto simp: contains_iff dest: arg_cong[where f = length])
  then show ?case by simp
next
  case (2 m k rs)
  then show ?case by (simp add: contains_replicate_break)
next
  case (3 m k rs)
  have shift: "replicate k Silent @ Silent # rs = replicate (Suc k) Silent @ rs"
    by (simp add: replicate_app_Cons_same)
  show ?case
  proof (cases "m \<le> Suc k")
    case True
    with 3(2) have "m = Suc k" by simp
    then show ?thesis
      unfolding shift by (simp add: contains_iff) (metis append_Nil append_Cons)
  next
    case False
    with 3 show ?thesis unfolding shift by simp
  qed
qed

lemma finish_done [simp]: "c_done (finish e c)"
  by (simp add: finish_def)

lemma finish_keeps [simp]: "c_done c \<Longrightarrow> finish e c = c"
  by (simp add: finish_def)

lemma finish_fields [simp]:
  "c_missed (finish e c) = c_missed c" "c_pinging (finish e c) = c_pinging c"
  "c_waiting (finish e c) = c_waiting c" "c_reading (finish e c) = c_reading c" "c_pong (finish e c) = c_pong c"
  by (simp_all add: finish_def)

lemmas client_op_defs = readLoop_def ping_tick_def ping_answered_def ping_silent_def Close_def Let_def

lemma client_step_done: "client_step m c c' \<Longrightarrow> c_done c \<Longrightarrow> c_done c' \<and> c_err c' = c_err c"
  by (induction rule: client_step.induct) (auto simp: client_op_defs split: sum.splits option.splits)

lemma client_steps_done: "client_steps m c c' \<Longrightarrow> c_done c \<Longrightarrow> c_done c' \<and> c_err c' = c_err c"
proof (induction rule: client_steps.induct)
  case (step c c' c'') then show ?case using client_step_done by metis
qed simp

lemma client_step_inv: "client_step m c c' \<Longrightarrow> client_inv m c \<Longrightarrow> client_inv m c'"
  by (induction rule: client_step.induct)
     (auto simp: client_inv_def client_op_defs finish_def split: sum.splits option.splits)

lemma client_steps_inv: "client_steps m c c' \<Longrightarrow> client_inv m c \<Longrightarrow> client_inv m c'"
  by (induction rule: client_steps.induct) (auto dest: client_step_inv)

section \<open>Properties\<close>

text \<open>When the transport works, the CLI's \<^verbatim>\<open>Dial\<close> reports exactly what the agent's handler
  decided about its hello: the welcome it returned, or a \<^verbatim>\<open>RejectedError\<close> carrying the
  handler's own refusal (which the duplicate-user retry depends on); a hello of another protocol version is
  rejected as \<^verbatim>\<open>version_mismatch\<close> without asking the handler.\<close>

lemma handshake_agreement:
  "Dial None (Inr (hd (sv_sent (Serve hello_f closed_f others True True (\<lambda>_. True) [Inr (LHello h)] s)))) =
     (if h_Version h \<noteq> Version
      then Inl (Rejected (mk_error CodeVersionMismatch (''agent speaks protocol '' @ Version)))
      else (case snd (hello_f s h) of Inl e \<Rightarrow> Inl (Rejected e) | Inr w \<Rightarrow> Inr w))"
  by (subst handshake_reply[where h = h]) (auto simp: Dial_def type_defs split: sum.splits)

text \<open>A name resolved through the session gives the CLI what the agent's resolver answered: the same
  addresses and TTL, and an error that is \<^verbatim>\<open>ErrNameNotFound\<close> exactly when the agent's was.\<close>

lemma resolve_wire_roundtrip:
  "Resolve None ctx_done (Inr (hd (fst (serveStream dial resolve wok (Inr (LResolve name ''A'')))))) name =
     (case resolve name of
        Inr r \<Rightarrow> Inr r
      | Inl (e, nf) \<Rightarrow>
          Inl ((if nf then NotFound else ResolveFailed)
            (''resolve '' @ name @ '' via agent: '' @ (if e = '''' then ''agent did not say why'' else e))))"
  by (auto simp: Resolve_def serveStream_def type_defs resolve_ok_def resolve_failed_def Let_def
           split: sum.splits prod.splits)

text \<open>The ping loop gives a session up exactly when some \<^verbatim>\<open>MaxMissed\<close> consecutive pings went
  unanswered, and then reports that number; any answered ping in between resets the count.\<close>

lemma ping_loop_exact:
  "0 < maxMissed \<Longrightarrow> pingLoop maxMissed 0 rounds =
     (if contains rounds (replicate maxMissed Silent) then Some (Unanswered maxMissed) else None)"
  by (simp add: pingLoop_contains)

text \<open>However the read loop, the ping loop and callers of \<^verbatim>\<open>Close\<close> interleave, a client that
  has ended stays ended with the reason it first recorded, and one that has not ended has no reason recorded,
  both its loops running and fewer than \<^verbatim>\<open>MaxMissed\<close> missed pongs.\<close>

lemma client_ends_once:
  assumes "0 < maxMissed" and "client_steps maxMissed new_client c" and "client_steps maxMissed c c'"
  shows "(c_done c \<longrightarrow> c_done c' \<and> c_err c' = c_err c) \<and>
         (\<not> c_done c' \<longrightarrow> c_err c' = None \<and> c_reading c' \<and> c_pinging c' \<and> c_missed c' < maxMissed)"
proof -
  have "client_inv maxMissed new_client" using assms(1) by (simp add: client_inv_def new_client_def)
  then have "client_inv maxMissed c'"
    using client_steps_inv[OF assms(2)] client_steps_inv[OF assms(3)] by blast
  then show ?thesis using client_steps_done[OF assms(3)] by (auto simp: client_inv_def)
qed

end
