(* ===== verification/Http.thy ===== *)
theory Http
  imports Prelude
begin

text \<open>
  What tetherd uses of \<^verbatim>\<open>net/http\<close>: headers keyed by canonical name
  (\<^verbatim>\<open>textproto.CanonicalMIMEHeaderKey\<close>), \<^verbatim>\<open>Header.Get\<close>, \<^verbatim>\<open>Values\<close>,
  \<^verbatim>\<open>Set\<close>, \<^verbatim>\<open>Add\<close> and \<^verbatim>\<open>Del\<close>, requests with a body that is a
  stream of bytes which may fail, and responses.
\<close>

section \<open>Header names\<close>

definition is_upper :: "char \<Rightarrow> bool" where
  "is_upper c = (let n = of_char c :: nat in 65 \<le> n \<and> n \<le> 90)"

definition is_lower :: "char \<Rightarrow> bool" where
  "is_lower c = (let n = of_char c :: nat in 97 \<le> n \<and> n \<le> 122)"

definition to_upper_char :: "char \<Rightarrow> char" where
  "to_upper_char c = (if is_lower c then char_of ((of_char c :: nat) - 32) else c)"

text \<open>The bytes allowed in a header field name (RFC 7230 \<open>tchar\<close>).\<close>

definition valid_header_byte :: "char \<Rightarrow> bool" where
  "valid_header_byte c = (is_upper c \<or> is_lower c \<or> is_digit c \<or> c \<in> set ''!#$%&*+-.^_|~'' \<or>
     c = CHR 0x27 \<or> c = CHR 0x60)"

fun canon_chars :: "bool \<Rightarrow> string \<Rightarrow> string" where
  "canon_chars up [] = []"
| "canon_chars up (c # s) =
     (if up then to_upper_char c else to_lower_char c) # canon_chars (c = CHR ''-'') s"

text \<open>A name with a byte that is not allowed is left as it is.\<close>

definition canonical_key :: "string \<Rightarrow> string" where
  "canonical_key s = (if list_all valid_header_byte s then canon_chars True s else s)"

section \<open>Headers\<close>

type_synonym header = "(string, string list) gomap" \<comment> \<open>keys in canonical form\<close>

definition header_values :: "header \<Rightarrow> string \<Rightarrow> string list" where
  "header_values h k = (case mget h (canonical_key k) of None \<Rightarrow> [] | Some vs \<Rightarrow> vs)"

text \<open>\<^verbatim>\<open>Header.Get\<close>: the first value, or the empty string.\<close>

definition header_get :: "header \<Rightarrow> string \<Rightarrow> string" where
  "header_get h k = (case header_values h k of [] \<Rightarrow> '''' | v # _ \<Rightarrow> v)"

definition header_set :: "string \<Rightarrow> string \<Rightarrow> header \<Rightarrow> header" where
  "header_set k v h = mput (canonical_key k) [v] h"

definition header_add :: "string \<Rightarrow> string \<Rightarrow> header \<Rightarrow> header" where
  "header_add k v h = mput (canonical_key k) (header_values h k @ [v]) h"

definition header_del :: "string \<Rightarrow> header \<Rightarrow> header" where
  "header_del k h = mdel (canonical_key k) h"

text \<open>Writing \<^verbatim>\<open>h[name] = vs\<close> for a name that is spelled canonically.\<close>

definition header_put :: "string \<Rightarrow> string list \<Rightarrow> header \<Rightarrow> header" where
  "header_put k vs h = mput k vs h"

section \<open>Requests and responses\<close>

text \<open>
  A body is the sequence of bytes the peer sends; \<open>body_err\<close> is set when the connection fails
  after them (a client that goes away), in which case reading to the end reports an error.
\<close>

record body =
  body_data :: "char list"
  body_err :: bool

record request =
  rq_Method :: string
  rq_Path :: string
  rq_Host :: string
  rq_Header :: header
  rq_Body :: "body option" \<comment> \<open>\<open>None\<close>: \<^verbatim>\<open>nil\<close> or \<^verbatim>\<open>http.NoBody\<close>\<close>
  rq_ContentLength :: int
  rq_TransferEncoding :: "string list"

record response =
  rs_Status :: int
  rs_Header :: header
  rs_Body :: "char list"

definition StatusOK :: int where "StatusOK = 200"
definition StatusSwitchingProtocols :: int where "StatusSwitchingProtocols = 101"
definition StatusBadGateway :: int where "StatusBadGateway = 502"

section \<open>Laws\<close>

lemma to_lower_char_hyphen [simp]: "to_lower_char c = CHR ''-'' \<longleftrightarrow> c = CHR ''-''"
proof
  assume h: "to_lower_char c = CHR ''-''"
  show "c = CHR ''-''"
  proof (rule ccontr)
    assume c: "c \<noteq> CHR ''-''"
    with h have n: "65 \<le> (of_char c :: nat)" "(of_char c :: nat) \<le> 90"
      and eq: "char_of ((of_char c :: nat) + 32) = CHR ''-''"
      by (auto simp: to_lower_char_def Let_def split: if_splits)
    from eq have "of_char (char_of ((of_char c :: nat) + 32) :: char) = (45::nat)" by simp
    with n show False by simp
  qed
qed (simp add: to_lower_char_def)

lemma of_char_lower: "of_char (to_lower_char c) = (if is_upper c then of_char c + 32 else of_char c :: nat)"
  by (auto simp: to_lower_char_def is_upper_def Let_def)

lemma of_char_upper: "of_char (to_upper_char c) = (if is_lower c then of_char c - 32 else of_char c :: nat)"
  by (auto simp: to_upper_char_def is_lower_def Let_def)

lemma upper_lower_char: "to_upper_char (to_lower_char c) = to_upper_char c"
proof -
  have "of_char (to_upper_char (to_lower_char c)) = (of_char (to_upper_char c) :: nat)"
    unfolding of_char_upper of_char_lower is_lower_def Let_def
    by (auto simp: of_char_lower is_upper_def Let_def)
  then show ?thesis by simp
qed

lemma lower_lower_char [simp]: "to_lower_char (to_lower_char c) = to_lower_char c"
proof -
  have "of_char (to_lower_char (to_lower_char c)) = (of_char (to_lower_char c) :: nat)"
    unfolding of_char_lower is_upper_def Let_def
    by (auto simp: of_char_lower is_upper_def Let_def)
  then show ?thesis by simp
qed

lemma valid_lower_char [simp]: "valid_header_byte (to_lower_char c) = valid_header_byte c"
proof (cases "is_upper c")
  case True
  then have "is_lower (to_lower_char c)"
    by (simp add: is_lower_def of_char_lower Let_def) (simp add: is_upper_def Let_def)
  with True show ?thesis by (simp add: valid_header_byte_def)
next
  case False
  then have "to_lower_char c = c"
    by (auto simp: to_lower_char_def is_upper_def Let_def)
  then show ?thesis by simp
qed

lemma canon_chars_lower: "canon_chars up (map to_lower_char s) = canon_chars up s"
  by (induction up s rule: canon_chars.induct) (simp_all add: upper_lower_char)

lemma canonical_key_lower:
  "list_all valid_header_byte s \<Longrightarrow> canonical_key (to_lower s) = canonical_key s"
  by (simp add: canonical_key_def to_lower_def canon_chars_lower list_all_length)

text \<open>Two spellings of a valid name that differ in case only are the same key.\<close>

lemma canonical_key_case_insensitive:
  assumes "list_all valid_header_byte a" and "to_lower a = to_lower b"
  shows "canonical_key a = canonical_key b"
proof -
  have "list_all valid_header_byte (to_lower a) = list_all valid_header_byte a"
    by (simp add: to_lower_def list_all_length)
  moreover have "list_all valid_header_byte (to_lower b) = list_all valid_header_byte b"
    by (simp add: to_lower_def list_all_length)
  ultimately have "list_all valid_header_byte b" using assms by simp
  then show ?thesis using canonical_key_lower assms by metis
qed

lemma header_get_Nil [simp]: "header_get [] k = []"
  by (simp add: header_get_def header_values_def)

lemma header_values_set [simp]:
  "header_values (header_set k v h) k' = (if canonical_key k' = canonical_key k then [v] else header_values h k')"
  by (simp add: header_values_def header_set_def)

lemma header_values_del [simp]:
  "header_values (header_del k h) k' = (if canonical_key k' = canonical_key k then [] else header_values h k')"
  by (simp add: header_values_def header_del_def)

lemma header_get_del [simp]:
  "header_get (header_del k h) k' = (if canonical_key k' = canonical_key k then '''' else header_get h k')"
  by (simp add: header_get_def)

lemma header_get_set [simp]:
  "header_get (header_set k v h) k' = (if canonical_key k' = canonical_key k then v else header_get h k')"
  by (simp add: header_get_def)

lemma header_values_add [simp]:
  "header_values (header_add k v h) k' =
     (if canonical_key k' = canonical_key k then header_values h k @ [v] else header_values h k')"
  by (simp add: header_values_def header_add_def)

section \<open>A reverse proxy's outbound request\<close>

text \<open>
  What \<^verbatim>\<open>httputil.ReverseProxy\<close> does to the headers of the outbound clone before
  \<^verbatim>\<open>Rewrite\<close> sees it: the hop-by-hop headers go (those the \<^verbatim>\<open>Connection\<close> header
  names and the fixed list), a trailer announcement and a protocol upgrade are put back, and the
  forwarding headers are deleted.
\<close>

definition hopHeaders :: "string list" where
  "hopHeaders = [''Connection'', ''Proxy-Connection'', ''Keep-Alive'', ''Proxy-Authenticate'',
     ''Proxy-Authorization'', ''Te'', ''Trailer'', ''Transfer-Encoding'', ''Upgrade'']"

definition forwardedHeaders :: "string list" where
  "forwardedHeaders = [''Forwarded'', ''X-Forwarded-For'', ''X-Forwarded-Host'', ''X-Forwarded-Proto'']"

definition header_dels :: "string list \<Rightarrow> header \<Rightarrow> header" where
  "header_dels ks h = foldl (\<lambda>h k. header_del k h) h ks"

definition connection_names :: "header \<Rightarrow> string list" where
  "connection_names h =
     filter (\<lambda>s. s \<noteq> '''') (map trim_space (concat (map (split_on CHR '','') (header_values h ''Connection''))))"

definition upgrade_type :: "header \<Rightarrow> string" where
  "upgrade_type h =
     (if list_ex (\<lambda>s. to_lower s = ''upgrade'') (connection_names h) then header_get h ''Upgrade'' else '''')"

definition outbound_header :: "header \<Rightarrow> header" where
  "outbound_header h =
     (let h1 = header_dels hopHeaders (header_dels (connection_names h) h);
          h2 = (if list_ex (\<lambda>v. list_ex (\<lambda>s. trim_space s = ''trailers'') (split_on CHR '','' v)) (header_values h ''Te'')
                then header_set ''Te'' ''trailers'' h1 else h1);
          h3 = (if upgrade_type h \<noteq> '''' then header_set ''Upgrade'' (upgrade_type h)
                  (header_set ''Connection'' ''Upgrade'' h2) else h2)
      in header_dels forwardedHeaders h3)"

lemma header_values_dels:
  "header_values (header_dels ks h) k =
     (if canonical_key k \<in> set (map canonical_key ks) then [] else header_values h k)"
  by (induction ks arbitrary: h) (auto simp: header_dels_def)

lemma forwarded_canonical: "k \<in> set forwardedHeaders \<Longrightarrow> canonical_key k = k"
proof -
  have "list_all (\<lambda>k. canonical_key k = k) forwardedHeaders" by code_simp
  then show "k \<in> set forwardedHeaders \<Longrightarrow> canonical_key k = k" by (simp add: list_all_iff)
qed

lemma outbound_drops_forwarded: "k \<in> set forwardedHeaders \<Longrightarrow> header_values (outbound_header h) k = []"
  by (auto simp: outbound_header_def Let_def header_values_dels)

lemma header_values_put [simp]: "header_values (header_put k vs h) k' = (if canonical_key k' = k then vs else header_values h k')"
  by (simp add: header_values_def header_put_def)

end
