(* ===== verification/Registry.thy ===== *)
theory Registry
  imports Session Http
begin

unbundle bit_operations_syntax

text \<open>
  The agent's steal registry: \<^verbatim>\<open>internal/agent/registry.go\<close>, \<^verbatim>\<open>steal.go\<close>,
  the configuration of \<^verbatim>\<open>config.go\<close> and the per-connection handler of
  \<^verbatim>\<open>agent.go\<close> (\<^verbatim>\<open>Hello\<close>, \<^verbatim>\<open>Closed\<close>). The registry map is the
  association list \<open>ag_sessions\<close>; an \<^verbatim>\<open>Opener\<close> is the number of the connection
  it opens streams on. Several connections are the step relation \<open>agent_step\<close> at the end.
\<close>

section \<open>Configuration\<close>

record config =
  cfg_Env :: string
  cfg_TaskARN :: string
  cfg_Control :: string
  cfg_AppContainer :: string
  cfg_MetadataURL :: string
  cfg_Proxy :: string
  cfg_AppAddr :: string

definition defaultAppContainer :: string where "defaultAppContainer = ''app''"
definition defaultAppAddr :: string where "defaultAppAddr = ''127.0.0.1:8081''"

text \<open>\<^verbatim>\<open>net.JoinHostPort\<close> for a host without a colon.\<close>

definition join_host_port :: "string \<Rightarrow> nat \<Rightarrow> string" where
  "join_host_port h p = h @ '':'' @ itoa p"

definition defaultControl :: string where
  "defaultControl = join_host_port ''127.0.0.1'' DefaultControlPort"

definition defaultProxy :: string where
  "defaultProxy = join_host_port ''0.0.0.0'' DefaultProxyPort"

definition withDefaults :: "config \<Rightarrow> config" where
  "withDefaults c =
     c\<lparr>cfg_Control := (if cfg_Control c = '''' then defaultControl else cfg_Control c),
       cfg_AppContainer := (if cfg_AppContainer c = '''' then defaultAppContainer else cfg_AppContainer c),
       cfg_Proxy := (if cfg_Proxy c = '''' then defaultProxy else cfg_Proxy c),
       cfg_AppAddr := (if cfg_AppAddr c = '''' then defaultAppAddr else cfg_AppAddr c)\<rparr>"

datatype config_error = EnvNotSet \<comment> \<open>\<^verbatim>\<open>TETHERD_ENV is not set\<close>\<close>

definition ConfigFromEnv :: "(string \<Rightarrow> string) \<Rightarrow> config_error + config" where
  "ConfigFromEnv getenv =
     (let cfg = \<lparr>cfg_Env = getenv ''TETHERD_ENV'',
                 cfg_TaskARN = getenv ''TETHERD_TASK_ARN'',
                 cfg_Control = getenv ''TETHERD_CONTROL'',
                 cfg_AppContainer = getenv ''TETHERD_APP_CONTAINER'',
                 cfg_MetadataURL = getenv ''ECS_CONTAINER_METADATA_URI_V4'',
                 cfg_Proxy = getenv ''TETHERD_PROXY'',
                 cfg_AppAddr = getenv ''TETHERD_APP_ADDR''\<rparr>
      in if cfg_Env cfg = '''' then Inl EnvNotSet else Inr (withDefaults cfg))"

section \<open>Sessions and the registry\<close>

record session =
  s_User :: string
  s_From :: string
  s_Since :: time
  s_Incoming :: incoming
  s_token :: string
  s_open :: "nat option" \<comment> \<open>\<^verbatim>\<open>nil\<close>, or the connection the Opener opens streams on\<close>

record agent =
  ag_cfg :: config
  ag_sessions :: "(string, session) gomap"

text \<open>\<^verbatim>\<open>agent.New\<close>, without the environment reader, which is an argument of \<open>handler_Hello\<close>.\<close>

definition New :: "config \<Rightarrow> agent" where
  "New cfg = \<lparr>ag_cfg = withDefaults cfg, ag_sessions = []\<rparr>"

definition session_view :: "session \<Rightarrow> session_info" where
  "session_view s = \<lparr>si_User = s_User s, si_From = s_From s, si_Since = s_Since s\<rparr>"

definition Sessions :: "agent \<Rightarrow> session_info list" where
  "Sessions a = sort_key si_User (map session_view (mvals (ag_sessions a)))"

definition sessionInfos :: "agent \<Rightarrow> string \<Rightarrow> session_info list" where
  "sessionInfos a user = filter (\<lambda>s. si_User s \<noteq> user) (Sessions a)"

definition sessionUsers :: "session_info list \<Rightarrow> string list" where
  "sessionUsers infos = map si_User infos"

definition stealSession :: "hello \<Rightarrow> bool" where
  "stealSession h = inc_Enabled (h_Incoming h)"

datatype gap = NoGap | NoToken | NoHeader | NoTokenHeader

definition incomingGap :: "incoming \<Rightarrow> string \<Rightarrow> gap" where
  "incomingGap i token =
     (if token = '''' then NoToken
      else if inc_Header i = '''' then NoHeader
      else if inc_TokenHeader i = '''' then NoTokenHeader
      else NoGap)"

text \<open>
  \<^verbatim>\<open>register\<close>; the third component is the warning it logs for an attach that can never be
  matched.
\<close>

definition register :: "agent \<Rightarrow> hello \<Rightarrow> string \<Rightarrow> nat option \<Rightarrow> time \<Rightarrow> agent \<times> perror option \<times> gap" where
  "register a h from op now =
     (if \<not> stealSession h then (a, None, NoGap)
      else case mget (ag_sessions a) (h_User h) of
        Some s \<Rightarrow>
          (a, Some \<lparr>e_Code = CodeDuplicateUser, e_Message = ''another session for user is already attached'',
                    e_From = s_From s, e_Since = s_Since s\<rparr>, NoGap)
      | None \<Rightarrow>
          (a\<lparr>ag_sessions := mput (h_User h)
               \<lparr>s_User = h_User h, s_From = from, s_Since = now, s_Incoming = h_Incoming h,
                s_token = h_Token h, s_open = op\<rparr> (ag_sessions a)\<rparr>,
           None,
           if inc_Enabled (h_Incoming h) then incomingGap (h_Incoming h) (h_Token h) else NoGap))"

definition unregister :: "agent \<Rightarrow> string \<Rightarrow> agent" where
  "unregister a user = a\<lparr>ag_sessions := mdel user (ag_sessions a)\<rparr>"

section \<open>Matching a request\<close>

text \<open>
  \<^verbatim>\<open>crypto/subtle.ConstantTimeCompare\<close>: 0 for different lengths, otherwise whether the
  disjunction of all byte differences is zero.
\<close>

definition constant_time_compare :: "string \<Rightarrow> string \<Rightarrow> nat" where
  "constant_time_compare x y =
     (if length x \<noteq> length y then 0
      else if foldl (\<lambda>v (a, b). v OR (of_char a XOR of_char b :: nat)) 0 (zip x y) = 0 then 1 else 0)"

definition tokenEqual :: "string \<Rightarrow> string \<Rightarrow> bool" where
  "tokenEqual got want = (constant_time_compare got want = 1)"

fun MatchSession :: "session list \<Rightarrow> (string \<Rightarrow> string) \<Rightarrow> session option" where
  "MatchSession [] header = None"
| "MatchSession (s # ss) header =
     (if \<not> inc_Enabled (s_Incoming s) \<or> length (s_token s) = 0 \<or> s_User s = '''' \<or> s_open s = None
      then MatchSession ss header
      else if header (inc_Header (s_Incoming s)) \<noteq> s_User s then MatchSession ss header
      else if tokenEqual (header (inc_TokenHeader (s_Incoming s))) (s_token s) then Some s
      else MatchSession ss header)"

definition Match :: "agent \<Rightarrow> (string \<Rightarrow> string) \<Rightarrow> session option" where
  "Match a header = MatchSession (mvals (ag_sessions a)) header"

definition MatchRequest :: "agent \<Rightarrow> request \<Rightarrow> session option" where
  "MatchRequest a r = Match a (header_get (rq_Header r))"

section \<open>The handler of one connection\<close>

record handler =
  hd_user :: string
  hd_readOnlyUser :: string

definition new_handler :: handler where
  "new_handler = \<lparr>hd_user = '''', hd_readOnlyUser = ''''\<rparr>"

text \<open>
  What the environment reader answers: no reader (outside ECS), an error, or the application's
  environment with the task ARN of the metadata endpoint.
\<close>

datatype env_read = NoReader | ReadError string | ReadOK "(string, string) gomap" string

definition handler_Hello ::
  "env_read \<Rightarrow> agent \<Rightarrow> handler \<Rightarrow> hello \<Rightarrow> string \<Rightarrow> nat option \<Rightarrow> time \<Rightarrow> agent \<times> handler \<times> (perror + welcome_msg)" where
  "handler_Hello env a hn hello remote op now =
     (if h_User hello = '''' then (a, hn, Inl (mk_error CodeBadHello ''hello.user is empty''))
      else case register a hello remote op now of
        (a', Some e, _) \<Rightarrow> (a', hn, Inl e)
      | (a', None, _) \<Rightarrow>
          let hn' = (if stealSession hello then hn\<lparr>hd_user := h_User hello\<rparr>
                     else hn\<lparr>hd_readOnlyUser := h_User hello\<rparr>);
              self = (if stealSession hello then h_User hello else '''');
              sessions = sessionInfos a' self;
              w = \<lparr>w_Version = Version, w_TaskARN = cfg_TaskARN (ag_cfg a'), w_Env = cfg_Env (ag_cfg a'),
                   w_AppEnv = [], w_EnvError = '''', w_Others = sessionUsers sessions, w_Sessions = sessions\<rparr>
          in (a', hn',
              Inr (case env of
                NoReader \<Rightarrow> w\<lparr>w_EnvError := ''no ECS metadata endpoint (agent is not running in ECS)''\<rparr>
              | ReadError e \<Rightarrow> w\<lparr>w_EnvError := e\<rparr>
              | ReadOK vars arn \<Rightarrow>
                  w\<lparr>w_AppEnv := vars, w_TaskARN := (if arn \<noteq> '''' then arn else w_TaskARN w)\<rparr>)))"

definition handler_Closed :: "agent \<Rightarrow> handler \<Rightarrow> agent" where
  "handler_Closed a hn = (if hd_user hn \<noteq> '''' then unregister a (hd_user hn) else a)"

section \<open>Connections attaching and detaching in any order\<close>

text \<open>
  The agent serves every control connection on its own goroutine. A connection \<open>c\<close> attaches when
  its hello is accepted, after which \<^verbatim>\<open>session.Serve\<close> has deferred \<^verbatim>\<open>Closed\<close>; a
  refused hello leaves no handler behind. \<open>as_used\<close> numbers the connections seen so far, so a
  number is never reused.
\<close>

record agents_state =
  as_agent :: agent
  as_live :: "nat \<Rightarrow> handler option"
  as_used :: "nat set"

definition agents_init :: "config \<Rightarrow> agents_state" where
  "agents_init cfg = \<lparr>as_agent = New cfg, as_live = (\<lambda>_. None), as_used = {}\<rparr>"

inductive agent_step :: "agents_state \<Rightarrow> agents_state \<Rightarrow> bool" where
  attach: "c \<notin> as_used st \<Longrightarrow>
    handler_Hello env (as_agent st) new_handler hello remote (Some c) now = (a', hn', Inr w) \<Longrightarrow>
    agent_step st \<lparr>as_agent = a', as_live = (as_live st)(c \<mapsto> hn'), as_used = insert c (as_used st)\<rparr>"
| refuse: "c \<notin> as_used st \<Longrightarrow>
    handler_Hello env (as_agent st) new_handler hello remote (Some c) now = (a', hn', Inl e) \<Longrightarrow>
    agent_step st \<lparr>as_agent = a', as_live = as_live st, as_used = insert c (as_used st)\<rparr>"
| detach: "as_live st c = Some hn \<Longrightarrow>
    agent_step st \<lparr>as_agent = handler_Closed (as_agent st) hn, as_live = (as_live st)(c := None),
                   as_used = as_used st\<rparr>"

inductive agent_reachable :: "config \<Rightarrow> agents_state \<Rightarrow> bool" for cfg where
  start: "agent_reachable cfg (agents_init cfg)"
| step: "agent_reachable cfg st \<Longrightarrow> agent_step st st' \<Longrightarrow> agent_reachable cfg st'"

inductive_cases agent_stepE: "agent_step st st'"

text \<open>
  The registry and the live handlers agree: a registered session carries its own key as user and
  names the one live connection whose handler will unregister it, and every live handler that will
  unregister a user has that user's session registered under its own connection.
\<close>

definition registry_inv :: "agents_state \<Rightarrow> bool" where
  "registry_inv st \<longleftrightarrow>
     wf_map (ag_sessions (as_agent st)) \<and>
     (\<forall>c. as_live st c \<noteq> None \<longrightarrow> c \<in> as_used st) \<and>
     (\<forall>u s. mget (ag_sessions (as_agent st)) u = Some s \<longrightarrow>
        s_User s = u \<and> u \<noteq> '''' \<and> inc_Enabled (s_Incoming s) \<and>
        (\<exists>c hn. s_open s = Some c \<and> as_live st c = Some hn \<and> hd_user hn = u)) \<and>
     (\<forall>c hn. as_live st c = Some hn \<and> hd_user hn \<noteq> '''' \<longrightarrow>
        (\<exists>s. mget (ag_sessions (as_agent st)) (hd_user hn) = Some s \<and> s_open s = Some c))"

text \<open>What it means for a request to belong to a session.\<close>

definition claims :: "(string \<Rightarrow> string) \<Rightarrow> session \<Rightarrow> bool" where
  "claims header s \<longleftrightarrow>
     inc_Enabled (s_Incoming s) \<and> s_token s \<noteq> '''' \<and> s_User s \<noteq> '''' \<and> s_open s \<noteq> None \<and>
     header (inc_Header (s_Incoming s)) = s_User s \<and> header (inc_TokenHeader (s_Incoming s)) = s_token s"

text \<open>The handler as \<^verbatim>\<open>session.Handler\<close> sees it: its own fields beside the shared agent.\<close>

definition agent_hello ::
  "env_read \<Rightarrow> string \<Rightarrow> nat option \<Rightarrow> time \<Rightarrow> agent \<times> handler \<Rightarrow> hello \<Rightarrow> (agent \<times> handler) \<times> (perror + welcome_msg)" where
  "agent_hello env remote op now s h =
     (case handler_Hello env (fst s) (snd s) h remote op now of (a', hn', r) \<Rightarrow> ((a', hn'), r))"

definition agent_closed :: "agent \<times> handler \<Rightarrow> agent \<times> handler" where
  "agent_closed s = (handler_Closed (fst s) (snd s), snd s)"

section \<open>Tokens\<close>

lemma foldl_or_zero:
  "foldl (\<lambda>v (a, b). v OR (of_char a XOR of_char b :: nat)) acc xs = 0 \<longleftrightarrow>
     acc = 0 \<and> (\<forall>(a, b) \<in> set xs. a = b)"
proof (induction xs arbitrary: acc)
  case (Cons x xs)
  obtain a b where x: "x = (a, b)" by (cases x)
  have "(acc OR (of_char a XOR of_char b :: nat)) = 0 \<longleftrightarrow> acc = 0 \<and> of_char a = (of_char b :: nat)"
    by (auto simp: bit_eq_iff bit_or_iff bit_xor_iff)
  with Cons x show ?case by auto
qed simp

lemma tokenEqual_iff [simp]: "tokenEqual got want \<longleftrightarrow> got = want"
proof -
  have "length got = length want \<Longrightarrow> (\<forall>(a, b) \<in> set (zip got want). a = b) \<longleftrightarrow> got = want"
    by (auto simp: set_zip list_eq_iff_nth_eq)
  then show ?thesis
    by (auto simp: tokenEqual_def constant_time_compare_def foldl_or_zero)
qed

section \<open>Matching\<close>

lemma MatchSession_find: "MatchSession ss header = find (claims header) ss"
  by (induction ss) (auto simp: claims_def)

lemma MatchSession_Some: "MatchSession ss header = Some s \<Longrightarrow> s \<in> set ss \<and> claims header s"
  unfolding MatchSession_find by (metis find_Some_iff nth_mem)

lemma MatchSession_None: "MatchSession ss header = None \<longleftrightarrow> (\<forall>s \<in> set ss. \<not> claims header s)"
  by (auto simp: MatchSession_find find_None_iff)

lemma Match_Some:
  "wf_map (ag_sessions a) \<Longrightarrow> Match a header = Some s \<Longrightarrow>
     (\<exists>u. mget (ag_sessions a) u = Some s) \<and> claims header s"
  unfolding Match_def by (drule MatchSession_Some) (simp add: in_mvals)

section \<open>Registering\<close>

lemma register_readonly: "\<not> stealSession h \<Longrightarrow> register a h from op now = (a, None, NoGap)"
  by (simp add: register_def)

lemma register_error: "register a h from op now = (a', Some e, g) \<Longrightarrow> a' = a \<and> stealSession h \<and>
    e_Code e = CodeDuplicateUser \<and> (\<exists>s. mget (ag_sessions a) (h_User h) = Some s \<and> e_From e = s_From s)"
  by (auto simp: register_def split: if_splits option.splits)

lemma register_ok:
  assumes "register a h from op now = (a', None, g)" and "stealSession h"
  shows "mget (ag_sessions a) (h_User h) = None"
    and "ag_sessions a' = mput (h_User h)
          \<lparr>s_User = h_User h, s_From = from, s_Since = now, s_Incoming = h_Incoming h,
           s_token = h_Token h, s_open = op\<rparr> (ag_sessions a)"
    and "ag_cfg a' = ag_cfg a"
  using assms by (auto simp: register_def split: option.splits)

lemma handler_Hello_Inl:
  "handler_Hello env a hn hello remote op now = (a', hn', Inl e) \<Longrightarrow> a' = a \<and> hn' = hn"
  by (auto simp: handler_Hello_def Let_def dest: register_error split: if_splits prod.splits option.splits)

lemma handler_Hello_Inr:
  assumes "handler_Hello env a hn hello remote op now = (a', hn', Inr w)"
  obtains g where "h_User hello \<noteq> ''''" and "register a hello remote op now = (a', None, g)"
    and "hn' = (if stealSession hello then hn\<lparr>hd_user := h_User hello\<rparr> else hn\<lparr>hd_readOnlyUser := h_User hello\<rparr>)"
    and "w_Sessions w = sessionInfos a' (if stealSession hello then h_User hello else '''')"
    and "w_Others w = sessionUsers (w_Sessions w)"
  using assms
  by (auto simp: handler_Hello_def Let_def split: if_splits prod.splits option.splits env_read.splits)

section \<open>The registry invariant\<close>

lemma registry_inv_init: "registry_inv (agents_init cfg)"
  by (simp add: registry_inv_def agents_init_def New_def)

lemma registry_inv_wf: "registry_inv st \<Longrightarrow> wf_map (ag_sessions (as_agent st))"
  by (simp add: registry_inv_def)

lemma registry_inv_used: "registry_inv st \<Longrightarrow> as_live st c = Some hn \<Longrightarrow> c \<in> as_used st"
  by (auto simp: registry_inv_def)

lemma registry_inv_session:
  assumes "registry_inv st" and "mget (ag_sessions (as_agent st)) u = Some s"
  shows "s_User s = u \<and> u \<noteq> '''' \<and> inc_Enabled (s_Incoming s) \<and>
         (\<exists>c hn. s_open s = Some c \<and> as_live st c = Some hn \<and> hd_user hn = u)"
  using assms unfolding registry_inv_def by blast

lemma registry_inv_live:
  assumes "registry_inv st" and "as_live st c = Some hn" and "hd_user hn \<noteq> ''''"
  shows "\<exists>s. mget (ag_sessions (as_agent st)) (hd_user hn) = Some s \<and> s_open s = Some c"
  using assms unfolding registry_inv_def by blast

lemma registry_invI:
  assumes "wf_map (ag_sessions (as_agent st))"
    and "\<And>c hn. as_live st c = Some hn \<Longrightarrow> c \<in> as_used st"
    and "\<And>u s. mget (ag_sessions (as_agent st)) u = Some s \<Longrightarrow>
           s_User s = u \<and> u \<noteq> '''' \<and> inc_Enabled (s_Incoming s) \<and>
           (\<exists>c hn. s_open s = Some c \<and> as_live st c = Some hn \<and> hd_user hn = u)"
    and "\<And>c hn. as_live st c = Some hn \<Longrightarrow> hd_user hn \<noteq> '''' \<Longrightarrow>
           \<exists>s. mget (ag_sessions (as_agent st)) (hd_user hn) = Some s \<and> s_open s = Some c"
  shows "registry_inv st"
  using assms unfolding registry_inv_def by blast

lemma registry_inv_attach:
  assumes inv: "registry_inv st" and c: "c \<notin> as_used st"
    and h: "handler_Hello env (as_agent st) new_handler hello remote (Some c) now = (a', hn', Inr w)"
  shows "registry_inv \<lparr>as_agent = a', as_live = (as_live st)(c \<mapsto> hn'), as_used = insert c (as_used st)\<rparr>"
proof -
  from h obtain g where u: "h_User hello \<noteq> ''''"
    and r: "register (as_agent st) hello remote (Some c) now = (a', None, g)"
    and hn': "hn' = (if stealSession hello then new_handler\<lparr>hd_user := h_User hello\<rparr>
                     else new_handler\<lparr>hd_readOnlyUser := h_User hello\<rparr>)"
    by (rule handler_Hello_Inr)
  have old: "d \<noteq> c" if "as_live st d = Some hn" for d hn
    using registry_inv_used[OF inv that] c by blast
  have sess: "mget (ag_sessions a') v = (if stealSession hello \<and> v = h_User hello
      then Some \<lparr>s_User = h_User hello, s_From = remote, s_Since = now, s_Incoming = h_Incoming hello,
                 s_token = h_Token hello, s_open = Some c\<rparr>
      else mget (ag_sessions (as_agent st)) v)" for v
    using r register_ok(2)[OF r] by (cases "stealSession hello") (auto simp: register_readonly)
  have fresh: "stealSession hello \<Longrightarrow> mget (ag_sessions (as_agent st)) (h_User hello) = None"
    by (rule register_ok(1)[OF r])
  show ?thesis
  proof (rule registry_invI, goal_cases)
    case 1
    show ?case
      using r register_ok(2)[OF r] registry_inv_wf[OF inv]
      by (cases "stealSession hello") (auto simp: register_readonly)
  next
    case (2 d hn) then show ?case using registry_inv_used[OF inv] by (auto split: if_splits)
  next
    case (3 v s)
    show ?case
    proof (cases "stealSession hello \<and> v = h_User hello")
      case True
      with 3 u show ?thesis by (auto simp: sess hn' stealSession_def)
    next
      case False
      with 3 have "mget (ag_sessions (as_agent st)) v = Some s" by (simp add: sess)
      from registry_inv_session[OF inv this] old show ?thesis by auto
    qed
  next
    case (4 d hn)
    show ?case
    proof (cases "d = c")
      case True
      with 4 show ?thesis by (auto simp: sess hn' new_handler_def split: if_splits)
    next
      case False
      with 4 have "as_live st d = Some hn" by simp
      from registry_inv_live[OF inv this 4(2)] fresh show ?thesis by (auto simp: sess)
    qed
  qed
qed

lemma registry_inv_detach:
  assumes inv: "registry_inv st" and c: "as_live st c = Some hn"
  shows "registry_inv \<lparr>as_agent = handler_Closed (as_agent st) hn, as_live = (as_live st)(c := None),
                       as_used = as_used st\<rparr>"
proof -
  have sess: "mget (ag_sessions (handler_Closed (as_agent st) hn)) v =
      (if hd_user hn \<noteq> '''' \<and> v = hd_user hn then None else mget (ag_sessions (as_agent st)) v)" for v
    by (simp add: handler_Closed_def unregister_def)
  show ?thesis
  proof (rule registry_invI, goal_cases)
    case 1
    show ?case using registry_inv_wf[OF inv] by (simp add: handler_Closed_def unregister_def)
  next
    case (2 d hn2) then show ?case using registry_inv_used[OF inv] by (auto split: if_splits)
  next
    case (3 v s)
    then have "mget (ag_sessions (as_agent st)) v = Some s" and "hd_user hn = '''' \<or> v \<noteq> hd_user hn"
      by (auto simp: sess split: if_splits)
    with registry_inv_session[OF inv this(1)] c show ?case by fastforce
  next
    case (4 d hn2)
    then have d: "d \<noteq> c" "as_live st d = Some hn2" by (auto split: if_splits)
    from registry_inv_live[OF inv d(2) 4(2)] obtain s
      where s: "mget (ag_sessions (as_agent st)) (hd_user hn2) = Some s" "s_open s = Some d" by blast
    have "hd_user hn2 \<noteq> hd_user hn"
      using registry_inv_live[OF inv c] s d 4(2) by fastforce
    with s show ?case by (simp add: sess)
  qed
qed

lemma agent_step_inv: "agent_step st st' \<Longrightarrow> registry_inv st \<Longrightarrow> registry_inv st'"
proof (induction rule: agent_step.induct)
  case attach then show ?case by (blast intro: registry_inv_attach)
next
  case refuse then show ?case by (auto simp: registry_inv_def dest!: handler_Hello_Inl)
next
  case detach then show ?case by (blast intro: registry_inv_detach)
qed

lemma agent_reachable_inv: "agent_reachable cfg st \<Longrightarrow> registry_inv st"
  by (induction rule: agent_reachable.induct) (auto intro: registry_inv_init agent_step_inv)

section \<open>The agent implements the handler contract\<close>

lemma handler_Closed_undoes:
  assumes "handler_Hello env a new_handler hello remote op now = (a', hn', Inr w)"
  shows "handler_Closed a' hn' = a"
proof -
  from assms obtain g where u: "h_User hello \<noteq> ''''" and r: "register a hello remote op now = (a', None, g)"
    and hn': "hn' = (if stealSession hello then new_handler\<lparr>hd_user := h_User hello\<rparr>
                     else new_handler\<lparr>hd_readOnlyUser := h_User hello\<rparr>)"
    by (rule handler_Hello_Inr)
  show ?thesis
  proof (cases "stealSession hello")
    case True
    then show ?thesis
      using u register_ok[OF r True] by (simp add: hn' handler_Closed_def unregister_def mdel_mput_fresh)
  next
    case False
    then show ?thesis using r by (simp add: hn' register_readonly handler_Closed_def new_handler_def)
  qed
qed

interpretation agent_handler: session_handler "agent_hello env remote op now" agent_closed fst "\<lambda>s. snd s = new_handler"
proof unfold_locales
  fix s h s' e
  assume "agent_hello env remote op now s h = (s', Inl e)"
  then show "s' = s" by (cases s) (auto simp: agent_hello_def dest: handler_Hello_Inl split: prod.splits)
next
  fix s h s' w
  assume "snd s = new_handler" and "agent_hello env remote op now s h = (s', Inr w)"
  then show "fst (agent_closed s') = fst s"
    by (auto simp: agent_hello_def agent_closed_def dest: handler_Closed_undoes split: prod.splits)
qed

section \<open>Uniqueness of a match\<close>

text \<open>
  When the attached sessions identify their owner by the same header, a request is claimed by at
  most one of them, so the order in which \<^verbatim>\<open>Match\<close> visits the map does not matter.
\<close>

lemma claims_unique:
  assumes "registry_inv st"
    and "\<And>u s. mget (ag_sessions (as_agent st)) u = Some s \<Longrightarrow> inc_Header (s_Incoming s) = idh"
    and "mget (ag_sessions (as_agent st)) u1 = Some s1" and "claims header s1"
    and "mget (ag_sessions (as_agent st)) u2 = Some s2" and "claims header s2"
  shows "s1 = s2"
proof -
  have "s_User s1 = u1" "s_User s2 = u2"
    using registry_inv_session[OF assms(1)] assms(3,5) by blast+
  moreover have "s_User s1 = s_User s2"
    using assms(2)[OF assms(3)] assms(2)[OF assms(5)] assms(4,6) by (simp add: claims_def)
  ultimately show ?thesis using assms(3,5) by simp
qed

lemma find_unique:
  assumes "x \<in> set xs" and "P x" and "\<And>y. y \<in> set xs \<Longrightarrow> P y \<Longrightarrow> y = x"
  shows "find P xs = Some x"
proof (cases "find P xs")
  case None
  with assms(1,2) show ?thesis by (auto simp: find_None_iff)
next
  case (Some y)
  then have "y \<in> set xs" "P y" by (auto simp: find_Some_first)
  with assms(3) Some show ?thesis by simp
qed

section \<open>Properties\<close>

text \<open>C2: A request is handed to a session only if that session is registered, accepts incoming requests,
  can be reached, and the request carries both its user name and its non-empty token in the headers the session
  named; and when no session is found, no registered session satisfies this.\<close>

theorem match_sound_complete:
  assumes "wf_map (ag_sessions a)"
  shows "case MatchRequest a r of
      Some s \<Rightarrow> (\<exists>u. mget (ag_sessions a) u = Some s) \<and> claims (header_get (rq_Header r)) s
    | None \<Rightarrow> \<forall>u s. mget (ag_sessions a) u = Some s \<longrightarrow> \<not> claims (header_get (rq_Header r)) s"
proof (cases "MatchRequest a r")
  case None
  then have "\<forall>s \<in> set (mvals (ag_sessions a)). \<not> claims (header_get (rq_Header r)) s"
    by (simp add: MatchRequest_def Match_def MatchSession_None)
  then show ?thesis using None assms by (auto simp: in_mvals)
next
  case (Some s)
  then show ?thesis using Match_Some[OF assms] by (simp add: MatchRequest_def)
qed

definition example_session :: session where
  "example_session = \<lparr>s_User = ''amy'', s_From = ''10.0.0.1:4000'', s_Since = 7,
     s_Incoming = \<lparr>inc_Enabled = True, inc_Header = ''X-Tetherd-User'', inc_TokenHeader = ''X-Tetherd-Token''\<rparr>,
     s_token = ''s3cret'', s_open = Some 1\<rparr>"

definition example_agent :: agent where
  "example_agent = (New \<lparr>cfg_Env = ''dev'', cfg_TaskARN = '''', cfg_Control = '''', cfg_AppContainer = '''',
      cfg_MetadataURL = '''', cfg_Proxy = '''', cfg_AppAddr = ''''\<rparr>)\<lparr>ag_sessions := [(''amy'', example_session)]\<rparr>"

definition example_request :: "string \<Rightarrow> request" where
  "example_request token = \<lparr>rq_Method = ''GET'', rq_Path = ''/'', rq_Host = ''h'',
     rq_Header = [(''X-Tetherd-User'', [''amy'']), (''X-Tetherd-Token'', [token])],
     rq_Body = None, rq_ContentLength = 0, rq_TransferEncoding = []\<rparr>"

lemma example_wf: "wf_map (ag_sessions example_agent)"
  by (simp add: example_agent_def wf_map_def mkeys_def)

lemma example_keys: "canonical_key ''X-Tetherd-User'' = ''X-Tetherd-User''"
  "canonical_key ''X-Tetherd-Token'' = ''X-Tetherd-Token''"
  by code_simp+

lemmas example_match_defs = MatchRequest_def Match_def mvals_def example_agent_def example_session_def
  example_request_def header_get_def header_values_def example_keys

theorem match_sound_complete_witness:
  "MatchRequest example_agent (example_request ''s3cret'') = Some example_session \<and>
   claims (header_get (rq_Header (example_request ''s3cret''))) example_session \<and>
   MatchRequest example_agent (example_request ''guess'') = None \<and>
   \<not> claims (header_get (rq_Header (example_request ''guess''))) example_session"
proof -
  have 1: "MatchRequest example_agent (example_request ''s3cret'') = Some example_session"
    by (simp add: example_match_defs)
  have 2: "MatchRequest example_agent (example_request ''guess'') = None"
    by (simp add: example_match_defs)
  have m: "mget (ag_sessions example_agent) ''amy'' = Some example_session"
    by (simp add: example_agent_def)
  from match_sound_complete[OF example_wf, of "example_request ''s3cret''"] 1
    match_sound_complete[OF example_wf, of "example_request ''guess''"] 2 m
  show ?thesis by auto
qed

text \<open>C9: However attaches, refusals and detaches of any number of connections interleave, every registered
  session is stored under its own user name, accepts incoming requests, and opens streams on a connection
  that is alive and whose handler will unregister it; and a handler that will unregister a user owns that
  user's registration, so no detach can remove another connection's session.\<close>

theorem registry_owned_by_live_connections:
  assumes "agent_reachable cfg st"
  shows "(\<forall>u s. mget (ag_sessions (as_agent st)) u = Some s \<longrightarrow>
            s_User s = u \<and> u \<noteq> '''' \<and> inc_Enabled (s_Incoming s) \<and>
            (\<exists>c hn. s_open s = Some c \<and> as_live st c = Some hn \<and> hd_user hn = u)) \<and>
         (\<forall>c hn. as_live st c = Some hn \<and> hd_user hn \<noteq> '''' \<longrightarrow>
            (\<exists>s. mget (ag_sessions (as_agent st)) (hd_user hn) = Some s \<and> s_open s = Some c))"
  using agent_reachable_inv[OF assms] by (simp add: registry_inv_def)

definition example_hello :: hello where
  "example_hello = \<lparr>h_Version = ''1'', h_User = ''amy'', h_Token = ''s3cret'',
     h_Incoming = \<lparr>inc_Enabled = True, inc_Header = ''X-Tetherd-User'', inc_TokenHeader = ''X-Tetherd-Token''\<rparr>\<rparr>"

definition example_cfg :: config where
  "example_cfg = \<lparr>cfg_Env = ''dev'', cfg_TaskARN = '''', cfg_Control = '''', cfg_AppContainer = '''',
      cfg_MetadataURL = '''', cfg_Proxy = '''', cfg_AppAddr = ''''\<rparr>"

definition example_state :: agents_state where
  "example_state = \<lparr>as_agent = fst (handler_Hello NoReader (New example_cfg) new_handler example_hello
       ''10.0.0.1:4000'' (Some 1) 7),
     as_live = (\<lambda>_. None)(1 \<mapsto> new_handler\<lparr>hd_user := ''amy''\<rparr>), as_used = {1}\<rparr>"

lemma example_reachable: "agent_reachable example_cfg example_state"
proof -
  obtain a' hn' r where h: "handler_Hello NoReader (New example_cfg) new_handler example_hello ''10.0.0.1:4000'' (Some 1) 7
      = (a', hn', r)" by (metis prod_cases3)
  have r: "\<not> isl r" and hn: "hn' = new_handler\<lparr>hd_user := ''amy''\<rparr>" and a: "a' = as_agent example_state"
    using h by (auto simp: handler_Hello_def example_hello_def New_def register_def stealSession_def Let_def
        example_state_def)
  from r obtain w where "r = Inr w" by (cases r) auto
  with h have "agent_step (agents_init example_cfg) \<lparr>as_agent = a', as_live = (as_live (agents_init example_cfg))(1 \<mapsto> hn'),
      as_used = insert 1 (as_used (agents_init example_cfg))\<rparr>"
    by (intro agent_step.attach) (simp_all add: agents_init_def)
  moreover have "\<lparr>as_agent = a', as_live = (as_live (agents_init example_cfg))(1 \<mapsto> hn'),
      as_used = insert 1 (as_used (agents_init example_cfg))\<rparr> = example_state"
    using a hn by (simp add: example_state_def agents_init_def)
  ultimately show ?thesis by (metis agent_reachable.start agent_reachable.step)
qed

lemma example_registered:
  "mget (ag_sessions (as_agent example_state)) ''amy'' = Some example_session"
  by (simp add: example_state_def handler_Hello_def example_hello_def New_def register_def stealSession_def
      Let_def example_session_def)

theorem registry_owned_by_live_connections_witness:
  "\<exists>c hn. s_open example_session = Some c \<and> as_live example_state c = Some hn \<and> hd_user hn = ''amy''"
  using registry_owned_by_live_connections[OF example_reachable] example_registered by blast

text \<open>In every reachable state in which the attached sessions use the same identity header, the session a
  request matches does not depend on the order in which the registry map is ranged over.\<close>

lemma match_order_independent:
  assumes "agent_reachable cfg st"
    and "\<And>u s. mget (ag_sessions (as_agent st)) u = Some s \<Longrightarrow> inc_Header (s_Incoming s) = idh"
    and "mset ss = mset (mvals (ag_sessions (as_agent st)))"
  shows "MatchSession ss header = Match (as_agent st) header"
proof (cases "Match (as_agent st) header")
  case None
  then have "\<forall>s \<in> set ss. \<not> claims header s"
    using mset_eq_setD[OF assms(3)] by (simp add: Match_def MatchSession_None)
  then show ?thesis using None MatchSession_None by metis
next
  case (Some s)
  note inv = agent_reachable_inv[OF assms(1)]
  note wf = registry_inv_wf[OF inv]
  from Match_Some[OF wf Some] obtain u where u: "mget (ag_sessions (as_agent st)) u = Some s" "claims header s"
    by blast
  have "MatchSession ss header = Some s"
    unfolding MatchSession_find
  proof (rule find_unique)
    show "s \<in> set ss" using u mset_eq_setD[OF assms(3)] in_mvals[OF wf] by blast
    fix y assume "y \<in> set ss" "claims header y"
    then obtain u2 where "mget (ag_sessions (as_agent st)) u2 = Some y"
      using mset_eq_setD[OF assms(3)] in_mvals[OF wf] by auto
    then show "y = s" using claims_unique[OF inv, of idh u2 y header u s] assms(2) \<open>claims header y\<close> u by blast
  qed (rule u(2))
  with Some show ?thesis by simp
qed

text \<open>A session of the agent, however it ends (refused hello, lost welcome, silence, bye, transport
  failure), leaves the registry exactly as it found it, provided no other connection changed it meanwhile.\<close>

lemma agent_session_leaves_no_trace:
  "fst (sv_state (Serve (agent_hello env remote op now) agent_closed id mux_ok accept_ok wok ins (a, new_handler))) = a"
  using agent_handler.Serve_restores[of "(a, new_handler)"] by simp

text \<open>A read-only attach (no incoming requests) is never recorded: its hello leaves the registry alone
  and is accepted whoever else is attached under that name, and its end unregisters nobody, not even the same
  developer's own stealing session, whatever the registry holds by then.\<close>

lemma readonly_never_touches_registry:
  assumes "agent_reachable cfg st" and "\<not> inc_Enabled (h_Incoming h)" and "h_User h \<noteq> ''''"
  shows "\<exists>hn' w. handler_Hello env (as_agent st) new_handler h remote op now = (as_agent st, hn', Inr w) \<and>
           w_Sessions w = Sessions (as_agent st) \<and> (\<forall>b. handler_Closed b hn' = b)"
proof -
  have "\<forall>s \<in> set (Sessions (as_agent st)). si_User s \<noteq> ''''"
    using registry_inv_session[OF agent_reachable_inv[OF assms(1)]]
      in_mvals[OF registry_inv_wf[OF agent_reachable_inv[OF assms(1)]]]
    by (auto simp: Sessions_def session_view_def)
  then have "sessionInfos (as_agent st) '''' = Sessions (as_agent st)"
    by (simp add: sessionInfos_def)
  then show ?thesis
    using assms
    by (cases env) (auto simp: handler_Hello_def register_def stealSession_def handler_Closed_def new_handler_def Let_def)
qed

text \<open>A stealing attach is refused as \<^verbatim>\<open>duplicate_user\<close>, with the address the holder attached
  from and without changing anything, exactly when its user is registered; otherwise it is accepted, its
  session is registered with the hello's rules and token, every other registration is kept, and the welcome
  lists precisely the other sessions, in the order of their user names.\<close>

lemma steal_attach_behaviour:
  assumes "inc_Enabled (h_Incoming h)" and "h_User h \<noteq> ''''"
  shows "case mget (ag_sessions a) (h_User h) of
      Some s \<Rightarrow> \<exists>e. handler_Hello env a hn h remote op now = (a, hn, Inl e) \<and>
                   e_Code e = CodeDuplicateUser \<and> e_From e = s_From s \<and> e_Since e = s_Since s
    | None \<Rightarrow> \<exists>a' w. handler_Hello env a hn h remote op now = (a', hn\<lparr>hd_user := h_User h\<rparr>, Inr w) \<and>
        ag_sessions a' = mput (h_User h) \<lparr>s_User = h_User h, s_From = remote, s_Since = now,
            s_Incoming = h_Incoming h, s_token = h_Token h, s_open = op\<rparr> (ag_sessions a) \<and>
        w_Others w = map si_User (w_Sessions w) \<and> sorted (w_Others w) \<and>
        mset (w_Sessions w) = filter_mset (\<lambda>s. si_User s \<noteq> h_User h) (mset (map session_view (mvals (ag_sessions a'))))"
proof (cases "mget (ag_sessions a) (h_User h)")
  case None
  then obtain a' hn' w where h: "handler_Hello env a hn h remote op now = (a', hn', Inr w)"
    using assms by (cases env) (auto simp: handler_Hello_def register_def stealSession_def Let_def)
  from h obtain g where r: "register a h remote op now = (a', None, g)"
    and rest: "hn' = hn\<lparr>hd_user := h_User h\<rparr>" "w_Sessions w = sessionInfos a' (h_User h)"
      "w_Others w = sessionUsers (w_Sessions w)"
    using assms(1) by (elim handler_Hello_Inr) (auto simp: stealSession_def)
  have "sorted (map si_User (Sessions a'))" by (simp add: Sessions_def)
  then have "sorted (w_Others w)"
    by (simp add: rest sessionUsers_def sessionInfos_def sorted_wrt_filter_key)
  then show ?thesis
    using None h register_ok(2)[OF r] assms(1)
    by (simp add: rest sessionUsers_def stealSession_def sessionInfos_def Sessions_def)
next
  case (Some s)
  then show ?thesis using assms by (simp add: handler_Hello_def register_def stealSession_def)
qed

end
