(* ===== verification/L7Proxy.thy ===== *)
theory L7Proxy
  imports Registry
begin

text \<open>
  The agent's L7 proxy: \<^verbatim>\<open>internal/agent/proxy.go\<close>. \<open>Handler\<close> decides per request
  between the application and a laptop; \<open>steal\<close> buffers the body, forwards the request over a
  fresh stream (\<open>RoundTrip\<close>) and replays it to the application only on a failure marked
  \<open>Unserved\<close>. The stream is a parameter: an \<open>exchange\<close> records how opening it went, what
  the write goroutine reported and what came back.
\<close>

section \<open>The exchange with a laptop\<close>

definition MaxReplayBody :: nat where "MaxReplayBody = 2 ^ 20"
definition maxInformationalResponses :: nat where "maxInformationalResponses = 8"
definition second :: int where "second = 1000000000"
definition DefaultStealTimeout :: int where "DefaultStealTimeout = 30 * second"
definition DefaultWriteAbortGrace :: int where "DefaultWriteAbortGrace = 2 * second"

text \<open>
  What the CLI put on the stream: nothing before the deadline or the close; a line that starts
  with a brace; or HTTP responses, as successive calls of \<^verbatim>\<open>http.ReadResponse\<close> see them.
\<close>

datatype reply =
    Silence string
  | JSONLine decoded
  | Responses "(string + response) list"

datatype open_result = OpenError string | OpenNil | Opened

record exchange =
  ex_open :: open_result
  ex_header :: "string option" \<comment> \<open>the error of writing the stream header, if any\<close>
  ex_reply :: reply
  ex_written :: "string option option" \<comment> \<open>the write goroutine's outcome, if it has finished by then\<close>

text \<open>
  The errors of a round trip. \<open>Unserved\<close> is the type \<^verbatim>\<open>unserved\<close>: the laptop cannot have
  acted on the request.
\<close>

datatype unserved_reason =
    NoOpener | OpenFailed string | NoStream | HeaderWrite string | NotAccepting | RefusedStream string string | NoListener

datatype served_error =
    Waiting string | ReadingRefusal string | UnexpectedLine string | WriteRequest string | ReadReply string
  | Switching | TooManyInformational nat

datatype steal_error = Unserved unserved_reason | Served served_error

definition readRefusal :: "reply \<Rightarrow> steal_error option" where
  "readRefusal r =
     (case r of
        Silence e \<Rightarrow> Some (Served (Waiting e))
      | Responses _ \<Rightarrow> None
      | JSONLine (Inl e) \<Rightarrow> Some (Served (ReadingRefusal e))
      | JSONLine (Inr l) \<Rightarrow>
          if line_type l \<noteq> TypeError then Some (Served (UnexpectedLine (line_type l)))
          else (let e = to_error l in
                if e_Code e = CodeNoIncoming then Some (Unserved NotAccepting)
                else Some (Unserved (RefusedStream (e_Code e)
                       (if e_Message e = '''' then ''the CLI did not say why'' else e_Message e)))))"

fun readFinalResponse :: "nat \<Rightarrow> (string + response) list \<Rightarrow> served_error + response" where
  "readFinalResponse seen [] = Inl (ReadReply ''unexpected EOF'')"
| "readFinalResponse seen (Inl e # rs) = Inl (ReadReply e)"
| "readFinalResponse seen (Inr resp # rs) =
     (if rs_Status resp < 100 \<or> 199 < rs_Status resp then Inr resp
      else if rs_Status resp = StatusSwitchingProtocols then Inl Switching
      else if maxInformationalResponses \<le> seen + 1 then Inl (TooManyInformational (seen + 1))
      else readFinalResponse (seen + 1) rs)"

record pendingWrite =
  pw_err :: "string option"
  pw_got :: bool

text \<open>\<^verbatim>\<open>wait\<close>: \<open>arrived\<close> is what the channel delivers within the grace, if anything.\<close>

definition wait :: "string option option \<Rightarrow> pendingWrite \<Rightarrow> (string option \<times> bool) \<times> pendingWrite" where
  "wait arrived p =
     (if pw_got p then ((pw_err p, True), p)
      else case arrived of
        Some e \<Rightarrow> ((e, True), p\<lparr>pw_err := e, pw_got := True\<rparr>)
      | None \<Rightarrow> ((None, False), p))"

definition RoundTrip :: "session \<Rightarrow> exchange \<Rightarrow> steal_error + response" where
  "RoundTrip s ex =
     (case s_open s of
        None \<Rightarrow> Inl (Unserved NoOpener)
      | Some _ \<Rightarrow>
        (case ex_open ex of
           OpenError e \<Rightarrow> Inl (Unserved (OpenFailed e))
         | OpenNil \<Rightarrow> Inl (Unserved NoStream)
         | Opened \<Rightarrow>
           (case ex_header ex of
              Some e \<Rightarrow> Inl (Unserved (HeaderWrite e))
            | None \<Rightarrow>
              (case readRefusal (ex_reply ex) of
                 Some err \<Rightarrow> Inl err
               | None \<Rightarrow>
                 (case readFinalResponse 0 (case ex_reply ex of Responses rs \<Rightarrow> rs | _ \<Rightarrow> []) of
                    Inl e \<Rightarrow>
                      (case fst (wait (ex_written ex) \<lparr>pw_err = None, pw_got = False\<rparr>) of
                         (Some werr, True) \<Rightarrow> Inl (Served (WriteRequest werr))
                       | _ \<Rightarrow> Inl (Served e))
                  | Inr resp \<Rightarrow>
                      if rs_Status resp = StatusBadGateway \<and> header_get (rs_Header resp) NoListenerHeader \<noteq> ''''
                      then Inl (Unserved NoListener)
                      else Inr (resp\<lparr>rs_Header := header_del NoListenerHeader (rs_Header resp)\<rparr>))))))"

section \<open>Routing one request\<close>

definition keepForwarded :: "header \<Rightarrow> header \<Rightarrow> header" where
  "keepForwarded inh outh =
     foldl (\<lambda>out name. let v = header_values inh name in
              if v \<noteq> [] then header_put name v out else out) outh forwardedHeaders"

text \<open>The outbound requests: to the application, and to a laptop.\<close>

definition app_outbound :: "request \<Rightarrow> request" where
  "app_outbound r = r\<lparr>rq_Header := keepForwarded (rq_Header r) (outbound_header (rq_Header r))\<rparr>"

definition steal_outbound :: "request \<Rightarrow> request" where
  "steal_outbound r =
     r\<lparr>rq_Header := header_del ''Expect'' (keepForwarded (rq_Header r) (outbound_header (rq_Header r)))\<rparr>"

text \<open>
  \<^verbatim>\<open>bufferBody\<close>: the bytes kept for a replay, whether the body did not fit, and the request
  with the body put back. A body that is longer than the limit is not read to its end.
\<close>

definition bufferBody :: "request \<Rightarrow> request \<times> (unit + (char list \<times> bool))" where
  "bufferBody r =
     (case rq_Body r of
        None \<Rightarrow> (r, Inr ([], False))
      | Some b \<Rightarrow>
          if MaxReplayBody < length (body_data b) then (r, Inr ([], True))
          else if body_err b then (r, Inl ())
          else (r\<lparr>rq_Body := Some \<lparr>body_data = body_data b, body_err = False\<rparr>,
                  rq_ContentLength := int (length (body_data b)), rq_TransferEncoding := []\<rparr>,
                Inr (body_data b, False)))"

definition bad_gateway :: "response" where
  "bad_gateway = \<lparr>rs_Status = StatusBadGateway, rs_Header = [], rs_Body = ''bad gateway''\<rparr>"

text \<open>
  What became of a request: the response, and the requests the application and the laptop's stream
  were handed, in the form they arrived there.
\<close>

record outcome =
  oc_resp :: response
  oc_app :: "request option"
  oc_laptop :: "request option"

text \<open>The request was put on the stream once the stream header had been written.\<close>

definition reached_stream :: "session \<Rightarrow> exchange \<Rightarrow> bool" where
  "reached_stream s ex \<longleftrightarrow> s_open s \<noteq> None \<and> ex_open ex = Opened \<and> ex_header ex = None"

definition serve_app :: "(request \<Rightarrow> response) \<Rightarrow> request \<Rightarrow> outcome" where
  "serve_app app r = \<lparr>oc_resp = app (app_outbound r), oc_app = Some (app_outbound r), oc_laptop = None\<rparr>"

definition steal :: "(request \<Rightarrow> response) \<Rightarrow> session \<Rightarrow> exchange \<Rightarrow> request \<Rightarrow> outcome" where
  "steal app s ex r =
     (case bufferBody r of
        (r', Inl _) \<Rightarrow> \<lparr>oc_resp = bad_gateway, oc_app = None, oc_laptop = None\<rparr>
      | (r', Inr (replay, tooBig)) \<Rightarrow>
          (let laptop = (if reached_stream s ex then Some (steal_outbound r') else None) in
           case RoundTrip s ex of
             Inr resp \<Rightarrow> \<lparr>oc_resp = resp, oc_app = None, oc_laptop = laptop\<rparr>
           | Inl (Served _) \<Rightarrow> \<lparr>oc_resp = bad_gateway, oc_app = None, oc_laptop = laptop\<rparr>
           | Inl (Unserved _) \<Rightarrow>
               if tooBig then \<lparr>oc_resp = bad_gateway, oc_app = None, oc_laptop = laptop\<rparr>
               else (serve_app app
                      (r'\<lparr>rq_Body := Some \<lparr>body_data = replay, body_err = False\<rparr>,
                          rq_ContentLength := int (length replay), rq_TransferEncoding := []\<rparr>))
                    \<lparr>oc_laptop := laptop\<rparr>))"

definition Handler :: "(request \<Rightarrow> response) \<Rightarrow> agent \<Rightarrow> exchange \<Rightarrow> request \<Rightarrow> outcome" where
  "Handler app a ex r =
     (if header_get (rq_Header r) ''Upgrade'' \<noteq> '''' then serve_app app r
      else case MatchRequest a r of
        None \<Rightarrow> serve_app app r
      | Some s \<Rightarrow> steal app s ex r)"

section \<open>Bounds\<close>

record Proxy =
  px_StealTimeout :: int
  px_WriteAbortGrace :: int

definition stealTimeout :: "Proxy \<Rightarrow> int" where
  "stealTimeout p = (if 0 < px_StealTimeout p then px_StealTimeout p else DefaultStealTimeout)"

definition writeAbortGrace :: "Proxy \<Rightarrow> int" where
  "writeAbortGrace p =
     (if 0 < px_WriteAbortGrace p then px_WriteAbortGrace p
      else if stealTimeout p < DefaultWriteAbortGrace then stealTimeout p
      else DefaultWriteAbortGrace)"

section \<open>Lemmas\<close>

lemma readFinalResponse_final:
  assumes "\<forall>r \<in> set infos. 100 \<le> rs_Status r \<and> rs_Status r \<le> 199 \<and> rs_Status r \<noteq> StatusSwitchingProtocols"
    and "seen < maxInformationalResponses"
  shows "readFinalResponse seen (map Inr infos @ rest) =
     (if seen + length infos < maxInformationalResponses then readFinalResponse (seen + length infos) rest
      else Inl (TooManyInformational maxInformationalResponses))"
  using assms
proof (induction infos arbitrary: seen)
  case (Cons r infos)
  then show ?case by (auto simp: maxInformationalResponses_def)
qed auto

text \<open>The forwarding headers leave the agent exactly as the load balancer wrote them.\<close>

lemma keepForwarded_fold:
  assumes "set names \<subseteq> set forwardedHeaders"
  shows "header_values (foldl (\<lambda>out name. let v = header_values inh name in
              if v \<noteq> [] then header_put name v out else out) outh names) k =
     (if canonical_key k \<in> set names \<and> header_values inh k \<noteq> [] then header_values inh k else header_values outh k)"
  using assms
proof (induction names arbitrary: outh)
  case (Cons name names)
  then have c: "canonical_key name = name" by (simp add: forwarded_canonical)
  have same: "canonical_key k = name \<Longrightarrow> header_values inh k = header_values inh name"
    using c by (simp add: header_values_def)
  show ?case using Cons same by (auto simp: Let_def)
qed simp

lemma keepForwarded_values:
  "header_values (keepForwarded inh outh) k =
     (if canonical_key k \<in> set forwardedHeaders \<and> header_values inh k \<noteq> [] then header_values inh k
      else header_values outh k)"
  unfolding keepForwarded_def by (rule keepForwarded_fold) simp

lemma bufferBody_replay:
  "bufferBody r = (r', Inr (replay, False)) \<Longrightarrow>
     length replay \<le> MaxReplayBody \<and> rq_Header r' = rq_Header r \<and> rq_Method r' = rq_Method r \<and>
     rq_Path r' = rq_Path r \<and> rq_Host r' = rq_Host r \<and>
     (case rq_Body r of None \<Rightarrow> replay = [] | Some b \<Rightarrow> replay = body_data b \<and> \<not> body_err b)"
  by (auto simp: bufferBody_def split: option.splits if_splits)

lemma steal_app_iff:
  "oc_app (steal app s ex r) \<noteq> None \<longleftrightarrow>
     (\<exists>r' replay why. bufferBody r = (r', Inr (replay, False)) \<and> RoundTrip s ex = Inl (Unserved why))"
  by (auto simp: steal_def serve_app_def Let_def split: prod.splits sum.splits steal_error.splits)

lemma RoundTrip_strips: "RoundTrip s ex = Inr resp \<Longrightarrow> header_get (rs_Header resp) NoListenerHeader = []"
  unfolding RoundTrip_def
  by (auto split: option.splits open_result.splits sum.splits prod.splits bool.splits if_splits)

lemma steal_response:
  "oc_app (steal app s ex r) = None \<Longrightarrow>
     oc_resp (steal app s ex r) = bad_gateway \<or> RoundTrip s ex = Inr (oc_resp (steal app s ex r))"
  by (auto simp: steal_def serve_app_def Let_def split: prod.splits sum.splits steal_error.splits)

text \<open>When a round trip is unserved.\<close>

lemma RoundTrip_unserved:
  assumes "RoundTrip s ex = Inl (Unserved why)" and "reached_stream s ex"
  shows "(\<exists>l. ex_reply ex = JSONLine (Inr l) \<and> line_type l = TypeError) \<or>
         (\<exists>rs resp. ex_reply ex = Responses rs \<and> readFinalResponse 0 rs = Inr resp \<and>
            rs_Status resp = StatusBadGateway \<and> header_get (rs_Header resp) NoListenerHeader \<noteq> '''')"
  using assms
  by (auto simp: RoundTrip_def reached_stream_def readRefusal_def Let_def
      split: option.splits open_result.splits reply.splits sum.splits prod.splits bool.splits if_splits)

section \<open>Properties\<close>

text \<open>C3: A matched request reaches the application exactly when the round trip failed before the laptop
  could have acted on it and the whole body was read and fits the replay buffer; the application then gets
  the same method, path, host and body bytes, with the length of that body.\<close>

theorem replay_iff_unserved:
  assumes "header_get (rq_Header r) ''Upgrade'' = ''''" and "MatchRequest a r = Some s"
  shows "(oc_app (Handler app a ex r) \<noteq> None \<longleftrightarrow>
            (\<exists>why. RoundTrip s ex = Inl (Unserved why)) \<and>
            (case rq_Body r of None \<Rightarrow> True
             | Some b \<Rightarrow> length (body_data b) \<le> MaxReplayBody \<and> \<not> body_err b)) \<and>
         (\<forall>q. oc_app (Handler app a ex r) = Some q \<longrightarrow>
            rq_Method q = rq_Method r \<and> rq_Path q = rq_Path r \<and> rq_Host q = rq_Host r \<and>
            (\<exists>b. rq_Body q = Some b \<and> \<not> body_err b \<and>
               body_data b = (case rq_Body r of None \<Rightarrow> [] | Some b0 \<Rightarrow> body_data b0) \<and>
               rq_ContentLength q = int (length (body_data b))))"
proof
  have H: "Handler app a ex r = steal app s ex r" using assms by (simp add: Handler_def)
  show "oc_app (Handler app a ex r) \<noteq> None \<longleftrightarrow>
            (\<exists>why. RoundTrip s ex = Inl (Unserved why)) \<and>
            (case rq_Body r of None \<Rightarrow> True | Some b \<Rightarrow> length (body_data b) \<le> MaxReplayBody \<and> \<not> body_err b)"
    unfolding H steal_app_iff by (auto simp: bufferBody_def split: option.splits)
  show "\<forall>q. oc_app (Handler app a ex r) = Some q \<longrightarrow>
            rq_Method q = rq_Method r \<and> rq_Path q = rq_Path r \<and> rq_Host q = rq_Host r \<and>
            (\<exists>b. rq_Body q = Some b \<and> \<not> body_err b \<and>
               body_data b = (case rq_Body r of None \<Rightarrow> [] | Some b0 \<Rightarrow> body_data b0) \<and>
               rq_ContentLength q = int (length (body_data b)))"
    unfolding H
    by (auto simp: steal_def serve_app_def app_outbound_def Let_def bufferBody_def
        split: prod.splits sum.splits steal_error.splits option.splits if_splits)
qed

definition refused_exchange :: exchange where
  "refused_exchange = \<lparr>ex_open = Opened, ex_header = None,
     ex_reply = JSONLine (Inr (LError (mk_error CodeNoIncoming ''''))), ex_written = None\<rparr>"

lemma example_matches: "MatchRequest example_agent (example_request ''s3cret'') = Some example_session"
  "header_get (rq_Header (example_request ''s3cret'')) ''Upgrade'' = ''''"
proof -
  show "MatchRequest example_agent (example_request ''s3cret'') = Some example_session"
    by (simp add: example_match_defs)
  have "canonical_key ''Upgrade'' = ''Upgrade''" by code_simp
  then show "header_get (rq_Header (example_request ''s3cret'')) ''Upgrade'' = ''''"
    by (simp add: example_match_defs)
qed

lemma refused_unserved: "RoundTrip example_session refused_exchange = Inl (Unserved NotAccepting)"
  by (simp add: RoundTrip_def example_session_def refused_exchange_def readRefusal_def mk_error_def)

theorem replay_iff_unserved_witness:
  "\<exists>q. oc_app (Handler (\<lambda>_. bad_gateway) example_agent refused_exchange (example_request ''s3cret'')) = Some q \<and>
     rq_Method q = ''GET'' \<and> rq_ContentLength q = 0"
proof -
  note t = replay_iff_unserved[OF example_matches(2,1), of "\<lambda>_. bad_gateway" refused_exchange]
  have b: "rq_Body (example_request ''s3cret'') = None" "rq_Method (example_request ''s3cret'') = ''GET''"
    by (simp_all add: example_request_def)
  from t refused_unserved b(1)
  obtain q where q: "oc_app (Handler (\<lambda>_. bad_gateway) example_agent refused_exchange (example_request ''s3cret'')) = Some q"
    by auto
  with t b show ?thesis by auto
qed

text \<open>A request that asks for an upgrade, or that no attached session claims, goes to the application
  and to nobody else, with its body and its forwarding headers as they arrived.\<close>

lemma unclaimed_goes_to_application:
  assumes "header_get (rq_Header r) ''Upgrade'' \<noteq> '''' \<or> MatchRequest a r = None"
  shows "oc_laptop (Handler app a ex r) = None \<and>
         (\<exists>q. oc_app (Handler app a ex r) = Some q \<and> oc_resp (Handler app a ex r) = app q \<and>
            rq_Body q = rq_Body r \<and> rq_Host q = rq_Host r \<and> rq_Method q = rq_Method r \<and> rq_Path q = rq_Path r \<and>
            (\<forall>k. k \<in> set forwardedHeaders \<longrightarrow> header_values (rq_Header q) k = header_values (rq_Header r) k))"
proof -
  have "Handler app a ex r = serve_app app r" using assms by (auto simp: Handler_def)
  then show ?thesis
    by (auto simp: serve_app_def app_outbound_def keepForwarded_values outbound_drops_forwarded forwarded_canonical)
qed

text \<open>A stolen request reaches the laptop with its forwarding headers exactly as the load balancer wrote
  them and without an \<^verbatim>\<open>Expect\<close> header, and the response relayed for it never carries the internal
  no-listener header.\<close>

lemma stolen_request_headers:
  assumes "oc_laptop (steal app s ex r) = Some q"
  shows "(\<forall>k. k \<in> set forwardedHeaders \<longrightarrow> header_values (rq_Header q) k = header_values (rq_Header r) k) \<and>
         header_values (rq_Header q) ''Expect'' = [] \<and>
         (oc_app (steal app s ex r) = None \<longrightarrow>
            header_get (rs_Header (oc_resp (steal app s ex r))) NoListenerHeader = '''')"
proof -
  obtain r' where q: "q = steal_outbound r'" and h: "rq_Header r' = rq_Header r"
    using assms
    by (auto simp: steal_def serve_app_def Let_def bufferBody_def
        split: prod.splits sum.splits steal_error.splits option.splits if_splits)
  have ne: "k \<in> set forwardedHeaders \<Longrightarrow> canonical_key k \<noteq> canonical_key ''Expect''" for k
  proof -
    have "list_all (\<lambda>k. canonical_key k \<noteq> canonical_key ''Expect'') forwardedHeaders" by code_simp
    then show "k \<in> set forwardedHeaders \<Longrightarrow> canonical_key k \<noteq> canonical_key ''Expect''" by (simp add: list_all_iff)
  qed
  have "header_values (rq_Header q) k = header_values (rq_Header r) k" if "k \<in> set forwardedHeaders" for k
    using that ne[OF that]
    by (auto simp: q steal_outbound_def h keepForwarded_values outbound_drops_forwarded forwarded_canonical)
  moreover have "header_values (rq_Header q) ''Expect'' = []" by (simp add: q steal_outbound_def)
  moreover have "header_get (rs_Header (oc_resp (steal app s ex r))) NoListenerHeader = ''''"
    if "oc_app (steal app s ex r) = None"
    using steal_response[OF that] RoundTrip_strips
    by (auto simp: bad_gateway_def header_get_def header_values_def)
  ultimately show ?thesis by blast
qed

definition answered_exchange :: "int \<Rightarrow> header \<Rightarrow> exchange" where
  "answered_exchange status h = \<lparr>ex_open = Opened, ex_header = None,
     ex_reply = Responses [Inr \<lparr>rs_Status = status, rs_Header = h, rs_Body = ''''\<rparr>], ex_written = Some None\<rparr>"

text \<open>The reply taken for a stolen request is the first one that is not informational, provided fewer
  than \<^verbatim>\<open>maxInformationalResponses\<close> informational ones precede it; a stream that sends that many is
  refused naming their number, whatever follows.\<close>

lemma final_response_exact:
  assumes "\<forall>r \<in> set infos. 100 \<le> rs_Status r \<and> rs_Status r \<le> 199 \<and> rs_Status r \<noteq> StatusSwitchingProtocols"
    and "rs_Status final < 100 \<or> 199 < rs_Status final"
  shows "readFinalResponse 0 (map Inr infos @ Inr final # rest) =
     (if length infos < maxInformationalResponses then Inr final
      else Inl (TooManyInformational maxInformationalResponses))"
  using assms by (subst readFinalResponse_final) (auto simp: maxInformationalResponses_def)

definition example_response :: "int \<Rightarrow> response" where
  "example_response st = \<lparr>rs_Status = st, rs_Header = [], rs_Body = ''''\<rparr>"

text \<open>The join with the write goroutine is bounded, by the steal timeout unless it is set explicitly.\<close>

lemma writeAbortGrace_bounds:
  "0 < writeAbortGrace p \<and> (px_WriteAbortGrace p \<le> 0 \<longrightarrow> writeAbortGrace p \<le> stealTimeout p)"
  by (auto simp: writeAbortGrace_def stealTimeout_def DefaultStealTimeout_def DefaultWriteAbortGrace_def second_def)

lemma writeAbortGrace_explicit_exceeds:
  "stealTimeout \<lparr>px_StealTimeout = 200000000, px_WriteAbortGrace = 5 * second\<rparr> <
   writeAbortGrace \<lparr>px_StealTimeout = 200000000, px_WriteAbortGrace = 5 * second\<rparr>"
  by (simp add: writeAbortGrace_def stealTimeout_def second_def)

end
