(* ===== verification/CliOptions.thy ===== *)
theory CliOptions
  imports Proto
begin

text \<open>
  The options of \<^verbatim>\<open>tetherd run\<close> and the two classes of its errors
  (\<^verbatim>\<open>internal/cli/run.go\<close>), shared by the CLI's theories. \<open>UsageError\<close> is the wrapper
  \<^verbatim>\<open>usageError\<close>; everything else is operational.
\<close>

record RunOptions =
  o_Transport :: string
  o_AgentAddr :: string
  o_RemoteCIDRs :: "string list"
  o_HelperSocket :: string
  o_ExecPath :: string
  o_User :: string
  o_NoNetwork :: bool
  o_Command :: "string list"
  o_Profile :: string
  o_Region :: string
  o_Cluster :: string
  o_Service :: string
  o_TaskID :: string
  o_TargetEnv :: string
  o_NoEnv :: bool
  o_AgentContainer :: string
  o_LocalCIDRs :: "string list"
  o_RemoteServices :: "string list"
  o_RemoteDomains :: "string list"
  o_EnvOverride :: "(string, string) gomap"
  o_EnvExclude :: "string list"
  o_ConfigPath :: string
  o_NoIncoming :: bool
  o_LocalPort :: int
  o_As :: string
  o_Token :: string
  o_MatchHeader :: string
  o_MatchTokenHeader :: string
  o_PinCredentialRoute :: bool

definition zero_options :: RunOptions where
  "zero_options = \<lparr>o_Transport = '''', o_AgentAddr = '''', o_RemoteCIDRs = [], o_HelperSocket = '''',
     o_ExecPath = '''', o_User = '''', o_NoNetwork = False, o_Command = [], o_Profile = '''', o_Region = '''',
     o_Cluster = '''', o_Service = '''', o_TaskID = '''', o_TargetEnv = '''', o_NoEnv = False,
     o_AgentContainer = '''', o_LocalCIDRs = [], o_RemoteServices = [], o_RemoteDomains = [],
     o_EnvOverride = [], o_EnvExclude = [], o_ConfigPath = '''', o_NoIncoming = False, o_LocalPort = 0,
     o_As = '''', o_Token = '''', o_MatchHeader = '''', o_MatchTokenHeader = '''', o_PinCredentialRoute = False\<rparr>"

datatype cli_error =
    UsageError string
  | OpError string
  | ContextError string \<comment> \<open>\<^verbatim>\<open>context.DeadlineExceeded\<close> or \<^verbatim>\<open>context.Canceled\<close> is inside\<close>
  | RejectedError perror
  | Wrapped string cli_error \<comment> \<open>\<^verbatim>\<open>fmt.Errorf\<close> with \<^verbatim>\<open>%w\<close>: what is said, and the error inside\<close>

text \<open>\<^verbatim>\<open>errors.As\<close> looks through the wrapping.\<close>

fun isUsageError :: "cli_error \<Rightarrow> bool" where
  "isUsageError (UsageError _) = True"
| "isUsageError (OpError _) = False"
| "isUsageError (ContextError _) = False"
| "isUsageError (RejectedError _) = False"
| "isUsageError (Wrapped _ e) = isUsageError e"

definition exitFor :: "cli_error \<Rightarrow> int" where
  "exitFor e = (if isUsageError e then 2 else 1)"

text \<open>The hello \<^verbatim>\<open>attachAgent\<close> sends: only a session that takes requests carries the token.\<close>

definition attach_hello :: "RunOptions \<Rightarrow> incoming \<Rightarrow> hello" where
  "attach_hello opts inc =
     \<lparr>h_Version = Version, h_User = o_User opts,
      h_Token = (if inc_Enabled inc then o_Token opts else ''''), h_Incoming = inc\<rparr>"

text \<open>A task of the service, as \<^verbatim>\<open>transport.Task\<close> carries it.\<close>

record task =
  t_Cluster :: string
  t_ARN :: string
  t_ID :: string
  t_RuntimeID :: string
  t_RuntimeIDs :: "string list"
  t_Addr :: string
  t_SubnetID :: string
  t_StartedAt :: time
  t_DefinitionARN :: string

definition zero_task :: task where
  "zero_task = \<lparr>t_Cluster = [], t_ARN = [], t_ID = [], t_RuntimeID = [], t_RuntimeIDs = [], t_Addr = [],
     t_SubnetID = [], t_StartedAt = 0, t_DefinitionARN = []\<rparr>"

end
