(* ===== verification/StealServer.thy ===== *)
theory StealServer
  imports CliOptions Http Session
begin

text \<open>
  The CLI's side of a stolen request: \<^verbatim>\<open>internal/cli/steal.go\<close>. \<open>stealSettings\<close> decides
  what the agent is told to match; \<open>steal_handler\<close> is the reverse proxy to the developer's own
  process, whose behaviour is the parameter \<open>local_app\<close>. The one-connection listener that keeps a
  stream open until \<^verbatim>\<open>net/http\<close> is finished with it is a small state machine.
\<close>

section \<open>Settings\<close>

definition DefaultMatchHeader :: string where "DefaultMatchHeader = ''X-Dev-User''"
definition DefaultMatchTokenHeader :: string where "DefaultMatchTokenHeader = ''X-Dev-Token''"
definition DefaultLocalPort :: int where "DefaultLocalPort = 8080"

text \<open>\<^verbatim>\<open>StealToken.String\<close> and \<^verbatim>\<open>GoString\<close>.\<close>

definition StealToken_String :: "string \<Rightarrow> string" where
  "StealToken_String t = (if t = '''' then '''' else ''<redacted>'')"

definition StealToken_GoString :: "string \<Rightarrow> string" where
  "StealToken_GoString t = (if t = '''' then quoted '''' else quoted ''<redacted>'')"

record stealConfig =
  sc_Incoming :: incoming
  sc_LocalPort :: int

definition stealSettings :: "RunOptions \<Rightarrow> cli_error + stealConfig" where
  "stealSettings opts =
     (if o_NoIncoming opts then Inr \<lparr>sc_Incoming = no_incoming, sc_LocalPort = 0\<rparr>
      else
        let port = (if o_LocalPort opts = 0 then DefaultLocalPort else o_LocalPort opts) in
        if port < 0 \<or> 65535 < port then Inl (UsageError ''local port is not a port number'')
        else if o_Token opts = '''' then Inl (UsageError ''refusing to take requests: no steal token'')
        else Inr \<lparr>sc_Incoming = \<lparr>inc_Enabled = True,
                     inc_Header = (if o_MatchHeader opts = '''' then DefaultMatchHeader else o_MatchHeader opts),
                     inc_TokenHeader = (if o_MatchTokenHeader opts = '''' then DefaultMatchTokenHeader
                                        else o_MatchTokenHeader opts)\<rparr>,
                   sc_LocalPort = port\<rparr>)"

section \<open>The proxy to the developer's process\<close>

text \<open>
  What happens at \<^verbatim>\<open>127.0.0.1:LocalPort\<close>: the dial fails, the exchange fails after the
  connection was made, or the process answers, possibly after informational responses.
\<close>

datatype local_app =
    DialFailed string
  | FailsPartWay string
  | Answers "response list" response

text \<open>Whether any byte of the request reached the developer's process.\<close>

fun local_executes :: "local_app \<Rightarrow> bool" where
  "local_executes (DialFailed _) = False"
| "local_executes (FailsPartWay _) = True"
| "local_executes (Answers _ _) = True"

definition local_addr :: "int \<Rightarrow> string" where
  "local_addr port = ''127.0.0.1:'' @ itoa_int port"

text \<open>\<^verbatim>\<open>Rewrite\<close>: the Host stays, and the forwarding headers are added back value by value.\<close>

definition cliForwardedHeaders :: "string list" where
  "cliForwardedHeaders = [''X-Forwarded-For'', ''X-Forwarded-Host'', ''X-Forwarded-Proto'', ''Forwarded'']"

definition steal_rewrite :: "request \<Rightarrow> request" where
  "steal_rewrite r =
     r\<lparr>rq_Header := foldl (\<lambda>out h. foldl (\<lambda>out v. header_add h v out) out (header_values (rq_Header r) h))
                     (outbound_header (rq_Header r)) cliForwardedHeaders\<rparr>"

text \<open>\<^verbatim>\<open>ModifyResponse\<close> and \<^verbatim>\<open>ErrorHandler\<close>.\<close>

definition steal_response :: "int \<Rightarrow> local_app \<Rightarrow> response list \<times> response" where
  "steal_response port app =
     (case app of
        DialFailed _ \<Rightarrow>
          ([], \<lparr>rs_Status = StatusBadGateway, rs_Header = header_set NoListenerHeader ''1'' [],
                rs_Body = ''tetherd: nothing is listening on '' @ local_addr port\<rparr>)
      | FailsPartWay e \<Rightarrow>
          ([], \<lparr>rs_Status = StatusBadGateway, rs_Header = [],
                rs_Body = ''tetherd: '' @ local_addr port @ '' did not answer ('' @ e @ '')''\<rparr>)
      | Answers infos resp \<Rightarrow> (infos, resp\<lparr>rs_Header := header_del NoListenerHeader (rs_Header resp)\<rparr>))"

text \<open>\<^verbatim>\<open>firstForwardedFor\<close>: the original caller, for the log line.\<close>

definition firstForwardedFor :: "request \<Rightarrow> string" where
  "firstForwardedFor r =
     (let xff = header_get (rq_Header r) ''X-Forwarded-For'' in
      if xff = '''' then ''unknown''
      else case cut CHR '','' xff of
        Some (first, _) \<Rightarrow> trim_space first
      | None \<Rightarrow> trim_space xff)"

section \<open>The status recorder\<close>

record statusRecorder =
  sr_status :: int
  sr_wrote :: bool

definition new_recorder :: statusRecorder where
  "new_recorder = \<lparr>sr_status = StatusOK, sr_wrote = False\<rparr>"

definition WriteHeader :: "int \<Rightarrow> statusRecorder \<Rightarrow> statusRecorder" where
  "WriteHeader code r = (if sr_wrote r then r else r\<lparr>sr_status := code, sr_wrote := True\<rparr>)"

text \<open>\<^verbatim>\<open>Hijack\<close>, when the wrapped writer can be hijacked.\<close>

definition Hijack :: "statusRecorder \<Rightarrow> statusRecorder" where
  "Hijack r = (if sr_wrote r then r else r\<lparr>sr_status := StatusSwitchingProtocols, sr_wrote := True\<rparr>)"

section \<open>One stream as a listener\<close>

text \<open>
  \<^verbatim>\<open>oneConnListener\<close> and \<^verbatim>\<open>doneConn\<close>: the first Accept hands the stream over, the
  second blocks until the connection has been closed.
\<close>

record oneConnListener =
  oc_handed :: bool
  oc_done :: bool \<comment> \<open>the \<^verbatim>\<open>done\<close> channel of the \<^verbatim>\<open>doneConn\<close> is closed\<close>

datatype accept_result = Conn | EOF | Blocks

definition Accept :: "oneConnListener \<Rightarrow> oneConnListener \<times> accept_result" where
  "Accept l =
     (if oc_handed l then (l, if oc_done l then EOF else Blocks)
      else (l\<lparr>oc_handed := True\<rparr>, Conn))"

definition doneConn_Close :: "oneConnListener \<Rightarrow> oneConnListener" where
  "doneConn_Close l = l\<lparr>oc_done := True\<rparr>"

text \<open>
  \<^verbatim>\<open>http.Server.Serve\<close> over it, and with it \<^verbatim>\<open>StealServer.Serve\<close>: it accepts until
  the listener answers an error, and only then closes the stream. The list is what the connection's own
  goroutine does in the meantime: work on the stream, or close it.
\<close>

datatype conn_event = StreamUse | ConnClosed

fun serve_waits :: "oneConnListener \<Rightarrow> conn_event list \<Rightarrow> conn_event list" where
  "serve_waits l [] = []"
| "serve_waits l (e # es) =
     (case Accept l of
        (_, EOF) \<Rightarrow> []
      | (l', Conn) \<Rightarrow> e # serve_waits (if e = ConnClosed then doneConn_Close l' else l') es
      | (l', Blocks) \<Rightarrow> e # serve_waits (if e = ConnClosed then doneConn_Close l' else l') es)"

section \<open>Lemmas\<close>

lemma stealSettings_enabled:
  assumes "stealSettings opts = Inr sc" and "inc_Enabled (sc_Incoming sc)"
  shows "o_Token opts \<noteq> ''''" and "inc_Header (sc_Incoming sc) \<noteq> ''''" and "inc_TokenHeader (sc_Incoming sc) \<noteq> ''''"
    and "1 \<le> sc_LocalPort sc \<and> sc_LocalPort sc \<le> 65535"
  using assms
  by (auto simp: stealSettings_def no_incoming_def Let_def DefaultMatchHeader_def DefaultMatchTokenHeader_def
      DefaultLocalPort_def split: if_splits)

lemma header_values_addl:
  "header_values (foldl (\<lambda>out v. header_add h v out) out vs) k =
     (if canonical_key k = canonical_key h then header_values out k @ vs else header_values out k)"
proof (induction vs arbitrary: out)
  case (Cons v vs)
  have "canonical_key k = canonical_key h \<Longrightarrow> header_values out h = header_values out k"
    by (simp add: header_values_def)
  with Cons show ?case by auto
qed simp

lemma cli_forwarded_canonical: "k \<in> set cliForwardedHeaders \<Longrightarrow> canonical_key k = k"
  by (auto simp: cliForwardedHeaders_def intro!: forwarded_canonical simp: forwardedHeaders_def)

lemma cli_forwarded_outbound: "k \<in> set cliForwardedHeaders \<Longrightarrow> header_values (outbound_header h) k = []"
  by (rule outbound_drops_forwarded) (auto simp: cliForwardedHeaders_def forwardedHeaders_def)

lemma header_values_addls:
  assumes "distinct names" and "set names \<subseteq> set cliForwardedHeaders"
  shows "header_values (foldl (\<lambda>out h. foldl (\<lambda>out v. header_add h v out) out (header_values inh h)) out names) k =
     (if canonical_key k \<in> set names then header_values out k @ header_values inh k else header_values out k)"
  using assms
proof (induction names arbitrary: out)
  case (Cons n names)
  then have c: "canonical_key n = n" by (simp add: cli_forwarded_canonical)
  have same: "canonical_key k = n \<Longrightarrow> header_values inh n = header_values inh k"
    using c by (simp add: header_values_def)
  show ?case using Cons c same by (auto simp: header_values_addl)
qed simp

lemma steal_rewrite_forwarded:
  assumes "k \<in> set cliForwardedHeaders"
  shows "header_values (rq_Header (steal_rewrite r)) k = header_values (rq_Header r) k"
proof -
  have "distinct cliForwardedHeaders" by (simp add: cliForwardedHeaders_def)
  from header_values_addls[OF this subset_refl] assms show ?thesis
    by (simp add: steal_rewrite_def cli_forwarded_outbound cli_forwarded_canonical)
qed

text \<open>A reply that claims nothing was listening is sent only when the dial failed.\<close>

lemma steal_response_claim:
  "header_get (rs_Header (snd (steal_response port app))) NoListenerHeader \<noteq> '''' \<longleftrightarrow> \<not> local_executes app"
  by (cases app) (simp_all add: steal_response_def)

lemma serve_waits_handed:
  "oc_handed l \<Longrightarrow> serve_waits l es = (if oc_done l then [] else
     takeWhile (\<lambda>e. e \<noteq> ConnClosed) es @ (if ConnClosed \<in> set es then [ConnClosed] else []))"
proof (induction l es rule: serve_waits.induct)
  case (2 l e es)
  then show ?case
    by (cases es) (auto simp: Accept_def doneConn_Close_def)
qed simp

end
