(* ===== verification/StealPath.thy ===== *)
theory StealPath
  imports L7Proxy StealServer
begin

text \<open>
  The path of one stolen request across both ends: the agent's \<open>RoundTrip\<close> on one side, the CLI's
  \<open>serveInbound\<close> and reverse proxy on the other. \<open>laptop_exchange\<close> relates what the CLI and
  the developer's process do to what the agent sees on the stream, including replies that are lost
  on the way, together with whether the developer's process received the request.
\<close>

definition informational :: "response \<Rightarrow> bool" where
  "informational r \<longleftrightarrow> 100 \<le> rs_Status r \<and> rs_Status r \<le> 199"

definition stream_up :: "exchange \<Rightarrow> bool" where
  "stream_up ex \<longleftrightarrow> ex_open ex = Opened \<and> ex_header ex = None"

inductive laptop_exchange :: "http_outcome option \<Rightarrow> int \<Rightarrow> local_app \<Rightarrow> exchange \<Rightarrow> bool \<Rightarrow> bool"
  for onHTTP port app where
  unreached: "\<not> stream_up ex \<Longrightarrow> laptop_exchange onHTTP port app ex False"
| refused: "stream_up ex \<Longrightarrow> serveInbound onHTTP (Inr (LHTTP user)) = Refused l \<Longrightarrow> ex_reply ex = JSONLine (Inr l) \<Longrightarrow>
    laptop_exchange onHTTP port app ex False"
| answered: "stream_up ex \<Longrightarrow> serveInbound onHTTP (Inr (LHTTP user)) = HandedOver False \<Longrightarrow> steal_response port app = (infos, resp) \<Longrightarrow>
    list_all informational infos \<Longrightarrow> ex_reply ex = Responses (map Inr infos @ [Inr resp]) \<Longrightarrow>
    laptop_exchange onHTTP port app ex (local_executes app)"
| silent: "stream_up ex \<Longrightarrow> ex_reply ex = Silence e \<Longrightarrow> laptop_exchange onHTTP port app ex executed"
| cut_off: "stream_up ex \<Longrightarrow> list_all informational infos \<Longrightarrow> ex_reply ex = Responses (map Inr infos @ [Inl e]) \<Longrightarrow>
    laptop_exchange onHTTP port app ex executed"

inductive_cases laptop_exchangeE: "laptop_exchange onHTTP port app ex executed"

section \<open>Lemmas\<close>

lemma readFinalResponse_prefix:
  assumes "list_all informational infos" and "readFinalResponse seen (map Inr infos @ rest) = Inr resp"
  shows "\<exists>seen'. readFinalResponse seen' rest = Inr resp"
  using assms
proof (induction infos arbitrary: seen)
  case (Cons i infos)
  then show ?case by (auto simp: informational_def split: if_splits)
qed auto

lemma cut_off_no_response:
  "list_all informational infos \<Longrightarrow> readFinalResponse seen (map Inr infos @ [Inl e]) \<noteq> Inr resp"
  using readFinalResponse_prefix by fastforce

lemma answered_response:
  assumes "list_all informational infos" and "readFinalResponse 0 (map Inr infos @ [Inr resp]) = Inr resp'"
  shows "resp' = resp"
proof -
  from readFinalResponse_prefix[OF assms] obtain seen where "readFinalResponse seen [Inr resp] = Inr resp'" by blast
  then show ?thesis by (auto split: if_splits)
qed

text \<open>
  Whenever the developer's process may have received the request, the round trip is not marked
  unserved.
\<close>

lemma executed_is_served:
  assumes "laptop_exchange onHTTP port app ex True" and "s_open s \<noteq> None"
  shows "RoundTrip s ex \<noteq> Inl (Unserved why)"
proof
  assume u: "RoundTrip s ex = Inl (Unserved why)"
  have up: "stream_up ex" using assms(1) by (cases rule: laptop_exchange.cases) auto
  then have "reached_stream s ex" using assms(2) by (simp add: reached_stream_def stream_up_def)
  note unserved = RoundTrip_unserved[OF u this]
  from assms(1) show False
  proof (cases rule: laptop_exchange.cases)
    case (answered user infos resp)
    from unserved answered obtain resp' where
      "readFinalResponse 0 (map Inr infos @ [Inr resp]) = Inr resp'" "header_get (rs_Header resp') NoListenerHeader \<noteq> ''''"
      by auto
    moreover from this(1) have "resp' = resp" by (rule answered_response[OF answered(5)])
    ultimately show ?thesis using answered(1,4) steal_response_claim[of port app] by simp
  next
    case (cut_off infos e)
    with unserved cut_off_no_response[OF cut_off(2)] show ?thesis by auto
  qed (use unserved in auto)
qed

text \<open>A request the CLI refuses, or finds nobody listening for, is unserved.\<close>

lemma not_accepted_is_unserved:
  assumes "stream_up ex" and "s_open s \<noteq> None" and "ex_reply ex = JSONLine (Inr l)"
    and "serveInbound onHTTP (Inr (LHTTP user)) = Refused l"
  shows "\<exists>why. RoundTrip s ex = Inl (Unserved why)"
  using assms
  by (auto simp: RoundTrip_def stream_up_def serveInbound_def readRefusal_def Let_def mk_error_def type_defs
      split: option.splits if_splits)

lemma no_listener_is_unserved:
  assumes "stream_up ex" and "s_open s \<noteq> None" and "steal_response port (DialFailed e) = (infos, resp)"
    and "ex_reply ex = Responses (map Inr infos @ [Inr resp])"
  shows "RoundTrip s ex = Inl (Unserved NoListener)"
  using assms
  by (auto simp: RoundTrip_def stream_up_def steal_response_def readRefusal_def StatusBadGateway_def
      split: option.splits)

end
