(* ===== verification/EnvMerge.thy ===== *)
theory EnvMerge
  imports Prelude
begin

text \<open>
  Merging the task's environment into the local one: \<^verbatim>\<open>internal/env/env.go\<close>. An environment is a list
  of \<^verbatim>\<open>KEY=VALUE\<close> strings where the operating system gives it, and a Go map where the program keeps it.
\<close>

definition ContainerPathVars :: "string list" where
  "ContainerPathVars =
     [''SSL_CERT_FILE'', ''SSL_CERT_DIR'', ''AWS_CA_BUNDLE'', ''REQUESTS_CA_BUNDLE'', ''CURL_CA_BUNDLE'',
      ''NODE_EXTRA_CA_CERTS'', ''LD_LIBRARY_PATH'', ''LD_PRELOAD'', ''DYLD_LIBRARY_PATH'',
      ''DYLD_INSERT_LIBRARIES'', ''JAVA_HOME'', ''GOROOT'', ''PYTHONHOME'', ''PYTHONPATH'']"

definition DefaultExclude :: "string list" where
  "DefaultExclude =
     [''PATH'', ''HOME'', ''HOSTNAME'', ''USER'', ''LOGNAME'', ''SHELL'', ''TMPDIR'', ''PWD'', ''OLDPWD'',
      ''TERM'', ''LANG'', ''LC_*'', ''SHLVL'', ''_'', ''AWS_EXECUTION_ENV''] @ ContainerPathVars"

definition AWSContainerVars :: "string list" where
  "AWSContainerVars =
     [''AWS_CONTAINER_CREDENTIALS_RELATIVE_URI'', ''ECS_CONTAINER_METADATA_URI_V4'',
      ''ECS_CONTAINER_METADATA_URI'', ''ECS_AGENT_URI'']"

definition LocalAWSCredentialVars :: "string list" where
  "LocalAWSCredentialVars =
     [''AWS_PROFILE'', ''AWS_DEFAULT_PROFILE'', ''AWS_ACCESS_KEY_ID'', ''AWS_SECRET_ACCESS_KEY'',
      ''AWS_SESSION_TOKEN'', ''AWS_CREDENTIAL_EXPIRATION'', ''AWS_WEB_IDENTITY_TOKEN_FILE'', ''AWS_ROLE_ARN'',
      ''AWS_ROLE_SESSION_NAME'', ''AWS_CONTAINER_CREDENTIALS_FULL_URI'', ''AWS_CONTAINER_AUTHORIZATION_TOKEN'',
      ''AWS_CONTAINER_AUTHORIZATION_TOKEN_FILE'', ''AWS_ACCESS_KEY'', ''AWS_SECRET_KEY'', ''AWS_SECURITY_TOKEN'']"

record env_options =
  eo_Override :: "(string, string) gomap"
  eo_Exclude :: "string list"
  eo_DropAWSContainer :: bool
  eo_StripLocal :: "string list"

fun Excluded :: "string \<Rightarrow> string list \<Rightarrow> bool" where
  "Excluded name [] = False"
| "Excluded name (p # ps) =
     (if has_suffix p ''*'' then has_prefix name (trim_suffix p ''*'') \<or> Excluded name ps
      else p = name \<or> Excluded name ps)"

text \<open>The three write loops of \<^verbatim>\<open>Merge\<close>.\<close>

fun put_local :: "string list \<Rightarrow> string list \<Rightarrow> (string, string) gomap \<Rightarrow> (string, string) gomap" where
  "put_local strip [] out = out"
| "put_local strip (kv # kvs) out =
     (case cut CHR ''='' kv of
        None \<Rightarrow> put_local strip kvs out
      | Some (k, v) \<Rightarrow> put_local strip kvs (if Excluded k strip then out else mput k v out))"

fun put_task :: "string list \<Rightarrow> (string, string) gomap \<Rightarrow> (string, string) gomap \<Rightarrow> (string, string) gomap" where
  "put_task exclude [] out = out"
| "put_task exclude ((k, v) # kvs) out =
     put_task exclude kvs (if Excluded k exclude then out else mput k v out)"

definition task_exclude :: "env_options \<Rightarrow> string list" where
  "task_exclude opts =
     DefaultExclude @ eo_Exclude opts @ (if eo_DropAWSContainer opts then AWSContainerVars else [])"

definition merged :: "string list \<Rightarrow> (string, string) gomap \<Rightarrow> env_options \<Rightarrow> (string, string) gomap" where
  "merged loc tsk opts =
     mputs (put_task (task_exclude opts) tsk (put_local (eo_StripLocal opts) loc [])) (eo_Override opts)"

definition Merge :: "string list \<Rightarrow> (string, string) gomap \<Rightarrow> env_options \<Rightarrow> string list" where
  "Merge loc tsk opts =
     (let out = merged loc tsk opts in map (\<lambda>k. k @ ''='' @ mstr out k) (sort (mkeys out)))"

text \<open>What a process reads back: the last assignment of a name wins.\<close>

definition env_get :: "string list \<Rightarrow> string \<Rightarrow> string option" where
  "env_get kvs k = map_of (rev (List.map_filter (cut CHR ''='') kvs)) k"

section \<open>Lookup after the loops\<close>

lemma Excluded_append: "Excluded k (ps @ qs) = (Excluded k ps \<or> Excluded k qs)"
  by (induction ps) auto

lemma map_filter_snoc:
  "List.map_filter f (xs @ [x]) = List.map_filter f xs @ (case f x of None \<Rightarrow> [] | Some y \<Rightarrow> [y])"
  by (induction xs) (auto simp: List.map_filter_simps split: option.splits)

lemma env_get_Cons:
  "env_get (kv # kvs) k = (case env_get kvs k of Some v \<Rightarrow> Some v | None \<Rightarrow>
     (case cut CHR ''='' kv of Some (k', v) \<Rightarrow> if k' = k then Some v else None | None \<Rightarrow> None))"
  by (auto simp: env_get_def List.map_filter_simps map_add_def split: option.splits)

lemma put_local_get:
  "mget (put_local strip kvs out) k =
     (if Excluded k strip then mget out k else case env_get kvs k of Some v \<Rightarrow> Some v | None \<Rightarrow> mget out k)"
proof (induction strip kvs out rule: put_local.induct)
  case (1 strip out)
  then show ?case by (simp add: env_get_def List.map_filter_simps)
next
  case (2 strip kv kvs out)
  then show ?case by (cases "cut CHR ''='' kv") (auto simp: env_get_Cons split: option.splits)
qed

lemma put_task_get:
  "wf_map tsk \<Longrightarrow> mget (put_task ex tsk out) k =
     (case mget tsk k of Some v \<Rightarrow> if Excluded k ex then mget out k else Some v | None \<Rightarrow> mget out k)"
proof (induction ex tsk out rule: put_task.induct)
  case (2 ex k' v kvs out)
  have "wf_map kvs" and "k' \<notin> set (mkeys kvs)" using 2(2) by (auto simp: wf_map_def mkeys_def)
  then show ?case using 2(1) by (auto simp: dom_def split: option.splits)
qed simp

lemma merged_get:
  assumes "wf_map tsk" and "wf_map (eo_Override opts)"
  shows "mget (merged loc tsk opts) k =
    (case mget (eo_Override opts) k of Some v \<Rightarrow> Some v
     | None \<Rightarrow> (case (if Excluded k (task_exclude opts) then None else mget tsk k) of Some v \<Rightarrow> Some v
       | None \<Rightarrow> if Excluded k (eo_StripLocal opts) then None else env_get loc k))"
  using assms by (auto simp: merged_def mget_mputs put_task_get put_local_get split: option.splits)

section \<open>The list a child is started with\<close>

definition plain_keys :: "(string, string) gomap \<Rightarrow> bool" where
  "plain_keys m = list_all (\<lambda>k. CHR ''='' \<notin> set k) (mkeys m)"

lemma plain_keys_mput: "plain_keys m \<Longrightarrow> CHR ''='' \<notin> set k \<Longrightarrow> plain_keys (mput k v m)"
  by (auto simp: plain_keys_def list_all_iff dom_def split: if_splits)

lemma plain_keys_put_local: "plain_keys out \<Longrightarrow> plain_keys (put_local strip kvs out)"
proof (induction kvs arbitrary: out)
  case (Cons kv kvs)
  then show ?case
    by (cases "cut CHR ''='' kv") (auto simp: plain_keys_mput cut_Some)
qed simp

lemma plain_keys_Nil [simp]: "plain_keys []"
  by (simp add: plain_keys_def mkeys_def)

lemma plain_keys_Cons [simp]: "plain_keys ((k, v) # kvs) = (CHR ''='' \<notin> set k \<and> plain_keys kvs)"
  by (simp add: plain_keys_def mkeys_def)

lemma plain_keys_put_task: "plain_keys tsk \<Longrightarrow> plain_keys out \<Longrightarrow> plain_keys (put_task ex tsk out)"
proof (induction ex tsk out rule: put_task.induct)
  case (2 ex k v kvs out)
  then show ?case by (auto simp: plain_keys_mput)
qed simp

lemma plain_keys_mputs: "plain_keys kvs \<Longrightarrow> plain_keys m \<Longrightarrow> plain_keys (mputs m kvs)"
proof (induction m kvs rule: mputs.induct)
  case (2 m k v kvs)
  have "plain_keys kvs" "CHR ''='' \<notin> set k" using 2(2) by (simp_all add: plain_keys_def mkeys_def)
  then show ?case using 2 by (simp add: plain_keys_mput)
qed simp

lemma cut_append: "sep \<notin> set a \<Longrightarrow> cut sep (a @ sep # b) = Some (a, b)"
  by (simp add: cut_Some)

lemma env_get_printed:
  assumes "distinct ks" and "list_all (\<lambda>k. CHR ''='' \<notin> set k) ks"
  shows "env_get (map (\<lambda>k. k @ ''='' @ f k) ks) k = (if k \<in> set ks then Some (f k) else None)"
  using assms
proof (induction ks)
  case Nil
  then show ?case by (simp add: env_get_def List.map_filter_simps)
next
  case (Cons a ks)
  then show ?case by (auto simp: env_get_Cons cut_append split: option.splits)
qed

lemma put_local_wf: "wf_map out \<Longrightarrow> wf_map (put_local strip kvs out)"
  by (induction strip kvs out rule: put_local.induct) (auto split: option.splits)

lemma put_task_wf: "wf_map out \<Longrightarrow> wf_map (put_task ex tsk out)"
  by (induction ex tsk out rule: put_task.induct) auto

lemma merged_wf: "wf_map (merged loc tsk opts)"
  by (simp add: merged_def put_task_wf put_local_wf)

lemma env_get_Merge:
  assumes "plain_keys tsk" and "plain_keys (eo_Override opts)"
  shows "env_get (Merge loc tsk opts) k = mget (merged loc tsk opts) k"
proof -
  let ?m = "merged loc tsk opts"
  have wf: "wf_map ?m" by (rule merged_wf)
  have "plain_keys ?m"
    unfolding merged_def using assms by (auto intro!: plain_keys_mputs plain_keys_put_task plain_keys_put_local)
  then have "list_all (\<lambda>k. CHR ''='' \<notin> set k) (sort (mkeys ?m))" by (simp add: plain_keys_def list_all_iff)
  moreover have "distinct (sort (mkeys ?m))" using wf by (simp add: wf_map_def)
  ultimately show ?thesis
    using env_get_printed[of "sort (mkeys ?m)" "mstr ?m" k] by (auto simp: Merge_def Let_def mstr_def dom_def split: option.splits)
qed

text \<open>The child's environment is the local one, overlaid by the task's, overlaid by the overrides: for every
  name the override wins, then the task's value unless the name is excluded, then the local value unless it is
  stripped, and a name none of them gives is absent; the list is sorted by name and names each once.\<close>

lemma merge_precedence:
  assumes "wf_map tsk" and "wf_map (eo_Override opts)" and "plain_keys tsk" and "plain_keys (eo_Override opts)"
  shows "env_get (Merge loc tsk opts) k =
      (case mget (eo_Override opts) k of Some v \<Rightarrow> Some v
       | None \<Rightarrow> (case (if Excluded k (task_exclude opts) then None else mget tsk k) of Some v \<Rightarrow> Some v
         | None \<Rightarrow> if Excluded k (eo_StripLocal opts) then None else env_get loc k)) \<and>
    (\<exists>ks. sorted ks \<and> distinct ks \<and> map (\<lambda>kv. fst (the (cut CHR ''='' kv))) (Merge loc tsk opts) = ks)"
proof
  show "env_get (Merge loc tsk opts) k =
      (case mget (eo_Override opts) k of Some v \<Rightarrow> Some v
       | None \<Rightarrow> (case (if Excluded k (task_exclude opts) then None else mget tsk k) of Some v \<Rightarrow> Some v
         | None \<Rightarrow> if Excluded k (eo_StripLocal opts) then None else env_get loc k))"
    using assms by (simp add: env_get_Merge merged_get)
  let ?m = "merged loc tsk opts"
  have "plain_keys ?m"
    unfolding merged_def using assms by (auto intro!: plain_keys_mputs plain_keys_put_task plain_keys_put_local)
  then have "map (\<lambda>kv. fst (the (cut CHR ''='' kv))) (Merge loc tsk opts) = sort (mkeys ?m)"
    by (auto simp: Merge_def Let_def plain_keys_def list_all_iff cut_append dom_def intro!: map_idI)
  moreover have "distinct (sort (mkeys ?m))" using merged_wf by (simp add: wf_map_def)
  ultimately show "\<exists>ks. sorted ks \<and> distinct ks \<and> map (\<lambda>kv. fst (the (cut CHR ''='' kv))) (Merge loc tsk opts) = ks"
    by simp
qed

end
