(* ===== verification/Netip.thy ===== *)
theory Netip
  imports Prelude "HOL-Library.Word"
begin

unbundle bit_operations_syntax

text \<open>
  What tetherd uses of \<^verbatim>\<open>net/netip\<close>: IPv4 addresses as 32-bit words, prefixes with their
  length, \<^verbatim>\<open>Masked\<close>, \<^verbatim>\<open>Contains\<close>, \<^verbatim>\<open>Overlaps\<close>, and the textual forms. An
  IPv6 prefix is kept apart by its constructor. The set a prefix denotes is \<open>pset\<close>.
\<close>

type_synonym addr4 = "32 word"

datatype prefix = Prefix4 addr4 nat | Prefix6 "128 word" nat

fun is4 :: "prefix \<Rightarrow> bool" where
  "is4 (Prefix4 _ _) = True"
| "is4 (Prefix6 _ _) = False"

fun bits :: "prefix \<Rightarrow> nat" where
  "bits (Prefix4 _ n) = n"
| "bits (Prefix6 _ n) = n"

text \<open>The network part of an address for a prefix length.\<close>

definition net4 :: "addr4 \<Rightarrow> nat \<Rightarrow> addr4" where
  "net4 a n = a AND NOT (mask (32 - n))"

fun masked :: "prefix \<Rightarrow> prefix" where
  "masked (Prefix4 a n) = Prefix4 (net4 a n) n"
| "masked (Prefix6 a n) = Prefix6 (a AND NOT (mask (128 - n))) n"

definition prefix_contains :: "prefix \<Rightarrow> addr4 \<Rightarrow> bool" where
  "prefix_contains p a = (case p of Prefix4 b n \<Rightarrow> net4 a n = net4 b n | Prefix6 _ _ \<Rightarrow> False)"

fun overlaps :: "prefix \<Rightarrow> prefix \<Rightarrow> bool" where
  "overlaps (Prefix4 a m) (Prefix4 b n) = (net4 a (min m n) = net4 b (min m n))"
| "overlaps (Prefix6 a m) (Prefix6 b n) =
     (a AND NOT (mask (128 - min m n)) = b AND NOT (mask (128 - min m n)))"
| "overlaps _ _ = False"

text \<open>A prefix that \<^verbatim>\<open>netip\<close> can hold, and one in canonical form (no host bits).\<close>

definition wf_prefix :: "prefix \<Rightarrow> bool" where
  "wf_prefix p = (is4 p \<and> bits p \<le> 32)"

definition canonical :: "prefix \<Rightarrow> bool" where
  "canonical p = (wf_prefix p \<and> masked p = p)"

definition pset :: "prefix \<Rightarrow> addr4 set" where
  "pset p = {a. prefix_contains p a}"

definition psets :: "prefix list \<Rightarrow> addr4 set" where
  "psets ps = (\<Union>p \<in> set ps. pset p)"

section \<open>Text\<close>

definition octet :: "addr4 \<Rightarrow> nat \<Rightarrow> nat" where
  "octet a i = unat (drop_bit (8 * i) a AND 255)"

definition addr_string :: "addr4 \<Rightarrow> string" where
  "addr_string a = itoa (octet a 3) @ ''.'' @ itoa (octet a 2) @ ''.'' @ itoa (octet a 1) @ ''.'' @ itoa (octet a 0)"

definition prefix_string :: "prefix \<Rightarrow> string" where
  "prefix_string p = (case p of Prefix4 a n \<Rightarrow> addr_string a @ ''/'' @ itoa n | Prefix6 _ n \<Rightarrow> ''ipv6/'' @ itoa n)"

text \<open>\<^verbatim>\<open>netip.ParseAddr\<close> for dotted decimals: four fields up to 255 without leading zeros.\<close>

definition parse_octet :: "string \<Rightarrow> nat option" where
  "parse_octet s =
     (if 1 < length s \<and> hd s = CHR ''0'' then None
      else case parse_digits s of Some n \<Rightarrow> if n \<le> 255 then Some n else None | None \<Rightarrow> None)"

definition of_octets :: "nat \<Rightarrow> nat \<Rightarrow> nat \<Rightarrow> nat \<Rightarrow> addr4" where
  "of_octets a b c d = of_nat (((a * 256 + b) * 256 + c) * 256 + d)"

definition parse_addr4 :: "string \<Rightarrow> addr4 option" where
  "parse_addr4 s =
     (case split_on CHR ''.'' s of
        [a, b, c, d] \<Rightarrow>
          (case (parse_octet a, parse_octet b, parse_octet c, parse_octet d) of
             (Some a, Some b, Some c, Some d) \<Rightarrow> Some (of_octets a b c d)
           | _ \<Rightarrow> None)
      | _ \<Rightarrow> None)"

text \<open>\<^verbatim>\<open>netip.ParsePrefix\<close> for an IPv4 address: the length without a leading zero, at most 32.\<close>

definition parse_prefix4 :: "string \<Rightarrow> prefix option" where
  "parse_prefix4 s =
     (case after_last CHR ''/'' s of
        None \<Rightarrow> None
      | Some bs \<Rightarrow>
          (case parse_addr4 (take (length s - length bs - 1) s) of
             None \<Rightarrow> None
           | Some a \<Rightarrow>
               if 1 < length bs \<and> hd bs = CHR ''0'' then None
               else (case parse_digits bs of
                       Some n \<Rightarrow> if n \<le> 32 then Some (Prefix4 a n) else None
                     | None \<Rightarrow> None)))"

section \<open>Laws\<close>

text \<open>Membership bit by bit: the leading bits agree.\<close>

lemma net4_eq_iff: "net4 a n = net4 b n \<longleftrightarrow> (\<forall>i < 32. 32 - n \<le> i \<longrightarrow> bit a i = bit b i)"
  by (auto simp: net4_def bit_eq_iff bit_and_iff bit_not_iff bit_mask_iff)

lemma in_pset: "x \<in> pset (Prefix4 a n) \<longleftrightarrow> (\<forall>i < 32. 32 - n \<le> i \<longrightarrow> bit x i = bit a i)"
  by (simp add: pset_def prefix_contains_def net4_eq_iff)

lemma overlaps_iff:
  "overlaps (Prefix4 a m) (Prefix4 b n) \<longleftrightarrow> (\<forall>i < 32. 32 - min m n \<le> i \<longrightarrow> bit a i = bit b i)"
  by (simp add: net4_eq_iff)

lemma overlaps_sym: "overlaps p q = overlaps q p"
  by (cases p; cases q) (auto simp: min.commute)

text \<open>Two prefixes overlap exactly when they share an address.\<close>

lemma overlaps_sets:
  assumes "wf_prefix p" and "wf_prefix q"
  shows "overlaps p q \<longleftrightarrow> pset p \<inter> pset q \<noteq> {}"
proof -
  obtain a m b n where p: "p = Prefix4 a m" and q: "q = Prefix4 b n"
    using assms by (cases p; cases q) (auto simp: wf_prefix_def)
  show ?thesis
  proof
    assume o: "overlaps p q"
    have "(if n \<le> m then a else b) \<in> pset p \<inter> pset q"
      using o by (auto simp: p q net4_eq_iff in_pset min_def split: if_splits)
    then show "pset p \<inter> pset q \<noteq> {}" by blast
  next
    assume "pset p \<inter> pset q \<noteq> {}"
    then obtain x where "x \<in> pset p" "x \<in> pset q" by blast
    then show "overlaps p q" by (auto simp: p q net4_eq_iff in_pset)
  qed
qed

text \<open>An overlapping prefix that is at least as wide covers the other one.\<close>

lemma wider_covers:
  assumes "wf_prefix p" and "wf_prefix e" and "overlaps e p" and "bits e \<le> bits p"
  shows "pset p \<subseteq> pset e"
proof -
  obtain a m b n where p: "p = Prefix4 a m" and e: "e = Prefix4 b n"
    using assms by (cases p; cases e) (auto simp: wf_prefix_def)
  show ?thesis using assms(3,4) by (auto simp: p e net4_eq_iff in_pset min_def)
qed

lemma canonical_bits: "canonical (Prefix4 a n) \<longleftrightarrow> n \<le> 32 \<and> (\<forall>i < 32 - n. \<not> bit a i)"
proof -
  have "net4 a n = a \<longleftrightarrow> (\<forall>i < 32 - n. \<not> bit a i)"
    by (auto simp: net4_def bit_eq_iff bit_and_iff bit_not_iff bit_mask_iff) (metis diff_le_self order_less_le_trans)
  then show ?thesis by (auto simp: canonical_def wf_prefix_def)
qed

lemma canonical_wf: "canonical p \<Longrightarrow> wf_prefix p"
  by (simp add: canonical_def)

lemma psets_simps [simp]: "psets [] = {}" "psets (p # ps) = pset p \<union> psets ps"
  "psets (ps @ qs) = psets ps \<union> psets qs"
  by (auto simp: psets_def)

end
