(* ===== verification/NetipText.thy ===== *)
theory NetipText
  imports Netip
begin

unbundle bit_operations_syntax

text \<open>
  Printing and parsing IPv4 addresses and prefixes are inverse: what \<^verbatim>\<open>netip.Addr.String\<close> writes,
  \<^verbatim>\<open>netip.ParseAddr\<close> and \<^verbatim>\<open>netip.ParsePrefix\<close> read back.
\<close>

lemma itoa_no_dot: "CHR ''.'' \<notin> set (itoa n)" "CHR ''/'' \<notin> set (itoa n)"
  using itoa_digits[of n] by (auto simp: list_all_iff is_digit_def)

text \<open>No leading zero.\<close>

lemma itoa_hd: "1 < length (itoa n) \<Longrightarrow> hd (itoa n) \<noteq> CHR ''0''"
proof (induction n rule: itoa.induct)
  case (1 n)
  show ?case
  proof (cases "n < 10")
    case True
    then show ?thesis using 1(2) by (subst (asm) itoa.simps) simp
  next
    case False
    then have n: "itoa n = itoa (n div 10) @ [char_of (48 + n mod 10)]" by (subst itoa.simps) simp
    show ?thesis
    proof (cases "n div 10 < 10")
      case True
      then have "itoa (n div 10) = [char_of (48 + n div 10)]" by (subst itoa.simps) simp
      moreover have "(char_of (48 + n div 10) :: char) \<noteq> CHR ''0''"
      proof
        assume "(char_of (48 + n div 10) :: char) = CHR ''0''"
        then have "digit_val (char_of (48 + n div 10)) = digit_val (CHR ''0'')" by simp
        then show False using True False by (simp add: digit_val_def)
      qed
      ultimately show ?thesis by (simp add: n)
    next
      case more: False
      have "1 < length (itoa (n div 10))" using more by (subst itoa.simps) simp
      then show ?thesis using 1(1)[OF False] by (simp add: n)
    qed
  qed
qed

lemma parse_octet_itoa: "n \<le> 255 \<Longrightarrow> parse_octet (itoa n) = Some n"
  using itoa_hd[of n] by (simp add: parse_octet_def)

lemma octet_div: "octet a i = unat a div 256 ^ i mod 256"
proof -
  have "octet a i = unat (take_bit 8 (drop_bit (8 * i) a))"
    by (simp add: octet_def take_bit_eq_mask mask_numeral)
  also have "\<dots> = take_bit 8 (drop_bit (8 * i) (unat a))"
    by (simp add: unsigned_take_bit_eq unat_drop_bit_eq)
  also have "\<dots> = unat a div 256 ^ i mod 256"
    by (simp add: take_bit_eq_mod drop_bit_eq_div power_mult)
  finally show ?thesis .
qed

lemma octet_le: "octet a i \<le> 255"
  using mod_less_divisor[of 256 "unat a div 256 ^ i"] by (simp add: octet_div)

lemma of_octets_octets: "of_octets (octet a 3) (octet a 2) (octet a 1) (octet a 0) = a"
proof -
  have lt: "unat a < 4294967296" using unsigned_less[of a] by simp
  have "((octet a 3 * 256 + octet a 2) * 256 + octet a 1) * 256 + octet a 0 = unat a"
  proof -
    define n where "n = unat a"
    have 1: "n div 256 * 256 + n mod 256 = n" "n div 65536 * 256 + n div 256 mod 256 = n div 256"
      "n div 16777216 * 256 + n div 65536 mod 256 = n div 65536"
      using div_mult_mod_eq[of n 256] div_mult_mod_eq[of "n div 256" 256] div_mult_mod_eq[of "n div 65536" 256]
      by (simp_all flip: div_mult2_eq)
    have "n div 16777216 mod 256 = n div 16777216" using lt n_def by simp
    then show ?thesis using 1 by (simp add: octet_div flip: n_def)
  qed
  then show ?thesis by (simp add: of_octets_def)
qed

lemma parse_addr_string [simp]: "parse_addr4 (addr_string a) = Some a"
  by (simp add: parse_addr4_def addr_string_def split_on_field split_on_last itoa_no_dot parse_octet_itoa octet_le
      of_octets_octets[simplified])

lemma after_last_append: "sep \<notin> set b \<Longrightarrow> after_last sep (a @ sep # b) = Some b"
  by (auto simp: after_last_def takeWhile_append)

lemma parse_prefix_string: "n \<le> 32 \<Longrightarrow> parse_prefix4 (prefix_string (Prefix4 a n)) = Some (Prefix4 a n)"
  using itoa_hd[of n] by (simp add: parse_prefix4_def prefix_string_def after_last_append itoa_no_dot)

lemma addr_string_inj: "addr_string a = addr_string b \<Longrightarrow> a = b"
  by (metis option.inject parse_addr_string)

end
