(* ===== verification/AgentEnv.thy ===== *)
theory AgentEnv
  imports EnvMerge Session NetipText
begin

text \<open>
  What the agent reads in the task: the application's environment from \<^verbatim>\<open>/proc\<close>
  (\<^verbatim>\<open>internal/agent/environ.go\<close>) and names from the task's resolver
  (\<^verbatim>\<open>internal/agent/resolve.go\<close>). The metadata endpoint, the files under \<^verbatim>\<open>/proc\<close> and the lookup are
  parameters.
\<close>

section \<open>The environment of the application\<close>

definition nul :: char where "nul = CHR 0x00"

fun parse_environ :: "string list \<Rightarrow> (string, string) gomap \<Rightarrow> (string, string) gomap" where
  "parse_environ [] out = out"
| "parse_environ (kv # kvs) out =
     (if kv = [] then parse_environ kvs out
      else case cut CHR ''='' kv of
        None \<Rightarrow> parse_environ kvs out
      | Some (k, v) \<Rightarrow> parse_environ kvs (mput k v out))"

definition ParseEnviron :: "string \<Rightarrow> (string, string) gomap" where
  "ParseEnviron b = parse_environ (split_on nul b) []"

datatype env_error =
    NoMetadata | MetadataFailed string | MetadataStatus int | NotInTask string "string list" | ReadDirError string
  | ScanCancelled | NoProcess string | BadStat string

text \<open>Field 22 of a \<^verbatim>\<open>stat\<close> line; \<^verbatim>\<open>strconv.ParseUint(s, 10, 64)\<close> takes decimal digits below \<open>2 ^ 64\<close>.\<close>

definition procStartTime :: "string \<Rightarrow> env_error + nat" where
  "procStartTime statLine =
     (case after_last CHR '')'' statLine of
        None \<Rightarrow> Inl (BadStat ''malformed stat'')
      | Some rest \<Rightarrow>
          let fields = str_fields rest in
          if length fields < 20 then Inl (BadStat ''short stat'')
          else case parse_digits (fields ! 19) of
            Some n \<Rightarrow> if n < 2 ^ 64 then Inr n else Inl (BadStat ''value out of range'')
          | None \<Rightarrow> Inl (BadStat ''invalid syntax''))"

record task_metadata =
  tm_TaskARN :: string
  tm_Containers :: "(string \<times> string) list" \<comment> \<open>\<^verbatim>\<open>DockerId\<close> and \<^verbatim>\<open>Name\<close>\<close>

record proc_entry =
  pe_Name :: string
  pe_IsDir :: bool
  pe_environ :: "string option" \<comment> \<open>the file, if it can be read\<close>
  pe_stat :: "string option"

definition metadataVar :: string where "metadataVar = ''ECS_CONTAINER_METADATA_URI_V4''"

text \<open>\<^verbatim>\<open>strconv.Atoi\<close> accepts a signed decimal that fits 64 bits.\<close>

definition is_atoi :: "string \<Rightarrow> bool" where
  "is_atoi s =
     (let (neg, ds) = (case s of c # r \<Rightarrow> if c = CHR ''-'' then (True, r) else if c = CHR ''+'' then (False, r) else (False, s)
                       | [] \<Rightarrow> (False, s))
      in case parse_digits ds of None \<Rightarrow> False | Some n \<Rightarrow> if neg then n \<le> 2 ^ 63 else n < 2 ^ 63)"

text \<open>What one entry contributes: its environment and start time, if it is a process of the container.\<close>

definition candidate :: "string \<Rightarrow> proc_entry \<Rightarrow> ((string, string) gomap \<times> nat) option" where
  "candidate dockerID e =
     (if \<not> is_atoi (pe_Name e) \<or> \<not> pe_IsDir e then None
      else case pe_environ e of
        None \<Rightarrow> None
      | Some raw \<Rightarrow>
          if length raw = 0 then None
          else let env = ParseEnviron raw in
            if \<not> contains (mstr env metadataVar) dockerID then None
            else case pe_stat e of
              None \<Rightarrow> None
            | Some st \<Rightarrow> (case procStartTime st of Inl _ \<Rightarrow> None | Inr start \<Rightarrow> Some (env, start)))"

fun scan_proc :: "string \<Rightarrow> proc_entry list \<Rightarrow> ((string, string) gomap \<times> nat) option \<Rightarrow> ((string, string) gomap \<times> nat) option" where
  "scan_proc dockerID [] best = best"
| "scan_proc dockerID (e # es) best =
     scan_proc dockerID es
       (case candidate dockerID e of
          None \<Rightarrow> best
        | Some (env, start) \<Rightarrow>
            (case best of
               None \<Rightarrow> Some (env, start)
             | Some (_, bestStart) \<Rightarrow> if start < bestStart then Some (env, start) else best))"

text \<open>The last container of the name wins.\<close>

definition docker_id :: "string \<Rightarrow> (string \<times> string) list \<Rightarrow> string" where
  "docker_id app cs = foldl (\<lambda>acc (i, n). if n = app then i else acc) '''' cs"

text \<open>
  \<^verbatim>\<open>ProcEnvReader.Read\<close>: \<open>fetch\<close> is the metadata request (a transport or decoding error, or the status and
  the document), \<open>dir\<close> the directory listing. The context is not cancelled during the scan.
\<close>

definition ProcEnvReader_Read ::
  "string \<Rightarrow> string \<Rightarrow> (string + int \<times> task_metadata) \<Rightarrow> (string + proc_entry list) \<Rightarrow> env_error + ((string, string) gomap \<times> string)" where
  "ProcEnvReader_Read url app fetch dir =
     (if url = '''' then Inl NoMetadata
      else case fetch of
        Inl e \<Rightarrow> Inl (MetadataFailed e)
      | Inr (status, md) \<Rightarrow>
          if status \<noteq> 200 then Inl (MetadataStatus status)
          else
            let dockerID = docker_id app (tm_Containers md) in
            if dockerID = '''' then Inl (NotInTask app (map snd (tm_Containers md)))
            else case dir of
              Inl e \<Rightarrow> Inl (ReadDirError e)
            | Inr entries \<Rightarrow>
                (case scan_proc dockerID entries None of
                   None \<Rightarrow> Inl (NoProcess app)
                 | Some (env, _) \<Rightarrow> Inr (env, tm_TaskARN md)))"

section \<open>Names\<close>

definition resolveTTL :: int where "resolveTTL = 30"
definition maxResolveAddrs :: nat where "maxResolveAddrs = 16"

text \<open>The answer of a lookup: addresses, each with its IPv4 form if it has one; or an error, with whether it is the
  resolver's own not-found.\<close>

fun pick_addrs :: "addr4 option list \<Rightarrow> string list \<Rightarrow> string list" where
  "pick_addrs [] out = out"
| "pick_addrs (None # ips) out = pick_addrs ips out"
| "pick_addrs (Some v4 # ips) out =
     (let s = addr_string v4 in
      if s \<in> set out then pick_addrs ips out
      else if length (out @ [s]) = maxResolveAddrs then out @ [s]
      else pick_addrs ips (out @ [s]))"

text \<open>The error text, and whether it wraps \<^verbatim>\<open>ErrNameNotFound\<close>.\<close>

definition handler_Resolve ::
  "(string \<Rightarrow> (string \<times> bool) + addr4 option list) \<Rightarrow> string \<Rightarrow> (string \<times> bool) + (string list \<times> int)" where
  "handler_Resolve lookup name =
     (case lookup name of
        Inl (e, isNotFound) \<Rightarrow>
          if isNotFound then Inl (name @ '': name not found'', True) else Inl (e, False)
      | Inr ips \<Rightarrow>
          let out = pick_addrs ips [] in
          if length out = 0 then Inl (name @ '' resolved to no IPv4 address (IPv6-only answers are not usable through tetherd): name not found'', True) else Inr (out, resolveTTL))"

section \<open>The oldest process\<close>

lemma scan_proc_acc:
  "scan_proc d es best = (case best of
     None \<Rightarrow> scan_proc d es None
   | Some (env, t) \<Rightarrow> (case scan_proc d es None of
        None \<Rightarrow> best
      | Some (env', t') \<Rightarrow> if t' < t then Some (env', t') else best))"
proof (induction es arbitrary: best)
  case Nil
  then show ?case by (simp split: option.splits prod.splits)
next
  case (Cons e es)
  show ?case
  proof (cases "candidate d e")
    case None
    then have step: "scan_proc d (e # es) b = scan_proc d es b" for b by simp
    show ?thesis unfolding step using Cons.IH[of best] .
  next
    case (Some c)
    obtain env0 t0 where c: "c = (env0, t0)" by fastforce
    then show ?thesis
      using Some Cons.IH[of "Some (env0, t0)"] Cons.IH[of best]
      by (cases best) (auto split: option.splits prod.splits)
  qed
qed

text \<open>The scan finds the first of the processes with the smallest start time.\<close>

lemma scan_proc_first:
  "scan_proc d es None = Some (env, t) \<Longrightarrow>
     \<exists>pre e post. es = pre @ e # post \<and> candidate d e = Some (env, t) \<and>
       (\<forall>x \<in> set pre. \<forall>env' t'. candidate d x = Some (env', t') \<longrightarrow> t < t') \<and>
       (\<forall>x \<in> set post. \<forall>env' t'. candidate d x = Some (env', t') \<longrightarrow> t \<le> t')"
proof (induction es arbitrary: env t)
  case (Cons e es)
  show ?case
  proof (cases "candidate d e")
    case None
    then have "scan_proc d es None = Some (env, t)" using Cons.prems by simp
    from Cons.IH[OF this] obtain pre x post where "es = pre @ x # post" "candidate d x = Some (env, t)"
      "\<forall>y \<in> set pre. \<forall>env' t'. candidate d y = Some (env', t') \<longrightarrow> t < t'"
      "\<forall>y \<in> set post. \<forall>env' t'. candidate d y = Some (env', t') \<longrightarrow> t \<le> t'" by blast
    then show ?thesis using None by (intro exI[of _ "e # pre"] exI[of _ x] exI[of _ post]) auto
  next
    case (Some c)
    obtain env0 t0 where c: "candidate d e = Some (env0, t0)" using Some by (cases c) auto
    have all: "\<And>x env' t'. x \<in> set es \<Longrightarrow> candidate d x = Some (env', t') \<Longrightarrow>
        \<exists>env1 t1. scan_proc d es None = Some (env1, t1) \<and> t1 \<le> t'"
    proof -
      fix x env' t' assume "x \<in> set es" "candidate d x = Some (env', t')"
      then show "\<exists>env1 t1. scan_proc d es None = Some (env1, t1) \<and> t1 \<le> t'"
      proof (induction es)
        case (Cons y ys)
        then show ?case
          using scan_proc_acc[of d ys "case candidate d y of None \<Rightarrow> None | Some (env, start) \<Rightarrow> Some (env, start)"]
          by (fastforce split: option.splits prod.splits if_splits)
      qed simp
    qed
    show ?thesis
    proof (cases "scan_proc d es None")
      case None
      then have "env = env0" "t = t0" using Cons.prems c scan_proc_acc[of d es "Some (env0, t0)"] by auto
      then show ?thesis using c all None by (intro exI[of _ "[]"] exI[of _ e] exI[of _ es]) auto
    next
      case (Some r)
      obtain env1 t1 where r: "scan_proc d es None = Some (env1, t1)" using Some by (cases r) auto
      show ?thesis
      proof (cases "t1 < t0")
        case True
        then have eq: "env = env1" "t = t1" using Cons.prems c r scan_proc_acc[of d es "Some (env0, t0)"] by auto
        from Cons.IH[OF r] obtain pre x post where "es = pre @ x # post" "candidate d x = Some (env1, t1)"
          "\<forall>y \<in> set pre. \<forall>env' t'. candidate d y = Some (env', t') \<longrightarrow> t1 < t'"
          "\<forall>y \<in> set post. \<forall>env' t'. candidate d y = Some (env', t') \<longrightarrow> t1 \<le> t'" by blast
        then show ?thesis using eq c True by (intro exI[of _ "e # pre"] exI[of _ x] exI[of _ post]) auto
      next
        case False
        then have eq: "env = env0" "t = t0" using Cons.prems c r scan_proc_acc[of d es "Some (env0, t0)"] by auto
        have "t0 \<le> t'" if "x \<in> set es" "candidate d x = Some (env', t')" for x env' t'
          using all[OF that] r False by auto
        then show ?thesis using eq c by (intro exI[of _ "[]"] exI[of _ e] exI[of _ es]) auto
      qed
    qed
  qed
qed simp

lemma scan_proc_None: "scan_proc d es None = None \<longleftrightarrow> (\<forall>e \<in> set es. candidate d e = None)"
proof (induction es)
  case (Cons e es)
  then show ?case using scan_proc_acc[of d es "candidate d e"] by (auto split: option.splits prod.splits if_splits)
qed simp

section \<open>The addresses of an answer\<close>

text \<open>The reference: the distinct IPv4 addresses in the order of their first occurrence, at most sixteen.\<close>

definition firsts :: "'a list \<Rightarrow> 'a list" where
  "firsts xs = rev (remdups (rev xs))"

lemma firsts_snoc: "firsts (xs @ [x]) = (if x \<in> set xs then firsts xs else firsts xs @ [x])"
  by (simp add: firsts_def)

lemma set_firsts [simp]: "set (firsts xs) = set xs" and distinct_firsts [simp]: "distinct (firsts xs)"
  by (simp_all add: firsts_def)

lemma firsts_append: "\<exists>zs. firsts (xs @ ys) = firsts xs @ zs"
proof (induction ys rule: rev_induct)
  case (snoc y ys)
  then obtain zs where "firsts (xs @ ys) = firsts xs @ zs" by blast
  then have "firsts (xs @ ys @ [y]) = firsts xs @ (if y \<in> set (xs @ ys) then zs else zs @ [y])"
    using firsts_snoc[of "xs @ ys" y] by simp
  then show ?case by blast
qed simp

definition v4_texts :: "addr4 option list \<Rightarrow> string list" where
  "v4_texts ips = List.map_filter (map_option addr_string) ips"

lemma pick_addrs_firsts:
  assumes "length (firsts seen) < maxResolveAddrs"
  shows "pick_addrs ips (firsts seen) = take maxResolveAddrs (firsts (seen @ v4_texts ips))"
  using assms
proof (induction ips arbitrary: seen)
  case Nil
  then show ?case by (simp add: v4_texts_def List.map_filter_simps)
next
  case (Cons ip ips)
  show ?case
  proof (cases ip)
    case None
    then show ?thesis using Cons by (simp add: v4_texts_def List.map_filter_simps)
  next
    case (Some v)
    let ?s = "addr_string v"
    have t: "v4_texts (ip # ips) = ?s # v4_texts ips" using Some by (simp add: v4_texts_def List.map_filter_simps)
    have sn: "firsts (seen @ [?s]) = (if ?s \<in> set seen then firsts seen else firsts seen @ [?s])" by (rule firsts_snoc)
    show ?thesis
    proof (cases "?s \<in> set seen")
      case True
      then show ?thesis using Cons.IH[of "seen @ [?s]"] Cons.prems sn Some t by (simp add: Let_def)
    next
      case False
      show ?thesis
      proof (cases "length (firsts seen @ [?s]) = maxResolveAddrs")
        case True
        obtain zs where "firsts ((seen @ [?s]) @ v4_texts ips) = firsts (seen @ [?s]) @ zs" using firsts_append by blast
        moreover have "take maxResolveAddrs (firsts seen @ [?s] @ zs) = firsts seen @ [?s]"
          using True by (simp flip: True)
        ultimately show ?thesis using True False Some t sn by (simp add: Let_def)
      next
        case notfull: False
        then show ?thesis using Cons.IH[of "seen @ [?s]"] Cons.prems sn Some t False by (simp add: Let_def)
      qed
    qed
  qed
qed

lemma pick_addrs_exact: "pick_addrs ips [] = take maxResolveAddrs (firsts (v4_texts ips))"
  using pick_addrs_firsts[of "[]" ips] by (simp add: firsts_def maxResolveAddrs_def)

section \<open>The format of environ\<close>

text \<open>What the kernel shows in \<^verbatim>\<open>/proc/<pid>/environ\<close> for an environment.\<close>

definition environ_text :: "(string, string) gomap \<Rightarrow> string" where
  "environ_text kvs = concat (map (\<lambda>(k, v). k @ ''='' @ v @ [nul]) kvs)"

definition environ_ok :: "(string, string) gomap \<Rightarrow> bool" where
  "environ_ok kvs = (wf_map kvs \<and> list_all (\<lambda>(k, v). CHR ''='' \<notin> set k \<and> nul \<notin> set k \<and> nul \<notin> set v) kvs)"

lemma parse_environ_fresh:
  assumes "environ_ok kvs" and "\<forall>k \<in> set (mkeys kvs). mget out k = None"
  shows "parse_environ (split_on nul (environ_text kvs)) out = out @ kvs"
  using assms
proof (induction kvs arbitrary: out)
  case Nil
  then show ?case by (simp add: environ_text_def)
next
  case (Cons kv kvs)
  obtain k v where kv: "kv = (k, v)" by fastforce
  have ok: "environ_ok kvs" "CHR ''='' \<notin> set k" "nul \<notin> set (k @ ''='' @ v)" "k \<notin> set (mkeys kvs)"
    using Cons.prems(1) kv by (auto simp: environ_ok_def wf_map_def mkeys_def nul_def)
  have "environ_text (kv # kvs) = (k @ ''='' @ v) @ nul # environ_text kvs" by (simp add: environ_text_def kv)
  then have s: "split_on nul (environ_text (kv # kvs)) = (k @ ''='' @ v) # split_on nul (environ_text kvs)"
    using split_on_field[OF ok(3)] by simp
  have "mput k v out = out @ [(k, v)]" using Cons.prems(2) kv by (simp add: mput_fresh)
  moreover have "\<forall>k' \<in> set (mkeys kvs). mget (out @ [(k, v)]) k' = None"
    using Cons.prems(2) ok(4) kv by (auto simp: mkeys_def map_add_def)
  ultimately show ?case using Cons.IH[OF ok(1), of "out @ [(k, v)]"] s cut_append[OF ok(2)] kv by simp
qed

lemma ParseEnviron_roundtrip: "environ_ok kvs \<Longrightarrow> ParseEnviron (environ_text kvs) = kvs"
  using parse_environ_fresh[of kvs "[]"] by (simp add: ParseEnviron_def)

section \<open>Properties\<close>


definition example_proc :: "string \<Rightarrow> string \<Rightarrow> string \<Rightarrow> proc_entry" where
  "example_proc pid app start =
     \<lparr>pe_Name = pid, pe_IsDir = True, pe_environ = Some (environ_text [(''A'', app), (metadataVar, ''http://169.254.170.2/v4/d1-1'')]),
      pe_stat = Some (''7 (a b) S 1 1 1 0 -1 4 1 1 1 1 1 1 1 1 20 0 1 0 '' @ start)\<rparr>"

lemma example_start: "procStartTime (''7 (a b) S 1 1 1 0 -1 4 1 1 1 1 1 1 1 1 20 0 1 0 '' @ ''400'') = Inr 400"
  "procStartTime (''7 (a b) S 1 1 1 0 -1 4 1 1 1 1 1 1 1 1 20 0 1 0 '' @ ''900'') = Inr 900"
  by (simp_all add: procStartTime_def after_last_def str_fields_def is_space_def parse_digits_def is_digit_def
      digit_val_def Let_def)

lemma example_candidate:
  assumes "nul \<notin> set app"
  shows "candidate ''d1'' (example_proc ''7'' app ''400'') = Some ([(''A'', app), (metadataVar, ''http://169.254.170.2/v4/d1-1'')], 400)"
    and "candidate ''d1'' (example_proc ''31'' app ''900'') = Some ([(''A'', app), (metadataVar, ''http://169.254.170.2/v4/d1-1'')], 900)"
proof -
  let ?e = "[(''A'', app), (metadataVar, ''http://169.254.170.2/v4/d1-1'')]"
  have "environ_ok ?e"
    using assms by (simp add: environ_ok_def wf_map_def mkeys_def metadataVar_def nul_def)
  then have p: "ParseEnviron (environ_text ?e) = ?e" by (rule ParseEnviron_roundtrip)
  have d: "is_atoi ''7''" "is_atoi ''31''" "length (environ_text ?e) \<noteq> 0"
    by (simp_all add: is_atoi_def parse_digits_def is_digit_def digit_val_def environ_text_def)
  have c: "contains (mstr ?e metadataVar) ''d1''" by (simp add: mstr_def metadataVar_def)
  show "candidate ''d1'' (example_proc ''7'' app ''400'') = Some (?e, 400)"
    "candidate ''d1'' (example_proc ''31'' app ''900'') = Some (?e, 900)"
    using p d c example_start by (simp_all add: candidate_def example_proc_def Let_def del: append.simps)
qed

lemma example_proc_reads:
  "ProcEnvReader_Read ''http://x'' ''app'' (Inr (200, \<lparr>tm_TaskARN = ''arn'', tm_Containers = [(''d1'', ''app'')]\<rparr>))
     (Inr [example_proc ''31'' ''child'' ''900'', example_proc ''7'' ''main'' ''400'']) =
   Inr ([(''A'', ''main''), (metadataVar, ''http://169.254.170.2/v4/d1-1'')], ''arn'')"
proof -
  have c: "candidate ''d1'' (example_proc ''7'' ''main'' ''400'') = Some ([(''A'', ''main''), (metadataVar, ''http://169.254.170.2/v4/d1-1'')], 400)"
    "candidate ''d1'' (example_proc ''31'' ''child'' ''900'') = Some ([(''A'', ''child''), (metadataVar, ''http://169.254.170.2/v4/d1-1'')], 900)"
    by (rule example_candidate; simp add: nul_def)+
  show ?thesis using c by (simp add: ProcEnvReader_Read_def docker_id_def)
qed

end
