(* ===== verification/DnsProxy.thy ===== *)
theory DnsProxy
  imports AgentEnv
begin

text \<open>
  The loopback resolver of the CLI: \<^verbatim>\<open>internal/dnsproxy/dnsproxy.go\<close>. A message is its questions and its
  reply; the DNS library's encoding and sockets are not modelled, but which sockets are open during a start that
  races a close is (\<open>life_step\<close>).
\<close>

section \<open>Messages\<close>

definition DefaultPort :: nat where "DefaultPort = 53530"

definition TypeA :: nat where "TypeA = 1"
definition ClassINET :: nat where "ClassINET = 1"

datatype rcode = RcodeSuccess | RcodeFormatError | RcodeServerFailure | RcodeNameError | RcodeNotImplemented

record question =
  q_Name :: string
  q_Qtype :: nat
  q_Qclass :: nat

record rr =
  rr_Name :: string
  rr_Ttl :: "32 word"
  rr_A :: addr4

record dns_reply =
  d_Rcode :: rcode
  d_Answer :: "rr list"

section \<open>One question\<close>

definition trimDot :: "string \<Rightarrow> string" where
  "trimDot name = (if 1 < length name \<and> last name = CHR ''.'' then butlast name else name)"

text \<open>What a resolver does with a name: it answers, fails, panics, or does not return before the deadline.\<close>

datatype resolution =
    Answers "string list" int
  | Fails bool \<comment> \<open>whether the error is \<^verbatim>\<open>ErrNameNotFound\<close>\<close>
  | Panics
  | Hangs

definition resolveBounded :: "(string \<Rightarrow> resolution) \<Rightarrow> string \<Rightarrow> bool + (string list \<times> int)" where
  "resolveBounded resolve name =
     (case resolve name of
        Answers addrs ttl \<Rightarrow> Inr (addrs, ttl)
      | Fails notFound \<Rightarrow> Inl notFound
      | Panics \<Rightarrow> Inl False
      | Hangs \<Rightarrow> Inl False)"

text \<open>
  \<^verbatim>\<open>net.ParseIP(a).To4()\<close>: a dotted IPv4 address, or an IPv6 text of an IPv4 address, which is a parameter.
\<close>

definition parseIP4 :: "(string \<Rightarrow> addr4 option) \<Rightarrow> string \<Rightarrow> addr4 option" where
  "parseIP4 mapped a = (case parse_addr4 a of Some v4 \<Rightarrow> Some v4 | None \<Rightarrow> mapped a)"

definition handle_query :: "(string \<Rightarrow> addr4 option) \<Rightarrow> (string \<Rightarrow> resolution) \<Rightarrow> question list \<Rightarrow> dns_reply" where
  "handle_query mapped resolve qs =
     (case qs of
        [q] \<Rightarrow>
          if q_Qtype q \<noteq> TypeA \<or> q_Qclass q \<noteq> ClassINET then \<lparr>d_Rcode = RcodeNotImplemented, d_Answer = []\<rparr>
          else
            (case resolveBounded resolve (trimDot (q_Name q)) of
               Inl notFound \<Rightarrow>
                 if notFound then \<lparr>d_Rcode = RcodeNameError, d_Answer = []\<rparr>
                 else \<lparr>d_Rcode = RcodeServerFailure, d_Answer = []\<rparr>
             | Inr (addrs, ttl) \<Rightarrow>
                 let ttl' = (if ttl \<le> 0 then 30 else ttl);
                     answer = map (\<lambda>v4. \<lparr>rr_Name = q_Name q, rr_Ttl = of_int ttl', rr_A = v4\<rparr>)
                                (List.map_filter (parseIP4 mapped) addrs)
                 in \<lparr>d_Rcode = (if answer = [] then RcodeNameError else RcodeSuccess), d_Answer = answer\<rparr>)
      | _ \<Rightarrow> \<lparr>d_Rcode = RcodeFormatError, d_Answer = []\<rparr>)"

text \<open>The handler with its recover: a panic of the body itself is answered with a server failure.\<close>

definition handle_recovering :: "dns_reply option \<Rightarrow> dns_reply" where
  "handle_recovering body =
     (case body of Some reply \<Rightarrow> reply | None \<Rightarrow> \<lparr>d_Rcode = RcodeServerFailure, d_Answer = []\<rparr>)"

section \<open>Starting and closing\<close>

text \<open>
  One call of \<^verbatim>\<open>StartPreferring\<close>, whose second attempt asks for any port, while \<^verbatim>\<open>Close\<close> may run at any
  moment and more than once. \<open>dl_open\<close> counts the sockets that are open; the server holds the pair of them
  between the commit of \<^verbatim>\<open>Start\<close> and \<^verbatim>\<open>Close\<close>.
\<close>

datatype phase = Begin bool | UdpBound bool | BothBound bool | Started bool \<comment> \<open>whether this is the retry; the outcome\<close>

record life =
  dl_phase :: phase
  dl_closed :: bool
  dl_held :: bool
  dl_open :: nat

definition life_start :: life where
  "life_start = \<lparr>dl_phase = Begin False, dl_closed = False, dl_held = False, dl_open = 0\<rparr>"

text \<open>A failed attempt: retried once.\<close>

definition attempt_failed :: "bool \<Rightarrow> phase" where
  "attempt_failed retry = (if retry then Started False else Begin True)"

definition start_commit :: "bool \<Rightarrow> life \<Rightarrow> life" where
  "start_commit retry l =
     (if dl_closed l then l\<lparr>dl_phase := attempt_failed retry, dl_open := dl_open l - 2\<rparr>
      else l\<lparr>dl_phase := Started True, dl_held := True\<rparr>)"

definition life_Close :: "life \<Rightarrow> life" where
  "life_Close l =
     (if dl_closed l then l
      else if dl_held l then l\<lparr>dl_closed := True, dl_held := False, dl_open := dl_open l - 2\<rparr>
      else l\<lparr>dl_closed := True\<rparr>)"

inductive life_step :: "life \<Rightarrow> life \<Rightarrow> bool" where
  udp_ok: "dl_phase l = Begin r \<Longrightarrow> life_step l (l\<lparr>dl_phase := UdpBound r, dl_open := dl_open l + 1\<rparr>)"
| udp_fails: "dl_phase l = Begin r \<Longrightarrow> life_step l (l\<lparr>dl_phase := attempt_failed r\<rparr>)"
| tcp_ok: "dl_phase l = UdpBound r \<Longrightarrow> life_step l (l\<lparr>dl_phase := BothBound r, dl_open := dl_open l + 1\<rparr>)"
| tcp_fails: "dl_phase l = UdpBound r \<Longrightarrow> life_step l (l\<lparr>dl_phase := attempt_failed r, dl_open := dl_open l - 1\<rparr>)"
| bad_addr: "dl_phase l = BothBound r \<Longrightarrow> life_step l (l\<lparr>dl_phase := attempt_failed r, dl_open := dl_open l - 2\<rparr>)"
| commit: "dl_phase l = BothBound r \<Longrightarrow> life_step l (start_commit r l)"
| close: "life_step l (life_Close l)"

inductive life_reachable :: "life \<Rightarrow> bool" where
  life_init: "life_reachable life_start"
| life_next: "life_reachable l \<Longrightarrow> life_step l l' \<Longrightarrow> life_reachable l'"

text \<open>What is open is what the attempt under way has bound, or what the server holds.\<close>

fun bound_sockets :: "phase \<Rightarrow> nat" where
  "bound_sockets (Begin _) = 0"
| "bound_sockets (UdpBound _) = 1"
| "bound_sockets (BothBound _) = 2"
| "bound_sockets (Started _) = 0"

definition life_inv :: "life \<Rightarrow> bool" where
  "life_inv l \<longleftrightarrow>
     dl_open l = bound_sockets (dl_phase l) + (if dl_held l then 2 else 0) \<and>
     (dl_held l \<longrightarrow> dl_phase l = Started True \<and> \<not> dl_closed l) \<and>
     (dl_phase l = Started True \<longrightarrow> dl_held l \<or> dl_closed l)"

lemma life_step_inv: "life_step l l' \<Longrightarrow> life_inv l \<Longrightarrow> life_inv l'"
  by (induction rule: life_step.induct)
     (auto simp: life_inv_def attempt_failed_def start_commit_def life_Close_def split: if_splits)

lemma life_reachable_inv: "life_reachable l \<Longrightarrow> life_inv l"
proof (induction rule: life_reachable.induct)
  case life_init
  then show ?case by (simp add: life_inv_def life_start_def)
qed (rule life_step_inv)



section \<open>From the child's question to the task's resolver and back\<close>

text \<open>The resolver of a run: the question travels over a session to the agent's handler.\<close>

definition session_resolve ::
  "(string \<Rightarrow> string option) \<Rightarrow> (string \<Rightarrow> (string \<times> bool) + addr4 option list) \<Rightarrow> string \<Rightarrow> resolution" where
  "session_resolve dial lookup n =
     (case Resolve None False (Inr (hd (fst (serveStream dial (handler_Resolve lookup) True (Inr (LResolve n ''A'')))))) n of
        Inr (addrs, ttl) \<Rightarrow> Answers addrs ttl
      | Inl (NotFound _) \<Rightarrow> Fails True
      | Inl _ \<Rightarrow> Fails False)"

lemma resolve_over_wire:
  "session_resolve dial lookup n =
     (case handler_Resolve lookup n of Inr (addrs, ttl) \<Rightarrow> Answers addrs ttl | Inl (e, nf) \<Rightarrow> Fails nf)"
  by (auto simp: session_resolve_def Resolve_def serveStream_def type_defs resolve_ok_def resolve_failed_def Let_def
      split: sum.splits prod.splits)

lemma remdups_map_inj: "inj f \<Longrightarrow> remdups (map f xs) = map f (remdups xs)"
  by (induction xs) (auto dest: injD)

lemma firsts_map_inj: "inj f \<Longrightarrow> firsts (map f xs) = map f (firsts xs)"
  by (simp add: firsts_def rev_map remdups_map_inj)

definition v4s :: "addr4 option list \<Rightarrow> addr4 list" where
  "v4s ips = List.map_filter id ips"

lemma v4_texts_v4s: "v4_texts ips = map addr_string (v4s ips)"
  by (induction ips) (auto simp: v4_texts_def v4s_def List.map_filter_simps split: option.splits)

lemma map_filter_parse: "List.map_filter (parseIP4 mapped) (map addr_string vs) = vs"
  by (induction vs) (auto simp: List.map_filter_simps parseIP4_def)


text \<open>
  Whatever a local process sends the resolver, there is one reply, and it is a success exactly when it carries
  answers.
\<close>

lemma reply_success_iff: "d_Rcode (handle_query mapped resolve qs) = RcodeSuccess \<longleftrightarrow> d_Answer (handle_query mapped resolve qs) \<noteq> []"
  by (auto simp: handle_query_def Let_def split: list.splits sum.splits prod.splits)
end
