(* ===== verification/RemoteSet.thy ===== *)
theory RemoteSet
  imports CliOptions Netip
begin

unbundle bit_operations_syntax

text \<open>
  The set of ranges \<^verbatim>\<open>tetherd run\<close> captures: \<^verbatim>\<open>ParseRemoteCIDRs\<close>,
  \<^verbatim>\<open>subtractOne\<close>, \<^verbatim>\<open>Subtract\<close>, \<^verbatim>\<open>applyLocalCIDRs\<close>, \<^verbatim>\<open>remoteSet\<close> and
  \<^verbatim>\<open>LocalOverlaps\<close> of \<^verbatim>\<open>internal/cli/run.go\<close>. The provider's answers
  (\<^verbatim>\<open>VPCCIDRs\<close>, \<^verbatim>\<open>ServiceCIDRs\<close>) are arguments.
\<close>

section \<open>Parsing\<close>

text \<open>A prefix that does not parse and one that is not IPv4 are both refused as a usage error.\<close>

fun ParseRemoteCIDRs :: "string \<Rightarrow> string list \<Rightarrow> cli_error + prefix list" where
  "ParseRemoteCIDRs source [] = Inr []"
| "ParseRemoteCIDRs source (s # ss) =
     (case parse_prefix4 s of
        None \<Rightarrow> Inl (UsageError (source @ '' '' @ quoted s))
      | Some p \<Rightarrow>
          (case ParseRemoteCIDRs source ss of
             Inl e \<Rightarrow> Inl e
           | Inr ps \<Rightarrow> Inr (masked p # ps)))"

section \<open>Subtraction\<close>

text \<open>
  The upper half of a prefix: the byte and bit \<^verbatim>\<open>subtractOne\<close> sets in the four-byte address, as a
  bit of the word (byte 0 is the most significant).
\<close>

definition upper_addr :: "addr4 \<Rightarrow> nat \<Rightarrow> addr4" where
  "upper_addr a bs =
     (let byteIdx = (bs - 1) div 8; bitIdx = 7 - (bs - 1) mod 8 in
      a OR push_bit (8 * (3 - byteIdx) + bitIdx) 1)"

function subtractOne :: "prefix \<Rightarrow> prefix \<Rightarrow> prefix list" where
  "subtractOne p e =
     (case p of
        Prefix6 _ _ \<Rightarrow> []
      | Prefix4 a n \<Rightarrow>
          if \<not> overlaps e p then [p]
          else if bits e \<le> n then []
          else subtractOne (Prefix4 a (n + 1)) e @ subtractOne (Prefix4 (upper_addr a (n + 1)) (n + 1)) e)"
  by pat_completeness auto
termination
  by (relation "measure (\<lambda>(p, e). bits e - bits p)") auto

declare subtractOne.simps [simp del]

fun Subtract :: "prefix list \<Rightarrow> prefix list \<Rightarrow> prefix list" where
  "Subtract cur [] = cur"
| "Subtract cur (e # exclude) = Subtract (concat (map (\<lambda>p. subtractOne p e) cur)) exclude"

section \<open>The captured set\<close>

definition TaskRoleCIDR :: prefix where
  "TaskRoleCIDR = Prefix4 (of_octets 169 254 170 0) 24"

definition credentialRouteFloor :: "RunOptions \<Rightarrow> prefix list" where
  "credentialRouteFloor opts = (if \<not> o_PinCredentialRoute opts then [] else [TaskRoleCIDR])"

definition errNoRemoteCIDRs :: string where
  "errNoRemoteCIDRs = ''no IPv4 ranges to capture; tetherd v1 captures IPv4 only''"

definition errLocalCIDRsExcludeEverything :: string where
  "errLocalCIDRsExcludeEverything =
     ''network.local_cidrs excludes the entire remote set; nothing would be captured''"

definition applyLocalCIDRs :: "prefix list \<Rightarrow> prefix list \<Rightarrow> prefix list \<Rightarrow> cli_error + prefix list" where
  "applyLocalCIDRs cidrs loc floor =
     (if length cidrs = 0 then Inl (UsageError errNoRemoteCIDRs)
      else
        let kept = Subtract cidrs loc in
        if 0 < length cidrs \<and> length kept = 0 then Inl (UsageError errLocalCIDRsExcludeEverything)
        else
          let out = kept @ floor in
          if length out = 0 then Inl (UsageError errLocalCIDRsExcludeEverything) else Inr out)"

text \<open>\<^verbatim>\<open>remoteSet\<close>: \<open>vpc\<close> and \<open>services\<close> answer the provider's calls.\<close>

definition remoteSet ::
  "(string \<Rightarrow> cli_error + prefix list) \<Rightarrow> (string list \<Rightarrow> cli_error + prefix list) \<Rightarrow> RunOptions \<Rightarrow> task \<Rightarrow>
   cli_error + prefix list" where
  "remoteSet vpc services opts tk =
     (case ParseRemoteCIDRs ''--remote-cidr'' (o_RemoteCIDRs opts) of
        Inl e \<Rightarrow> Inl e
      | Inr extra \<Rightarrow>
        (case ParseRemoteCIDRs ''network.local_cidrs'' (o_LocalCIDRs opts) of
           Inl e \<Rightarrow> Inl e
         | Inr loc \<Rightarrow>
           (case vpc (t_SubnetID tk) of
              Inl e \<Rightarrow> Inl e
            | Inr v \<Rightarrow>
              let cidrs = v @ extra in
              if 0 < length (o_RemoteServices opts) then
                (case services (o_RemoteServices opts) of
                   Inl e \<Rightarrow> Inl e
                 | Inr svc \<Rightarrow> applyLocalCIDRs (cidrs @ svc) loc (credentialRouteFloor opts))
              else applyLocalCIDRs cidrs loc (credentialRouteFloor opts))))"

text \<open>
  The laptop's addresses as \<^verbatim>\<open>net.InterfaceAddrs\<close> lists them: an IPv4 address (also one in
  its IPv6-mapped form), an IPv6 address, or an entry that is no \<^verbatim>\<open>*net.IPNet\<close>.
\<close>

datatype iface_addr = If4 addr4 | If6 | IfOther

definition is_loopback4 :: "addr4 \<Rightarrow> bool" where
  "is_loopback4 a = (octet a 3 = 127)"

fun LocalOverlaps :: "prefix list \<Rightarrow> iface_addr list \<Rightarrow> (prefix \<times> addr4) list" where
  "LocalOverlaps cidrs [] = []"
| "LocalOverlaps cidrs (If4 ip # as) =
     (if is_loopback4 ip then LocalOverlaps cidrs as
      else map (\<lambda>c. (c, ip)) (filter (\<lambda>c. prefix_contains c ip) cidrs) @ LocalOverlaps cidrs as)"
| "LocalOverlaps cidrs (If6 # as) = LocalOverlaps cidrs as"
| "LocalOverlaps cidrs (IfOther # as) = LocalOverlaps cidrs as"

section \<open>Lemmas\<close>

lemma masked_canonical: "wf_prefix p \<Longrightarrow> canonical (masked p)"
  by (cases p) (auto simp: wf_prefix_def canonical_def net4_def and.assoc)

lemma masked_pset: "pset (masked p) = pset p"
proof (cases p)
  case (Prefix4 a n)
  have "net4 (net4 a n) n = net4 a n" by (simp add: net4_def and.assoc)
  with Prefix4 show ?thesis by (simp add: pset_def prefix_contains_def)
qed (simp add: pset_def prefix_contains_def)

lemma parse_prefix4_wf: "parse_prefix4 s = Some p \<Longrightarrow> wf_prefix p"
  by (auto simp: parse_prefix4_def wf_prefix_def split: option.splits if_splits)

lemma ParseRemoteCIDRs_canonical: "ParseRemoteCIDRs source ss = Inr ps \<Longrightarrow> list_all canonical ps"
  by (induction ss arbitrary: ps)
     (auto simp: masked_canonical parse_prefix4_wf split: option.splits sum.splits)

lemma ParseRemoteCIDRs_usage: "ParseRemoteCIDRs source ss = Inl e \<Longrightarrow> isUsageError e"
  by (induction ss arbitrary: e) (auto simp: split: option.splits sum.splits)

text \<open>The bit \<^verbatim>\<open>subtractOne\<close> sets is the first one after the old prefix length.\<close>

lemma upper_addr_bit:
  assumes "n < 32"
  shows "bit (upper_addr a (n + 1)) i \<longleftrightarrow> bit a i \<or> i = 31 - n"
proof -
  have "n div 8 \<le> 3" using assms by simp
  then have "8 * (3 - n div 8) + (7 - n mod 8) = 31 - n"
    using assms by presburger
  then show ?thesis
    using assms by (auto simp: upper_addr_def Let_def bit_or_iff bit_exp_iff)
qed

lemmas upper_addr_bit_Suc = upper_addr_bit[unfolded Suc_eq_plus1[symmetric]]

lemma halves:
  assumes "canonical (Prefix4 a n)" and "n < 32"
  shows "canonical (Prefix4 a (n + 1))" and "canonical (Prefix4 (upper_addr a (n + 1)) (n + 1))"
    and "pset (Prefix4 a n) = pset (Prefix4 a (n + 1)) \<union> pset (Prefix4 (upper_addr a (n + 1)) (n + 1))"
    and "pset (Prefix4 a (n + 1)) \<inter> pset (Prefix4 (upper_addr a (n + 1)) (n + 1)) = {}"
proof -
  have low: "\<not> bit a i" if "i < 32 - n" for i using assms(1) that by (simp add: canonical_bits)
  show "canonical (Prefix4 a (n + 1))"
    using assms(2) low by (auto simp: canonical_bits)
  show "canonical (Prefix4 (upper_addr a (n + 1)) (n + 1))"
    using assms(2) low by (auto simp: canonical_bits upper_addr_bit_Suc[OF assms(2)])
  have split: "(\<forall>i<32. 32 - n \<le> i \<longrightarrow> P i) \<and> P (31 - n) \<longleftrightarrow> (\<forall>i<32. 32 - (n + 1) \<le> i \<longrightarrow> P i)" for P
  proof -
    have "32 - (n + 1) \<le> i \<longleftrightarrow> 32 - n \<le> i \<or> i = 31 - n" for i using assms(2) by auto
    moreover have "31 - n < 32" by simp
    ultimately show ?thesis by blast
  qed
  have lo: "x \<in> pset (Prefix4 a (n + 1)) \<longleftrightarrow> x \<in> pset (Prefix4 a n) \<and> \<not> bit x (31 - n)" for x
    unfolding in_pset using split[of "\<lambda>i. bit x i = bit a i"] low[of "31 - n"] assms(2) by auto
  have up: "x \<in> pset (Prefix4 (upper_addr a (n + 1)) (n + 1)) \<longleftrightarrow> x \<in> pset (Prefix4 a n) \<and> bit x (31 - n)" for x
    unfolding in_pset upper_addr_bit[OF assms(2)]
    using split[of "\<lambda>i. bit x i = (bit a i \<or> i = 31 - n)"] low[of "31 - n"] assms(2) by auto
  show "pset (Prefix4 a n) = pset (Prefix4 a (n + 1)) \<union> pset (Prefix4 (upper_addr a (n + 1)) (n + 1))"
    using lo up by auto
  show "pset (Prefix4 a (n + 1)) \<inter> pset (Prefix4 (upper_addr a (n + 1)) (n + 1)) = {}"
    using lo up by auto
qed

text \<open>The address set of a subtraction, and the shape of its pieces.\<close>

lemma subtractOne_spec:
  assumes "canonical p" and "wf_prefix e"
  shows "psets (subtractOne p e) = pset p - pset e \<and> list_all canonical (subtractOne p e)"
  using assms
proof (induction p e rule: subtractOne.induct)
  case (1 p e)
  then obtain a n where p: "p = Prefix4 a n" by (cases p) (auto simp: canonical_def wf_prefix_def)
  have wp: "wf_prefix p" using 1(3) by (rule canonical_wf)
  consider "\<not> overlaps e p" | "overlaps e p" "bits e \<le> n" | "overlaps e p" "\<not> bits e \<le> n" by blast
  then show ?case
  proof cases
    case 1
    then have "pset p \<inter> pset e = {}" using overlaps_sets[OF \<open>wf_prefix e\<close> wp] by blast
    then show ?thesis using 1 \<open>canonical p\<close> p by (auto simp: subtractOne.simps)
  next
    case 2
    then have "pset p \<subseteq> pset e" using wider_covers[OF wp \<open>wf_prefix e\<close>] p by simp
    then show ?thesis using 2 p by (auto simp: subtractOne.simps)
  next
    case 3
    then have n: "n < 32" using \<open>wf_prefix e\<close> by (simp add: wf_prefix_def)
    note h = halves[OF \<open>canonical p\<close>[unfolded p] n]
    note ih = 1(1)[OF p _ _ h(1) \<open>wf_prefix e\<close>] 1(2)[OF p _ _ h(2) \<open>wf_prefix e\<close>]
    have eq: "subtractOne p e =
        subtractOne (Prefix4 a (n + 1)) e @ subtractOne (Prefix4 (upper_addr a (n + 1)) (n + 1)) e"
      using 3 p by (subst subtractOne.simps) simp
    show ?thesis unfolding eq using ih 3 h(3) p by auto
  qed
qed

lemma subtract_all_spec:
  assumes "list_all canonical ps" and "wf_prefix e"
  shows "psets (concat (map (\<lambda>p. subtractOne p e) ps)) = psets ps - pset e \<and>
         list_all canonical (concat (map (\<lambda>p. subtractOne p e) ps))"
  using assms(1)
proof (induction ps)
  case (Cons p ps)
  with subtractOne_spec[OF _ assms(2), of p] show ?case by auto
qed simp

lemma Subtract_spec:
  assumes "list_all canonical ps" and "list_all wf_prefix exclude"
  shows "psets (Subtract ps exclude) = psets ps - psets exclude \<and> list_all canonical (Subtract ps exclude)"
  using assms
proof (induction ps exclude rule: Subtract.induct)
  case (2 ps e exclude)
  with subtract_all_spec[of ps e] show ?case by auto
qed auto

text \<open>The pieces never overlap each other: no address is captured twice.\<close>

fun disjoint_list :: "prefix list \<Rightarrow> bool" where
  "disjoint_list [] = True"
| "disjoint_list (p # ps) = ((\<forall>q \<in> set ps. pset p \<inter> pset q = {}) \<and> disjoint_list ps)"

lemma disjoint_list_append:
  "disjoint_list (ps @ qs) \<longleftrightarrow> disjoint_list ps \<and> disjoint_list qs \<and> psets ps \<inter> psets qs = {}"
  by (induction ps) (auto simp: psets_def)

lemma subtractOne_disjoint:
  assumes "canonical p" and "wf_prefix e"
  shows "disjoint_list (subtractOne p e)"
  using assms
proof (induction p e rule: subtractOne.induct)
  case (1 p e)
  then obtain a n where p: "p = Prefix4 a n" by (cases p) (auto simp: canonical_def wf_prefix_def)
  show ?case
  proof (cases "overlaps e p \<and> \<not> bits e \<le> n")
    case True
    then have n: "n < 32" using \<open>wf_prefix e\<close> by (simp add: wf_prefix_def)
    note h = halves[OF \<open>canonical p\<close>[unfolded p] n]
    note ih = 1(1)[OF p _ _ h(1) \<open>wf_prefix e\<close>] 1(2)[OF p _ _ h(2) \<open>wf_prefix e\<close>]
    have eq: "subtractOne p e =
        subtractOne (Prefix4 a (n + 1)) e @ subtractOne (Prefix4 (upper_addr a (n + 1)) (n + 1)) e"
      using True p by (subst subtractOne.simps) simp
    show ?thesis
      unfolding eq disjoint_list_append
      using ih True subtractOne_spec[OF h(1) \<open>wf_prefix e\<close>] subtractOne_spec[OF h(2) \<open>wf_prefix e\<close>] h(4) p
      by auto
  qed (auto simp: p subtractOne.simps)
qed

lemma narrower_in_one_half:
  assumes "canonical (Prefix4 a n)" and "wf_prefix e" and "n < bits e"
    and "overlaps e (Prefix4 a (n + 1))"
  shows "\<not> overlaps e (Prefix4 (upper_addr a (n + 1)) (n + 1))"
proof
  assume up: "overlaps e (Prefix4 (upper_addr a (n + 1)) (n + 1))"
  have n: "n < 32" using assms(2,3) by (simp add: wf_prefix_def)
  note h = halves[OF assms(1) n]
  have "pset e \<subseteq> pset (Prefix4 a (n + 1))" "pset e \<subseteq> pset (Prefix4 (upper_addr a (n + 1)) (n + 1))"
    using wider_covers[OF assms(2) canonical_wf[OF h(1)]] wider_covers[OF assms(2) canonical_wf[OF h(2)]]
      assms(3,4) up by (simp_all add: overlaps_sym)
  moreover have "pset e \<noteq> {}"
    using assms(4) overlaps_sets[OF assms(2) canonical_wf[OF h(1)]] by blast
  ultimately show False using h(4) by blast
qed

text \<open>A subtraction leaves at most one piece per bit of difference.\<close>

lemma subtractOne_length:
  assumes "canonical p" and "wf_prefix e"
  shows "length (subtractOne p e) \<le> max 1 (bits e - bits p)"
  using assms
proof (induction p e rule: subtractOne.induct)
  case (1 p e)
  then obtain a n where p: "p = Prefix4 a n" by (cases p) (auto simp: canonical_def wf_prefix_def)
  let ?lo = "Prefix4 a (n + 1)" and ?up = "Prefix4 (upper_addr a (n + 1)) (n + 1)"
  show ?case
  proof (cases "overlaps e p \<and> \<not> bits e \<le> n")
    case True
    then have n: "n < 32" using \<open>wf_prefix e\<close> by (simp add: wf_prefix_def)
    note h = halves[OF \<open>canonical p\<close>[unfolded p] n]
    note ih = 1(1)[OF p _ _ h(1) \<open>wf_prefix e\<close>] 1(2)[OF p _ _ h(2) \<open>wf_prefix e\<close>]
    have half: "length (subtractOne q e) \<le> (if overlaps e q then bits e - (n + 1) else 1)"
      if "q = ?lo \<or> q = ?up" for q
    proof -
      consider "\<not> overlaps e q" | "overlaps e q" "bits e \<le> n + 1" | "overlaps e q" "\<not> bits e \<le> n + 1" by blast
      then show ?thesis
      proof cases
        case 3
        with that ih True p show ?thesis by auto
      qed (use that in \<open>auto simp: subtractOne.simps[of q]\<close>)
    qed
    have eq: "subtractOne p e = subtractOne ?lo e @ subtractOne ?up e"
      using True p by (subst subtractOne.simps) simp
    have one: "\<not> (overlaps e ?lo \<and> overlaps e ?up)" "overlaps e ?lo \<or> overlaps e ?up"
      using narrower_in_one_half[OF \<open>canonical p\<close>[unfolded p] \<open>wf_prefix e\<close>] True p
        overlaps_sets[OF \<open>wf_prefix e\<close> canonical_wf[OF \<open>canonical p\<close>]] h(3)
        overlaps_sets[OF \<open>wf_prefix e\<close> canonical_wf[OF h(1)]] overlaps_sets[OF \<open>wf_prefix e\<close> canonical_wf[OF h(2)]]
      by auto
    show ?thesis
      unfolding eq using half[of ?lo] half[of ?up] one True p by (auto split: if_splits)
  qed (auto simp: p subtractOne.simps)
qed

lemma applyLocalCIDRs_Inr:
  "applyLocalCIDRs cidrs loc floor = Inr out \<longleftrightarrow>
     cidrs \<noteq> [] \<and> Subtract cidrs loc \<noteq> [] \<and> out = Subtract cidrs loc @ floor"
  by (auto simp: applyLocalCIDRs_def Let_def)

lemma applyLocalCIDRs_Inl: "applyLocalCIDRs cidrs loc floor = Inl e \<Longrightarrow> isUsageError e"
  by (auto simp: applyLocalCIDRs_def Let_def split: if_splits)

lemma remoteSet_Inr:
  "remoteSet vpc services opts tk = Inr out \<Longrightarrow>
   \<exists>extra loc v svc.
    ParseRemoteCIDRs ''--remote-cidr'' (o_RemoteCIDRs opts) = Inr extra \<and>
    ParseRemoteCIDRs ''network.local_cidrs'' (o_LocalCIDRs opts) = Inr loc \<and>
    vpc (t_SubnetID tk) = Inr v \<and>
    (if o_RemoteServices opts = [] then svc = [] else services (o_RemoteServices opts) = Inr svc) \<and>
    applyLocalCIDRs (v @ extra @ svc) loc (credentialRouteFloor opts) = Inr out"
  unfolding remoteSet_def Let_def
  by (auto split: sum.splits if_splits)

section \<open>Properties\<close>

text \<open>C11: \<^verbatim>\<open>Subtract\<close> computes the exact set difference: an address is covered by the result if and
  only if it is covered by the given prefixes and by none of the excluded ones, and the result is a list of
  canonical prefixes.\<close>

theorem subtract_is_set_difference:
  assumes "list_all canonical cidrs" and "list_all wf_prefix exclude"
  shows "psets (Subtract cidrs exclude) = psets cidrs - psets exclude \<and> list_all canonical (Subtract cidrs exclude)"
  by (rule Subtract_spec[OF assms])

definition vpc16 :: prefix where "vpc16 = Prefix4 (of_octets 10 0 0 0) 16"
definition upper17 :: prefix where "upper17 = Prefix4 (of_octets 10 0 128 0) 17"

lemmas example_prefix_defs = vpc16_def upper17_def net4_def of_octets_def mask_numeral

lemma vpc16_canonical: "canonical vpc16" and upper17_canonical: "canonical upper17"
  by (simp_all add: canonical_def wf_prefix_def example_prefix_defs)

theorem subtract_is_set_difference_witness:
  "psets (Subtract [vpc16] [upper17]) = pset vpc16 - pset upper17 \<and>
   Subtract [vpc16] [upper17] = [Prefix4 (of_octets 10 0 0 0) 17]"
proof -
  have "Subtract [vpc16] [upper17] = [Prefix4 (of_octets 10 0 0 0) 17]"
    by (simp add: example_prefix_defs subtractOne.simps upper_addr_def Let_def)
  then show ?thesis
    using subtract_is_set_difference[of "[vpc16]" "[upper17]"] vpc16_canonical canonical_wf[OF upper17_canonical]
    by simp
qed

text \<open>Carving one prefix out of another leaves pairwise disjoint pieces, at most one for every bit by
  which the excluded prefix is longer, so never more than 32.\<close>

lemma subtractOne_pieces:
  assumes "canonical p" and "wf_prefix e"
  shows "disjoint_list (subtractOne p e) \<and> length (subtractOne p e) \<le> max 1 (bits e - bits p) \<and>
         length (subtractOne p e) \<le> 32"
  using subtractOne_disjoint[OF assms] subtractOne_length[OF assms] assms(2)
  by (auto simp: wf_prefix_def max_def split: if_splits)


definition pinned_options :: RunOptions where
  "pinned_options = zero_options\<lparr>o_PinCredentialRoute := True\<rparr>"


text \<open>A wrong value in \<^verbatim>\<open>--remote-cidr\<close> or \<^verbatim>\<open>network.local_cidrs\<close>, or a set in which
  nothing is left to capture, always ends the command with exit code 2, whatever the provider would have
  answered.\<close>

lemma bad_cidrs_exit_2:
  "(\<forall>e. ParseRemoteCIDRs ''--remote-cidr'' (o_RemoteCIDRs opts) = Inl e \<or>
        (\<exists>ps. ParseRemoteCIDRs ''--remote-cidr'' (o_RemoteCIDRs opts) = Inr ps \<and>
              ParseRemoteCIDRs ''network.local_cidrs'' (o_LocalCIDRs opts) = Inl e) \<longrightarrow>
        remoteSet vpc services opts tk = Inl e \<and> exitFor e = 2) \<and>
   (\<forall>cidrs loc floor e. applyLocalCIDRs cidrs loc floor = Inl e \<longrightarrow> exitFor e = 2)"
  by (auto simp: remoteSet_def exitFor_def dest: ParseRemoteCIDRs_usage applyLocalCIDRs_Inl)

end
