(* ===== verification/SessionSet.thy ===== *)
theory SessionSet
  imports CliOptions
begin

text \<open>
  The sessions of one \<^verbatim>\<open>tetherd run\<close>: \<^verbatim>\<open>internal/cli/sessionset.go\<close>,
  \<^verbatim>\<open>follow.go\<close> and the \<^verbatim>\<open>sessionLoss\<close> counter of \<^verbatim>\<open>run.go\<close>. A
  \<^verbatim>\<open>*session.Client\<close> is a number; \<open>ss_done\<close> holds the clients whose
  \<^verbatim>\<open>Done\<close> has fired, by themselves or through \<^verbatim>\<open>Close\<close>. The abstract view of a set
  is the finite map from task ids to sessions, \<open>abs_set\<close>.
\<close>

section \<open>The set\<close>

type_synonym attached = "task \<times> nat"

record sset =
  ss_entries :: "attached list"
  ss_done :: "nat set"

abbreviation entry_id :: "attached \<Rightarrow> string" where
  "entry_id e \<equiv> t_ID (fst e)"

definition close_all :: "nat list \<Rightarrow> sset \<Rightarrow> sset" where
  "close_all ss st = st\<lparr>ss_done := ss_done st \<union> set ss\<rparr>"

definition Has :: "sset \<Rightarrow> string \<Rightarrow> bool" where
  "Has st taskID = list_ex (\<lambda>e. entry_id e = taskID) (ss_entries st)"

definition Add :: "task \<Rightarrow> nat \<Rightarrow> sset \<Rightarrow> sset \<times> bool" where
  "Add tk sess st =
     (if list_ex (\<lambda>e. entry_id e = t_ID tk) (ss_entries st) then (close_all [sess] st, False)
      else
        let es = sort_key (\<lambda>e. t_StartedAt (fst e)) (ss_entries st @ [(tk, sess)]) in
        (st\<lparr>ss_entries := es\<rparr>, entry_id (hd es) = t_ID tk))"

text \<open>\<^verbatim>\<open>dropLocked\<close>: the removed entries, the set without them, and a change of primary.\<close>

definition dropLocked :: "(attached \<Rightarrow> bool) \<Rightarrow> sset \<Rightarrow> sset \<times> attached list \<times> (string \<times> string) option" where
  "dropLocked dropp st =
     (let was = (case ss_entries st of [] \<Rightarrow> '''' | e # _ \<Rightarrow> entry_id e);
          removed = filter dropp (ss_entries st);
          kept = filter (\<lambda>e. \<not> dropp e) (ss_entries st)
      in (st\<lparr>ss_entries := kept\<rparr>, removed,
          case kept of [] \<Rightarrow> None | e # _ \<Rightarrow> if entry_id e \<noteq> was then Some (was, entry_id e) else None))"

text \<open>The three removals close what they drop; the last component is the promotion they announce.\<close>

definition Remove :: "string \<Rightarrow> sset \<Rightarrow> sset \<times> bool \<times> (string \<times> string) option" where
  "Remove taskID st =
     (case dropLocked (\<lambda>e. entry_id e = taskID) st of
        (st', removed, promo) \<Rightarrow>
          if removed = [] then (st', False, None)
          else (close_all (map snd removed) st', True, promo))"

definition Retain :: "string list \<Rightarrow> sset \<Rightarrow> sset \<times> string list \<times> (string \<times> string) option" where
  "Retain live st =
     (case dropLocked (\<lambda>e. entry_id e \<notin> set live) st of
        (st', removed, promo) \<Rightarrow>
          if removed = [] then (st', [], None)
          else (close_all (map snd removed) st', map entry_id removed, promo))"

definition Reap :: "sset \<Rightarrow> sset \<times> string list \<times> (string \<times> string) option" where
  "Reap st =
     (case dropLocked (\<lambda>e. snd e \<in> ss_done st) st of
        (st', removed, promo) \<Rightarrow>
          if removed = [] then (st', [], None)
          else (close_all (map snd removed) st', map entry_id removed, promo))"

definition TaskIDs :: "sset \<Rightarrow> string list" where
  "TaskIDs st = map entry_id (ss_entries st)"

definition Primary :: "sset \<Rightarrow> nat option" where
  "Primary st = map_option snd (find (\<lambda>e. snd e \<notin> ss_done st) (ss_entries st))"

definition Len :: "sset \<Rightarrow> nat" where
  "Len st = length (ss_entries st)"

text \<open>\<^verbatim>\<open>SessionSet.DialTCP\<close> and \<^verbatim>\<open>Resolve\<close>: they go to the primary of the moment.\<close>

datatype 'r via = NoPrimary | Via 'r

definition set_call :: "(nat \<Rightarrow> 'r) \<Rightarrow> sset \<Rightarrow> 'r via" where
  "set_call f st = (case Primary st of None \<Rightarrow> NoPrimary | Some p \<Rightarrow> Via (f p))"

definition CloseSet :: "sset \<Rightarrow> sset" where
  "CloseSet st = close_all (map snd (ss_entries st)) (st\<lparr>ss_entries := []\<rparr>)"

definition empty_set :: sset where
  "empty_set = \<lparr>ss_entries = [], ss_done = {}\<rparr>"

section \<open>Following the service\<close>

text \<open>
  One poll of the follower, from the tick to the next wait. \<open>listed\<close> is what \<^verbatim>\<open>List\<close>
  answers, \<open>attach\<close> the session \<^verbatim>\<open>Attach\<close> opens for a task (if it succeeds), \<open>stopping\<close> the
  tasks during whose attach the context ended. The boolean is whether the follower goes on.
\<close>

fun follow_tasks :: "(task \<Rightarrow> nat option) \<Rightarrow> (task \<Rightarrow> bool) \<Rightarrow> task list \<Rightarrow> sset \<Rightarrow> sset \<times> bool" where
  "follow_tasks attach stopping [] st = (st, True)"
| "follow_tasks attach stopping (tk # want) st =
     (if Has st (t_ID tk) then follow_tasks attach stopping want st
      else case attach tk of
        None \<Rightarrow> follow_tasks attach stopping want st
      | Some sess \<Rightarrow>
          if stopping tk then (close_all [sess] st, False)
          else follow_tasks attach stopping want (fst (Add tk sess st)))"

definition follow_poll ::
  "(string + task list) \<Rightarrow> (task \<Rightarrow> nat option) \<Rightarrow> (task \<Rightarrow> bool) \<Rightarrow> sset \<times> string \<Rightarrow> (sset \<times> string) \<times> bool" where
  "follow_poll listed attach stopping s =
     (let st = fst (Reap (fst s)) in
      case listed of
        Inl e \<Rightarrow> ((st, if e \<noteq> snd s then e else snd s), True)
      | Inr want \<Rightarrow>
          (case follow_tasks attach stopping want st of
             (st', False) \<Rightarrow> ((st', ''''), False)
           | (st', True) \<Rightarrow> ((fst (Retain (map t_ID want) st'), ''''), True)))"

section \<open>Losing every session\<close>

text \<open>
  \<^verbatim>\<open>sessionLoss\<close>: the live count and the one-slot channel; the slot holds the reason of the
  last session, itself \<^verbatim>\<open>nil\<close> when it was closed.
\<close>

record sessionLoss =
  sl_live :: nat
  sl_ch :: "string option option"

definition newSessionLoss :: sessionLoss where
  "newSessionLoss = \<lparr>sl_live = 0, sl_ch = None\<rparr>"

definition watch :: "sessionLoss \<Rightarrow> sessionLoss" where
  "watch l = \<lparr>sl_live = Suc (sl_live l), sl_ch = None\<rparr>"

text \<open>What the goroutine of a watched session does when it ends.\<close>

definition watched_ends :: "string option \<Rightarrow> sessionLoss \<Rightarrow> sessionLoss" where
  "watched_ends err l =
     (let l' = l\<lparr>sl_live := sl_live l - 1\<rparr> in
      if sl_live l' = 0 then (case sl_ch l' of None \<Rightarrow> l'\<lparr>sl_ch := Some err\<rparr> | Some _ \<Rightarrow> l') else l')"

inductive loss_step :: "nat set \<times> nat set \<times> sessionLoss \<Rightarrow> nat set \<times> nat set \<times> sessionLoss \<Rightarrow> bool" where
  loss_watch: "c \<notin> watched \<Longrightarrow> loss_step (watched, ended, l) (insert c watched, ended, watch l)"
| loss_end: "c \<in> watched \<Longrightarrow> c \<notin> ended \<Longrightarrow>
    loss_step (watched, ended, l) (watched, insert c ended, watched_ends err l)"

inductive loss_reachable :: "nat set \<times> nat set \<times> sessionLoss \<Rightarrow> bool" where
  loss_start: "loss_reachable ({}, {}, newSessionLoss)"
| loss_next: "loss_reachable x \<Longrightarrow> loss_step x y \<Longrightarrow> loss_reachable y"

section \<open>Abstract view and invariant\<close>

definition abs_set :: "sset \<Rightarrow> string \<Rightarrow> attached option" where
  "abs_set st = map_of (map (\<lambda>e. (entry_id e, e)) (ss_entries st))"

definition sset_inv :: "sset \<Rightarrow> bool" where
  "sset_inv st \<longleftrightarrow>
     distinct (TaskIDs st) \<and> sorted (map (\<lambda>e. t_StartedAt (fst e)) (ss_entries st))"

text \<open>The operations the goroutines of a run perform on the set, in any order.\<close>

inductive sset_step :: "nat set \<times> sset \<Rightarrow> nat set \<times> sset \<Rightarrow> bool" where
  op_add: "sset_step (h, st) (insert sess h, fst (Add tk sess st))"
| op_remove: "sset_step (h, st) (h, fst (Remove taskID st))"
| op_retain: "sset_step (h, st) (h, fst (Retain live st))"
| op_reap: "sset_step (h, st) (h, fst (Reap st))"
| op_dies: "sset_step (h, st) (h, st\<lparr>ss_done := insert sess (ss_done st)\<rparr>)"
| op_close: "sset_step (h, st) (h, CloseSet st)"

inductive sset_reachable :: "nat set \<times> sset \<Rightarrow> bool" where
  set_start: "sset_reachable ({}, empty_set)"
| set_next: "sset_reachable x \<Longrightarrow> sset_step x y \<Longrightarrow> sset_reachable y"

section \<open>Lemmas on the operations\<close>

lemma Has_iff: "Has st i \<longleftrightarrow> i \<in> set (TaskIDs st)"
  by (auto simp: Has_def TaskIDs_def list_ex_iff)

lemma close_all_simps [simp]:
  "ss_entries (close_all ss st) = ss_entries st" "ss_done (close_all ss st) = ss_done st \<union> set ss"
  by (simp_all add: close_all_def)

lemma abs_set_dom: "abs_set st i \<noteq> None \<longleftrightarrow> Has st i"
  by (auto simp: abs_set_def Has_iff TaskIDs_def map_of_eq_None_iff image_iff)

lemma abs_set_Some:
  "distinct (TaskIDs st) \<Longrightarrow> abs_set st i = Some e \<longleftrightarrow> e \<in> set (ss_entries st) \<and> entry_id e = i"
  by (auto simp: abs_set_def TaskIDs_def comp_def dest!: map_of_SomeD)

text \<open>Every removal is a filter of the entries, and closes what it takes out.\<close>

lemma Remove_eq:
  "ss_entries (fst (Remove i st)) = filter (\<lambda>e. entry_id e \<noteq> i) (ss_entries st)"
  "ss_done (fst (Remove i st)) = ss_done st \<union> snd ` {e \<in> set (ss_entries st). entry_id e = i}"
  by (auto simp: Remove_def dropLocked_def Let_def filter_empty_conv)

lemma Retain_eq:
  "ss_entries (fst (Retain live st)) = filter (\<lambda>e. entry_id e \<in> set live) (ss_entries st)"
  "ss_done (fst (Retain live st)) = ss_done st \<union> snd ` {e \<in> set (ss_entries st). entry_id e \<notin> set live}"
  by (auto simp: Retain_def dropLocked_def Let_def filter_empty_conv)

lemma Reap_eq:
  "ss_entries (fst (Reap st)) = filter (\<lambda>e. snd e \<notin> ss_done st) (ss_entries st)"
  "ss_done (fst (Reap st)) = ss_done st"
  by (auto simp: Reap_def dropLocked_def Let_def filter_empty_conv)

lemmas drop_eqs = Remove_eq Retain_eq Reap_eq

lemma Add_eq:
  "Has st (t_ID tk) \<Longrightarrow> ss_entries (fst (Add tk s st)) = ss_entries st"
  "ss_done (fst (Add tk s st)) = (if Has st (t_ID tk) then insert s (ss_done st) else ss_done st)"
  by (auto simp: Add_def Has_def Let_def)

lemma Add_entries:
  "set (ss_entries (fst (Add tk s st))) =
     (if Has st (t_ID tk) then set (ss_entries st) else insert (tk, s) (set (ss_entries st)))"
  by (auto simp: Add_def Has_def Let_def)

lemma Add_ids:
  "set (TaskIDs (fst (Add tk s st))) = insert (t_ID tk) (set (TaskIDs st))"
  using Add_entries[of tk s st] Has_iff[of st "t_ID tk"] by (auto simp: TaskIDs_def)

section \<open>The invariant\<close>

lemma sset_inv_filter:
  "sset_inv st \<Longrightarrow> ss_entries st' = filter P (ss_entries st) \<Longrightarrow> sset_inv st'"
  by (auto simp: sset_inv_def TaskIDs_def distinct_map_filter sorted_filter)

lemma sset_inv_Add: "sset_inv st \<Longrightarrow> sset_inv (fst (Add tk s st))"
proof (cases "Has st (t_ID tk)")
  case True
  then show "sset_inv st \<Longrightarrow> sset_inv (fst (Add tk s st))"
    by (simp add: sset_inv_def Add_def Has_def TaskIDs_def)
next
  case False
  assume inv: "sset_inv st"
  let ?es = "sort_key (\<lambda>e. t_StartedAt (fst e)) (ss_entries st @ [(tk, s)])"
  have es: "ss_entries (fst (Add tk s st)) = ?es" using False by (simp add: Add_def Has_def Let_def)
  have "mset (map entry_id ?es) = mset (map entry_id (ss_entries st @ [(tk, s)]))"
    by (metis mset_map mset_sort)
  moreover have "distinct (map entry_id (ss_entries st @ [(tk, s)]))"
    using inv False by (auto simp: sset_inv_def TaskIDs_def Has_iff)
  ultimately have "distinct (map entry_id ?es)" using mset_eq_imp_distinct_iff by blast
  then show ?thesis unfolding sset_inv_def TaskIDs_def es by simp
qed

lemma sset_step_inv: "sset_step x y \<Longrightarrow> sset_inv (snd x) \<Longrightarrow> sset_inv (snd y)"
proof (induction rule: sset_step.induct)
  case (op_add h st sess tk) then show ?case by (simp add: sset_inv_Add)
next
  case (op_close h st) show ?case by (simp add: sset_inv_def CloseSet_def TaskIDs_def)
next
  case (op_dies h st sess) then show ?case by (simp add: sset_inv_def TaskIDs_def)
qed (auto intro: sset_inv_filter simp: drop_eqs)

text \<open>No session handed to the set is lost: it is still held, or its \<^verbatim>\<open>Done\<close> has fired.\<close>

definition accounted :: "nat set \<times> sset \<Rightarrow> bool" where
  "accounted x \<longleftrightarrow> fst x \<subseteq> snd ` set (ss_entries (snd x)) \<union> ss_done (snd x)"

lemma sset_step_accounted: "sset_step x y \<Longrightarrow> accounted x \<Longrightarrow> accounted y"
proof (induction rule: sset_step.induct)
  case (op_add h st sess tk)
  then show ?case by (auto simp: accounted_def Add_entries Add_eq(2))
next
  case (op_close h st) then show ?case by (auto simp: accounted_def CloseSet_def)
qed (fastforce simp: accounted_def drop_eqs)+

lemma sset_reachable_inv: "sset_reachable x \<Longrightarrow> sset_inv (snd x) \<and> accounted x"
proof (induction rule: sset_reachable.induct)
  case set_start
  show ?case by (simp add: sset_inv_def accounted_def empty_set_def TaskIDs_def)
next
  case (set_next x y) then show ?case using sset_step_inv sset_step_accounted by blast
qed

section \<open>The primary\<close>

lemma find_sorted_first:
  assumes "sorted (map f xs)" and "find P xs = Some x" and "y \<in> set xs" and "P y"
  shows "f x \<le> f y"
proof -
  from assms(2) obtain ys zs where xs: "xs = ys @ x # zs" and "\<forall>y \<in> set ys. \<not> P y"
    by (auto simp: find_Some_first)
  with assms(3,4) have "y \<in> set (x # zs)" by auto
  with assms(1) show ?thesis unfolding xs by (auto simp: sorted_append)
qed

lemma Primary_None: "Primary st = None \<longleftrightarrow> (\<forall>e \<in> set (ss_entries st). snd e \<in> ss_done st)"
  by (auto simp: Primary_def find_None_iff)

lemma Primary_Some:
  assumes "sset_inv st" and "Primary st = Some p"
  shows "\<exists>tk. (tk, p) \<in> set (ss_entries st) \<and> p \<notin> ss_done st \<and>
           (\<forall>e \<in> set (ss_entries st). snd e \<notin> ss_done st \<longrightarrow> t_StartedAt tk \<le> t_StartedAt (fst e))"
proof -
  from assms(2) obtain e where f: "find (\<lambda>e. snd e \<notin> ss_done st) (ss_entries st) = Some e" and p: "snd e = p"
    by (auto simp: Primary_def)
  then have "e \<in> set (ss_entries st)" "snd e \<notin> ss_done st" by (auto simp: find_Some_first)
  moreover have "t_StartedAt (fst e) \<le> t_StartedAt (fst e')"
    if "e' \<in> set (ss_entries st)" "snd e' \<notin> ss_done st" for e'
    using find_sorted_first[of "\<lambda>e. t_StartedAt (fst e)", OF _ f that] assms(1) by (simp add: sset_inv_def)
  ultimately show ?thesis using p by (metis prod.collapse)
qed

text \<open>A stable sort of a sorted list with one element appended leaves a smaller prefix in place.\<close>

lemma sort_key_snoc:
  assumes "sorted (map f xs)"
  shows "sort_key f (xs @ [x]) = filter (\<lambda>y. f y \<le> f x) xs @ x # filter (\<lambda>y. f x < f y) xs"
  using assms
proof (induction xs)
  case (Cons y xs)
  have "sort_key f ((y # xs) @ [x]) = insort_key f y (filter (\<lambda>z. f z \<le> f x) xs @ x # filter (\<lambda>z. f x < f z) xs)"
    using Cons by simp
  also have "\<dots> = filter (\<lambda>z. f z \<le> f x) (y # xs) @ x # filter (\<lambda>z. f x < f z) (y # xs)"
  proof (cases "f y \<le> f x")
    case True
    then show ?thesis using Cons.prems by (cases "filter (\<lambda>z. f z \<le> f x) xs") (auto simp: filter_eq_Cons_iff)
  next
    case False
    then have "filter (\<lambda>z. f z \<le> f x) xs = []" using Cons.prems by (auto simp: filter_empty_conv)
    with False show ?thesis using Cons.prems
      by (cases "filter (\<lambda>z. f x < f z) xs") (auto simp: filter_eq_Cons_iff)
  qed
  finally show ?case .
qed simp

lemma find_filter_prefix:
  assumes "sorted (map f xs)" and "find P xs = Some x" and "f x \<le> b"
  shows "find P (filter (\<lambda>y. f y \<le> b) xs @ zs) = Some x"
proof -
  from assms(2) obtain us vs where xs: "xs = us @ x # vs" and "\<forall>y \<in> set us. \<not> P y" "P x"
    by (auto simp: find_Some_first)
  moreover have "filter (\<lambda>y. f y \<le> b) us = us"
    using assms(1,3) unfolding xs by (fastforce simp: filter_id_conv sorted_append)
  ultimately have "filter (\<lambda>y. f y \<le> b) xs @ zs = us @ x # (filter (\<lambda>y. f y \<le> b) vs @ zs) \<and> P x \<and> (\<forall>y \<in> set us. \<not> P y)"
    using assms(3) by simp
  then show ?thesis unfolding find_Some_first by blast
qed

lemma Primary_stable:
  assumes "sset_inv st" and "find (\<lambda>e. snd e \<notin> ss_done st) (ss_entries st) = Some (tk0, p)"
    and "\<not> Has st (t_ID tk)" and "t_StartedAt tk0 \<le> t_StartedAt tk"
  shows "Primary (fst (Add tk s st)) = Some p"
proof -
  have srt: "sorted (map (\<lambda>e. t_StartedAt (fst e)) (ss_entries st))" using assms(1) by (simp add: sset_inv_def)
  have es: "ss_entries (fst (Add tk s st)) =
      filter (\<lambda>y. t_StartedAt (fst y) \<le> t_StartedAt tk) (ss_entries st) @
      (tk, s) # filter (\<lambda>y. t_StartedAt tk < t_StartedAt (fst y)) (ss_entries st)"
    using assms(3) sort_key_snoc[OF srt, of "(tk, s)"] by (simp add: Add_def Has_def Let_def)
  have d: "ss_done (fst (Add tk s st)) = ss_done st" using assms(3) by (simp add: Add_eq)
  show ?thesis
    unfolding Primary_def es d using find_filter_prefix[OF srt assms(2)] assms(4) by simp
qed

section \<open>A poll\<close>

lemma follow_tasks_ids:
  assumes "follow_tasks attach (\<lambda>_. False) want st = (st', go)"
  shows "go \<and> set (TaskIDs st') = set (TaskIDs st) \<union> t_ID ` {tk \<in> set want. attach tk \<noteq> None \<and> \<not> Has st (t_ID tk)}"
  using assms
proof (induction want arbitrary: st)
  case (Cons tk want)
  show ?case
  proof (cases "Has st (t_ID tk)")
    case True
    then have "follow_tasks attach (\<lambda>_. False) want st = (st', go)" using Cons.prems by simp
    from Cons.IH[OF this] True show ?thesis by auto
  next
    case notHas: False
    show ?thesis
    proof (cases "attach tk")
      case None
      then have "follow_tasks attach (\<lambda>_. False) want st = (st', go)" using Cons.prems notHas by simp
      from Cons.IH[OF this] None show ?thesis by auto
    next
      case (Some s)
      then have "follow_tasks attach (\<lambda>_. False) want (fst (Add tk s st)) = (st', go)"
        using Cons.prems notHas by simp
      from Cons.IH[OF this] Some notHas show ?thesis by (auto simp: Add_ids Has_iff)
    qed
  qed
qed simp

lemma Retain_ids: "set (TaskIDs (fst (Retain live st))) = set (TaskIDs st) \<inter> set live"
  by (auto simp: TaskIDs_def drop_eqs)

lemma Reap_ids: "set (TaskIDs (fst (Reap st))) = {entry_id e |e. e \<in> set (ss_entries st) \<and> snd e \<notin> ss_done st}"
  unfolding TaskIDs_def drop_eqs by force

lemma sset_inv_close: "sset_inv (close_all ss st) = sset_inv st"
  by (simp add: sset_inv_def TaskIDs_def)

lemma follow_tasks_inv: "sset_inv st \<Longrightarrow> sset_inv (fst (follow_tasks attach stopping want st))"
proof (induction want arbitrary: st)
  case (Cons tk want)
  then show ?case
    by (simp add: sset_inv_Add sset_inv_close split: option.splits)
qed simp

section \<open>Losing sessions\<close>

lemma loss_step_inv:
  "loss_step x y \<Longrightarrow>
     (case x of (w, e, l) \<Rightarrow> finite w \<and> e \<subseteq> w \<and> sl_live l = card (w - e) \<and>
        (sl_ch l \<noteq> None \<longleftrightarrow> w \<noteq> {} \<and> w = e)) \<Longrightarrow>
     (case y of (w, e, l) \<Rightarrow> finite w \<and> e \<subseteq> w \<and> sl_live l = card (w - e) \<and>
        (sl_ch l \<noteq> None \<longleftrightarrow> w \<noteq> {} \<and> w = e))"
proof (induction rule: loss_step.induct)
  case (loss_watch c watched ended l)
  then have "insert c watched - ended = insert c (watched - ended)" "c \<notin> watched - ended" by auto
  with loss_watch show ?case by (auto simp: watch_def)
next
  case (loss_end c watched ended l err)
  have fin: "finite (watched - ended)" using loss_end by simp
  have eq: "watched - insert c ended = (watched - ended) - {c}" and c: "c \<in> watched - ended" using loss_end by auto
  have card: "card (watched - insert c ended) = sl_live l - 1" using loss_end fin c by (simp add: eq)
  have "sl_ch l = None" using loss_end by auto
  moreover have "sl_live l - 1 = 0 \<longleftrightarrow> watched = insert c ended"
  proof -
    have "finite (watched - insert c ended)" using fin eq by simp
    then have "sl_live l - 1 = 0 \<longleftrightarrow> watched - insert c ended = {}" using card by (metis card_0_eq)
    then show ?thesis using c loss_end by auto
  qed
  ultimately show ?case using loss_end card by (auto simp: watched_ends_def Let_def)
qed

lemma loss_reachable_inv:
  "loss_reachable x \<Longrightarrow> (case x of (w, e, l) \<Rightarrow> finite w \<and> e \<subseteq> w \<and> sl_live l = card (w - e) \<and>
        (sl_ch l \<noteq> None \<longleftrightarrow> w \<noteq> {} \<and> w = e))"
proof (induction rule: loss_reachable.induct)
  case loss_start show ?case by (simp add: newSessionLoss_def)
next
  case (loss_next x y) then show ?case using loss_step_inv by blast
qed

section \<open>The abstract map\<close>

lemma abs_set_filter:
  assumes d: "distinct (TaskIDs st)" and f: "ss_entries st' = filter P (ss_entries st)"
  shows "abs_set st' i = (case abs_set st i of Some e \<Rightarrow> if P e then Some e else None | None \<Rightarrow> None)"
proof -
  have d': "distinct (TaskIDs st')" using d f by (simp add: TaskIDs_def distinct_map_filter)
  have eq: "abs_set st' i = Some e \<longleftrightarrow> abs_set st i = Some e \<and> P e" for e
    using abs_set_Some[OF d', of i e] abs_set_Some[OF d, of i e] f by auto
  show ?thesis
  proof (cases "abs_set st' i")
    case None
    then show ?thesis using eq by (auto split: option.splits)
  next
    case (Some e)
    with eq[of e] show ?thesis by simp
  qed
qed

lemma abs_set_key: "distinct (TaskIDs st) \<Longrightarrow> abs_set st i = Some e \<Longrightarrow> entry_id e = i"
  using abs_set_Some by blast

lemma abs_set_Add:
  assumes inv: "sset_inv st"
  shows "abs_set (fst (Add tk s st)) =
    (if abs_set st (t_ID tk) = None then (abs_set st)(t_ID tk \<mapsto> (tk, s)) else abs_set st)"
proof (cases "Has st (t_ID tk)")
  case True
  then have "abs_set (fst (Add tk s st)) = abs_set st" "abs_set st (t_ID tk) \<noteq> None"
    using abs_set_dom[of st "t_ID tk"] by (simp_all add: abs_set_def Add_eq)
  then show ?thesis by (simp only: if_False)
next
  case False
  have d: "distinct (TaskIDs st)" and d': "distinct (TaskIDs (fst (Add tk s st)))"
    using inv sset_inv_Add[OF inv] by (simp_all add: sset_inv_def)
  have new: "abs_set (fst (Add tk s st)) (t_ID tk) = Some (tk, s)"
    using False by (simp add: abs_set_Some[OF d'] Add_entries)
  have old: "abs_set (fst (Add tk s st)) i = abs_set st i" if "i \<noteq> t_ID tk" for i
  proof -
    have "abs_set (fst (Add tk s st)) i = Some e \<longleftrightarrow> abs_set st i = Some e" for e
      using False that by (auto simp: abs_set_Some[OF d'] abs_set_Some[OF d] Add_entries)
    then show ?thesis by (metis not_None_eq)
  qed
  show ?thesis using False abs_set_dom[of st "t_ID tk"] new old by auto
qed

section \<open>The task lister\<close>

text \<open>
  What the follower relies on in \<^verbatim>\<open>List\<close>: a successful answer is never empty.
  \<^verbatim>\<open>DiscoverAll\<close> keeps this (theory \<open>Discover\<close>).
\<close>

locale task_lister =
  fixes list_tasks :: "'w \<Rightarrow> string + task list"
  assumes never_empty: "list_tasks w \<noteq> Inr []"
begin

lemma poll_keeps_listed:
  assumes "list_tasks w = Inr want" and "tk \<in> set want" and "attach tk = Some s \<or> t_ID tk \<in> set (TaskIDs (fst (Reap st)))"
  shows "TaskIDs (fst (fst (follow_poll (list_tasks w) attach (\<lambda>_. False) (st, e)))) \<noteq> []"
proof -
  obtain st' go where f: "follow_tasks attach (\<lambda>_. False) want (fst (Reap st)) = (st', go)" by fastforce
  from follow_tasks_ids[OF f] have go: "go" and ids: "set (TaskIDs st') = set (TaskIDs (fst (Reap st))) \<union>
      t_ID ` {tk \<in> set want. attach tk \<noteq> None \<and> \<not> Has (fst (Reap st)) (t_ID tk)}" by auto
  have "t_ID tk \<in> set (TaskIDs st')" using assms(2,3) ids by (auto simp: Has_iff)
  then have "t_ID tk \<in> set (TaskIDs (fst (Retain (map t_ID want) st')))" using assms(2) by (simp add: Retain_ids)
  then have "TaskIDs (fst (Retain (map t_ID want) st')) \<noteq> []" by auto
  then show ?thesis using f go assms(1) by (simp add: follow_poll_def Let_def)
qed

text \<open>With an attach that always succeeds, no poll leaves the run without a session.\<close>

lemma poll_never_empties:
  assumes "\<And>tk. attach tk \<noteq> None" and "TaskIDs (fst (Reap st)) \<noteq> []"
  shows "TaskIDs (fst (fst (follow_poll (list_tasks w) attach (\<lambda>_. False) (st, e)))) \<noteq> []"
proof (cases "list_tasks w")
  case (Inl err)
  then show ?thesis using assms(2) by (simp add: follow_poll_def Let_def)
next
  case (Inr want)
  then obtain tk where "tk \<in> set want" using never_empty by (cases want) auto
  then show ?thesis using poll_keeps_listed[OF Inr] assms(1) by blast
qed

end

section \<open>Properties\<close>

text \<open>C10: The set implements a finite map from task ids to sessions: \<^verbatim>\<open>Add\<close> binds an unattached task
  and leaves an attached one alone, \<^verbatim>\<open>Remove\<close>, \<^verbatim>\<open>Retain\<close> and \<^verbatim>\<open>Reap\<close> delete exactly the
  task named, the tasks that are not live, and the tasks whose session has ended.\<close>

theorem session_set_refines_map:
  assumes "sset_inv st"
  shows "abs_set (fst (Add tk s st)) = (if abs_set st (t_ID tk) = None then (abs_set st)(t_ID tk \<mapsto> (tk, s)) else abs_set st) \<and>
         abs_set (fst (Remove i st)) = (abs_set st)(i := None) \<and>
         abs_set (fst (Retain live st)) = abs_set st |` set live \<and>
         abs_set (fst (Reap st)) = (\<lambda>i. case abs_set st i of Some e \<Rightarrow> if snd e \<in> ss_done st then None else Some e | None \<Rightarrow> None) \<and>
         abs_set (CloseSet st) = Map.empty"
proof -
  have d: "distinct (TaskIDs st)" using assms by (simp add: sset_inv_def)
  note filt = abs_set_filter[OF d Remove_eq(1)] abs_set_filter[OF d Retain_eq(1)] abs_set_filter[OF d Reap_eq(1)]
  have "abs_set (fst (Remove i st)) = (abs_set st)(i := None)"
    by (rule ext) (auto simp: filt(1) split: option.splits dest: abs_set_key[OF d])
  moreover have "abs_set (fst (Retain live st)) = abs_set st |` set live"
    by (rule ext) (auto simp: filt(2) restrict_map_def split: option.splits dest: abs_set_key[OF d])
  moreover have "abs_set (fst (Reap st)) =
      (\<lambda>i. case abs_set st i of Some e \<Rightarrow> if snd e \<in> ss_done st then None else Some e | None \<Rightarrow> None)"
    by (rule ext) (auto simp: filt(3) split: option.splits)
  moreover have "abs_set (CloseSet st) = Map.empty" by (simp add: abs_set_def CloseSet_def)
  ultimately show ?thesis using abs_set_Add[OF assms] by blast
qed

definition example_task :: "string \<Rightarrow> int \<Rightarrow> task" where
  "example_task i t = zero_task\<lparr>t_ID := i, t_StartedAt := t\<rparr>"

definition example_set :: sset where
  "example_set = \<lparr>ss_entries = [(example_task ''old'' 1, 10), (example_task ''new'' 5, 11)], ss_done = {}\<rparr>"

lemma example_set_inv: "sset_inv example_set"
  by (simp add: sset_inv_def example_set_def TaskIDs_def example_task_def)

theorem session_set_refines_map_witness:
  "abs_set (fst (Remove ''old'' example_set)) ''old'' = None \<and>
   abs_set (fst (Remove ''old'' example_set)) ''new'' = Some (example_task ''new'' 5, 11)"
proof -
  have "abs_set example_set ''new'' = Some (example_task ''new'' 5, 11)"
    by (simp add: abs_set_def example_set_def example_task_def)
  moreover have "abs_set (fst (Remove ''old'' example_set)) = (abs_set example_set)(''old'' := None)"
    using session_set_refines_map[OF example_set_inv, where i = "''old''"] by blast
  ultimately show ?thesis by simp
qed

text \<open>However the goroutines of a run interleave their operations, the set holds one session per task,
  oldest task first, and a session that was handed to it is either still held or has been closed or has
  ended; after \<^verbatim>\<open>Close\<close> none is left open.\<close>

lemma session_set_never_leaks:
  assumes "sset_reachable (handed, st)"
  shows "distinct (TaskIDs st) \<and> sorted (map (\<lambda>e. t_StartedAt (fst e)) (ss_entries st)) \<and>
         handed \<subseteq> snd ` set (ss_entries st) \<union> ss_done st \<and>
         handed \<subseteq> ss_done (CloseSet st)"
  using sset_reachable_inv[OF assms] by (auto simp: sset_inv_def accounted_def CloseSet_def)

text \<open>The primary is the oldest attached task whose session is alive, there is none only when every
  attached session has ended, and attaching a task that is not older does not move it.\<close>

lemma primary_is_oldest_live:
  assumes "sset_inv st"
  shows "(case Primary st of
            None \<Rightarrow> \<forall>e \<in> set (ss_entries st). snd e \<in> ss_done st
          | Some p \<Rightarrow> \<exists>tk. (tk, p) \<in> set (ss_entries st) \<and> p \<notin> ss_done st \<and>
              (\<forall>e \<in> set (ss_entries st). snd e \<notin> ss_done st \<longrightarrow> t_StartedAt tk \<le> t_StartedAt (fst e))) \<and>
         (\<forall>tk. \<not> Has st (t_ID tk) \<and> Primary st \<noteq> None \<and>
            (\<forall>e \<in> set (ss_entries st). t_StartedAt (fst e) \<le> t_StartedAt tk) \<longrightarrow>
            Primary (fst (Add tk s st)) = Primary st)"
proof -
  have "Primary (fst (Add tk s st)) = Primary st"
    if "\<not> Has st (t_ID tk)" "Primary st \<noteq> None" "\<forall>e \<in> set (ss_entries st). t_StartedAt (fst e) \<le> t_StartedAt tk" for tk
  proof -
    from that(2) obtain e where f: "find (\<lambda>e. snd e \<notin> ss_done st) (ss_entries st) = Some e" and p: "Primary st = Some (snd e)"
      by (auto simp: Primary_def)
    then have "e \<in> set (ss_entries st)" by (auto simp: find_Some_first)
    with that(3) have "t_StartedAt (fst e) \<le> t_StartedAt tk" by blast
    then show ?thesis using Primary_stable[OF assms, of "fst e" "snd e"] f that(1) p by simp
  qed
  moreover have "case Primary st of None \<Rightarrow> \<forall>e \<in> set (ss_entries st). snd e \<in> ss_done st
      | Some p \<Rightarrow> \<exists>tk. (tk, p) \<in> set (ss_entries st) \<and> p \<notin> ss_done st \<and>
          (\<forall>e \<in> set (ss_entries st). snd e \<notin> ss_done st \<longrightarrow> t_StartedAt tk \<le> t_StartedAt (fst e))"
    using Primary_None[of st] Primary_Some[OF assms] by (cases "Primary st") auto
  ultimately show ?thesis by blast
qed

text \<open>A poll that can read the task list leaves exactly the listed tasks attached that already had a
  live session or could be attached now; a poll that cannot keeps every live session.\<close>

lemma poll_attaches_exactly_the_listed:
  "set (TaskIDs (fst (fst (follow_poll (Inr want) attach (\<lambda>_. False) (st, e))))) =
     {t_ID tk |tk. tk \<in> set want \<and> ((\<exists>sess. attach tk = Some sess) \<or> Has (fst (Reap st)) (t_ID tk))} \<and>
   TaskIDs (fst (fst (follow_poll (Inl err) attach (\<lambda>_. False) (st, e)))) = TaskIDs (fst (Reap st))"
proof -
  obtain st' go where f: "follow_tasks attach (\<lambda>_. False) want (fst (Reap st)) = (st', go)" by fastforce
  from follow_tasks_ids[OF f] have go: "go" and ids: "set (TaskIDs st') = set (TaskIDs (fst (Reap st))) \<union>
      t_ID ` {tk \<in> set want. attach tk \<noteq> None \<and> \<not> Has (fst (Reap st)) (t_ID tk)}" by auto
  have "fst (fst (follow_poll (Inr want) attach (\<lambda>_. False) (st, e))) = fst (Retain (map t_ID want) st')"
    using f go by (simp add: follow_poll_def Let_def)
  then show ?thesis using ids by (auto simp: Retain_ids Has_iff follow_poll_def Let_def)
qed

text \<open>A run is told that it has lost its sessions exactly when it has watched at least one session and
  every watched one has ended, in whatever order sessions are attached and end; a session attached later
  withdraws the report.\<close>

lemma session_loss_exact:
  assumes "loss_reachable (watched, ended, l)"
  shows "(sl_ch l \<noteq> None \<longleftrightarrow> watched \<noteq> {} \<and> watched = ended) \<and> sl_live l = card (watched - ended)"
  using loss_reachable_inv[OF assms] by simp

end
