(* ===== verification/Discover.thy ===== *)
theory Discover
  imports RemoteSet SessionSet
begin

text \<open>
  The AWS side, \<^verbatim>\<open>internal/provider/ecs\<close>: which tasks to attach to (\<^verbatim>\<open>discover.go\<close>),
  the VPC's ranges (\<^verbatim>\<open>vpc.go\<close>), the managed prefix lists (\<^verbatim>\<open>prefix.go\<close>), the task
  definition (\<^verbatim>\<open>secrets.go\<close>) and the target group (\<^verbatim>\<open>targetgroup.go\<close>). The AWS
  APIs are arguments; an absent string (\<^verbatim>\<open>nil\<close>) is empty, as \<^verbatim>\<open>aws.ToString\<close>
  reads it.
\<close>

section \<open>Tasks\<close>

record managed_agent =
  ma_Name :: string
  ma_LastStatus :: string

record container =
  co_Name :: string
  co_RuntimeId :: string
  co_ManagedAgents :: "managed_agent list"

record attachment =
  at_Type :: string
  at_Details :: "(string \<times> string) list"

record ecs_task =
  et_TaskArn :: string
  et_LastStatus :: string
  et_EnableExecuteCommand :: bool
  et_Containers :: "container list"
  et_TaskDefinitionArn :: string
  et_StartedAt :: "time option"
  et_Attachments :: "attachment list"

record ecs_api =
  api_ListTasks :: "string + string list"
  api_DescribeTasks :: "string list \<Rightarrow> string + ecs_task list"

record Target =
  tg_Cluster :: string
  tg_Service :: string
  tg_TaskID :: string
  tg_AgentContainer :: string

definition DefaultAgentContainer :: string where "DefaultAgentContainer = ''tetherd-agent''"

definition taskID :: "string \<Rightarrow> string" where
  "taskID arn = (case after_last CHR ''/'' arn of Some i \<Rightarrow> i | None \<Rightarrow> arn)"

datatype verdict = NotAskedFor | Rejected string string | Eligible task

text \<open>The last container of that name, and the last status of its exec agent.\<close>

definition find_agent :: "string \<Rightarrow> container list \<Rightarrow> container option" where
  "find_agent name cs = find (\<lambda>c. co_Name c = name) (rev cs)"

definition exec_status :: "container \<Rightarrow> string" where
  "exec_status c =
     (case find (\<lambda>m. ma_Name m = ''ExecuteCommandAgent'') (rev (co_ManagedAgents c)) of
        None \<Rightarrow> '''' | Some m \<Rightarrow> ma_LastStatus m)"

definition subnet_of :: "attachment list \<Rightarrow> string" where
  "subnet_of as =
     foldl (\<lambda>acc d. if fst d = ''subnetId'' then snd d else acc) ''''
       (concat (map at_Details (filter (\<lambda>a. at_Type a = ''ElasticNetworkInterface'') as)))"

definition runtime_ids :: "string \<Rightarrow> container \<Rightarrow> container list \<Rightarrow> string list" where
  "runtime_ids name agent cs =
     co_RuntimeId agent # filter (\<lambda>r. r \<noteq> '''') (map co_RuntimeId (filter (\<lambda>c. co_Name c \<noteq> name) cs))"

definition judge_task :: "Target \<Rightarrow> ecs_task \<Rightarrow> verdict" where
  "judge_task t tk =
     (let i = taskID (et_TaskArn tk) in
      if tg_TaskID t \<noteq> '''' \<and> i \<noteq> tg_TaskID t then NotAskedFor
      else if et_LastStatus tk \<noteq> ''RUNNING'' then Rejected i ''not RUNNING yet''
      else if \<not> et_EnableExecuteCommand tk then Rejected i ''ECS Exec is disabled''
      else case find_agent (tg_AgentContainer t) (et_Containers tk) of
        None \<Rightarrow> Rejected i ''no agent container in the task''
      | Some agent \<Rightarrow>
          if exec_status agent \<noteq> ''RUNNING'' then Rejected i ''ExecuteCommandAgent is not RUNNING''
          else Eligible
            \<lparr>t_Cluster = tg_Cluster t, t_ARN = et_TaskArn tk, t_ID = i, t_RuntimeID = co_RuntimeId agent,
             t_RuntimeIDs = runtime_ids (tg_AgentContainer t) agent (et_Containers tk), t_Addr = '''',
             t_SubnetID = subnet_of (et_Attachments tk),
             t_StartedAt = (case et_StartedAt tk of None \<Rightarrow> 0 | Some s \<Rightarrow> s),
             t_DefinitionARN = et_TaskDefinitionArn tk\<rparr>)"

definition eligible_tasks :: "Target \<Rightarrow> ecs_task list \<Rightarrow> task list" where
  "eligible_tasks t tks = concat (map (\<lambda>tk. case judge_task t tk of Eligible x \<Rightarrow> [x] | _ \<Rightarrow> []) tks)"

definition reject_reasons :: "Target \<Rightarrow> ecs_task list \<Rightarrow> (string \<times> string) list" where
  "reject_reasons t tks = concat (map (\<lambda>tk. case judge_task t tk of Rejected i r \<Rightarrow> [(i, r)] | _ \<Rightarrow> []) tks)"

datatype discover_error =
    ListTasksFailed string
  | NoRunningTasks
  | DescribeTasksFailed string
  | PinnedNotRunning string
  | NotReady "(string \<times> string) list"

text \<open>
  \<^verbatim>\<open>DiscoverAll\<close>. \<^verbatim>\<open>sort.Slice\<close> is not stable, so the sort is an argument \<open>sorter\<close>
  of which only its contract is used (locale \<open>slice_sorter\<close> below).
\<close>

definition DiscoverAll :: "(task list \<Rightarrow> task list) \<Rightarrow> ecs_api \<Rightarrow> Target \<Rightarrow> discover_error + task list" where
  "DiscoverAll sorter api t0 =
     (let t = (if tg_AgentContainer t0 = '''' then t0\<lparr>tg_AgentContainer := DefaultAgentContainer\<rparr> else t0) in
      case api_ListTasks api of
        Inl e \<Rightarrow> Inl (ListTasksFailed e)
      | Inr arns \<Rightarrow>
          if length arns = 0 then Inl NoRunningTasks
          else (case api_DescribeTasks api arns of
            Inl e \<Rightarrow> Inl (DescribeTasksFailed e)
          | Inr tks \<Rightarrow>
              let eligible = eligible_tasks t tks; reasons = reject_reasons t tks in
              if length eligible = 0 then
                (if tg_TaskID t \<noteq> '''' \<and> length reasons = 0 then Inl (PinnedNotRunning (tg_TaskID t))
                 else Inl (NotReady reasons))
              else Inr (sorter eligible)))"

definition Discover :: "(task list \<Rightarrow> task list) \<Rightarrow> ecs_api \<Rightarrow> Target \<Rightarrow> discover_error + task" where
  "Discover sorter api t = (case DiscoverAll sorter api t of Inl e \<Rightarrow> Inl e | Inr all \<Rightarrow> Inr (hd all))"

text \<open>The \<^verbatim>\<open>List\<close> function \<^verbatim>\<open>tetherd run\<close> gives its follower.\<close>

definition follow_list :: "(task list \<Rightarrow> task list) \<Rightarrow> Target \<Rightarrow> ecs_api \<times> bool \<Rightarrow> string + task list" where
  "follow_list sorter t w =
     (if snd w then Inl ''context canceled''
      else case DiscoverAll sorter (fst w) t of Inl _ \<Rightarrow> Inl ''discovery failed'' | Inr ts \<Rightarrow> Inr ts)"

section \<open>Ranges\<close>

record cidr_assoc =
  ca_CidrBlock :: string
  ca_Associated :: bool

text \<open>\<^verbatim>\<open>VPCCIDRs\<close>: \<open>subnets\<close> gives the VPC ids of the subnets found, \<open>vpcs\<close> their CIDR associations.\<close>

definition VPCCIDRs ::
  "(string \<Rightarrow> string + string list) \<Rightarrow> (string \<Rightarrow> string + cidr_assoc list list) \<Rightarrow> string \<Rightarrow> cli_error + prefix list" where
  "VPCCIDRs subnets vpcs subnetID =
     (case subnets subnetID of
        Inl e \<Rightarrow> Inl (OpError e)
      | Inr [] \<Rightarrow> Inl (OpError ''subnet not found'')
      | Inr (vpcID # _) \<Rightarrow>
          (case vpcs vpcID of
             Inl e \<Rightarrow> Inl (OpError e)
           | Inr [] \<Rightarrow> Inl (OpError ''vpc not found'')
           | Inr (assocs # _) \<Rightarrow>
               let out = List.map_filter
                     (\<lambda>a. if ca_Associated a then map_option masked (parse_prefix4 (ca_CidrBlock a)) else None) assocs in
               if length out = 0 then Inl (OpError ''vpc has no associated IPv4 CIDR'') else Inr out))"

definition gatewayServices :: "string list" where "gatewayServices = [''s3'', ''dynamodb'']"
definition maxPrefixListPages :: nat where "maxPrefixListPages = 200"

text \<open>
  The walk over the pages of one prefix list: \<open>entries\<close> answers a page token with the CIDRs and
  the next token, \<open>cancelled\<close> whether the context has ended before that page.
\<close>

function prefix_pages ::
  "(string option \<Rightarrow> string + (string list \<times> string option)) \<Rightarrow> (nat \<Rightarrow> bool) \<Rightarrow> nat \<Rightarrow> string option \<Rightarrow> prefix list \<Rightarrow>
   cli_error + prefix list" where
  "prefix_pages entries cancelled page token out =
     (if cancelled page then Inl (OpError ''context canceled'')
      else if maxPrefixListPages \<le> page then Inl (OpError ''still paging; giving up'')
      else case entries token of
        Inl e \<Rightarrow> Inl (OpError e)
      | Inr (cidrs, next) \<Rightarrow>
          let out' = out @ List.map_filter (\<lambda>c. map_option masked (parse_prefix4 c)) cidrs in
          (case next of
             None \<Rightarrow> Inr out'
           | Some nt \<Rightarrow>
               if token = Some nt then Inl (OpError ''the endpoint repeated its page token'')
               else prefix_pages entries cancelled (page + 1) next out'))"
  by pat_completeness auto
termination
  by (relation "measure (\<lambda>(_, _, page, _, _). maxPrefixListPages - page)") auto

declare prefix_pages.simps [simp del]

text \<open>\<^verbatim>\<open>ServiceCIDRs\<close>: \<open>plists\<close> gives the ids of the AWS-owned prefix lists of a name.\<close>

fun ServiceCIDRs ::
  "(string \<Rightarrow> string + string list) \<Rightarrow> (string \<Rightarrow> string option \<Rightarrow> string + (string list \<times> string option)) \<Rightarrow>
   (string \<Rightarrow> nat \<Rightarrow> bool) \<Rightarrow> string \<Rightarrow> string list \<Rightarrow> prefix list \<Rightarrow> cli_error + prefix list" where
  "ServiceCIDRs plists entries cancelled region [] out = Inr out"
| "ServiceCIDRs plists entries cancelled region (s # ss) out =
     (if s \<notin> set gatewayServices then Inl (OpError (''network.remote_services: '' @ quoted s @ '' has no managed prefix list''))
      else case plists (''com.amazonaws.'' @ region @ ''.'' @ s) of
        Inl e \<Rightarrow> Inl (OpError e)
      | Inr [pid] \<Rightarrow>
          (case prefix_pages (entries pid) (cancelled pid) 0 None out of
             Inl e \<Rightarrow> Inl e
           | Inr out' \<Rightarrow> ServiceCIDRs plists entries cancelled region ss out')
      | Inr [] \<Rightarrow> Inl (OpError ''no AWS-managed prefix list'')
      | Inr _ \<Rightarrow> Inl (OpError ''expected exactly one AWS-managed prefix list''))"

section \<open>The task definition and the target group\<close>

record container_def =
  cd_Name :: string
  cd_Environment :: "(string \<times> string) list"
  cd_Secrets :: "string list"
  cd_EnvironmentFiles :: nat

record task_def =
  td_Containers :: "container_def list"
  td_PidMode :: string

definition describe :: "(string \<Rightarrow> string + task_def option) \<Rightarrow> string \<Rightarrow> string + task_def" where
  "describe api arn =
     (if arn = '''' then Inl ''no task definition to read''
      else case api arn of
        Inl e \<Rightarrow> Inl e
      | Inr None \<Rightarrow> Inl ''DescribeTaskDefinition returned nothing''
      | Inr (Some td) \<Rightarrow> Inr td)"

definition SecretNames :: "(string \<Rightarrow> string + task_def option) \<Rightarrow> string \<Rightarrow> string + string set" where
  "SecretNames api arn =
     (case describe api arn of
        Inl e \<Rightarrow> Inl e
      | Inr td \<Rightarrow> Inr {n. n \<in> set (concat (map cd_Secrets (td_Containers td))) \<and> n \<noteq> ''''})"

definition PIDMode :: "(string \<Rightarrow> string + task_def option) \<Rightarrow> string \<Rightarrow> string + string" where
  "PIDMode api arn = (case describe api arn of Inl e \<Rightarrow> Inl e | Inr td \<Rightarrow> Inr (td_PidMode td))"

definition proxyEnvVar :: string where "proxyEnvVar = ''TETHERD_PROXY''"

definition AgentProxy :: "(string \<Rightarrow> string + task_def option) \<Rightarrow> string \<Rightarrow> string \<Rightarrow> string + string" where
  "AgentProxy api arn name0 =
     (case describe api arn of
        Inl e \<Rightarrow> Inl e
      | Inr td \<Rightarrow>
          let name = (if name0 = '''' then DefaultAgentContainer else name0) in
          case find (\<lambda>c. cd_Name c = name) (td_Containers td) of
            None \<Rightarrow> Inl ''no container of that name''
          | Some c \<Rightarrow>
              (case find (\<lambda>e. fst e = proxyEnvVar) (cd_Environment c) of
                 Some e \<Rightarrow> Inr (snd e)
               | None \<Rightarrow>
                   if proxyEnvVar \<in> set (cd_Secrets c) then Inl ''sourced from a secret''
                   else if 0 < cd_EnvironmentFiles c then Inl ''environment files''
                   else Inr ''''))"

record load_balancer =
  lb_TargetGroupArn :: string
  lb_ContainerName :: string

text \<open>\<^verbatim>\<open>targetGroupARN\<close>: \<open>services\<close> gives the load balancers of the services found.\<close>

fun pick_target_group :: "string \<Rightarrow> load_balancer list \<Rightarrow> string list \<Rightarrow> string + string" where
  "pick_target_group name [] registered =
     (case registered of
        [] \<Rightarrow> Inl ''registers no target group''
      | [a] \<Rightarrow> Inr a
      | _ \<Rightarrow> Inl ''ambiguous'')"
| "pick_target_group name (lb # lbs) registered =
     (if lb_TargetGroupArn lb = '''' then pick_target_group name lbs registered
      else if lb_ContainerName lb = name then Inr (lb_TargetGroupArn lb)
      else pick_target_group name lbs (registered @ [lb_TargetGroupArn lb]))"

definition targetGroupARN :: "string + load_balancer list list \<Rightarrow> string \<Rightarrow> string + string" where
  "targetGroupARN services name =
     (case services of
        Inl e \<Rightarrow> Inl e
      | Inr [] \<Rightarrow> Inl ''DescribeServices returned no service''
      | Inr (lbs # _) \<Rightarrow> pick_target_group name lbs [])"

record tg_facts =
  tf_Name :: string
  tf_Protocol :: string
  tf_ProtocolVersion :: string
  tf_Port :: int
  tf_AgentProxy :: string

record elb_group =
  eg_Name :: string
  eg_Protocol :: string
  eg_ProtocolVersion :: string
  eg_Port :: int

definition TargetGroup ::
  "string + load_balancer list list \<Rightarrow> (string \<Rightarrow> string + elb_group list) \<Rightarrow> (string \<Rightarrow> string + task_def option) \<Rightarrow>
   Target \<Rightarrow> string \<Rightarrow> string + tg_facts" where
  "TargetGroup services elb td t arn =
     (let name = (if tg_AgentContainer t = '''' then DefaultAgentContainer else tg_AgentContainer t) in
      case targetGroupARN services name of
        Inl e \<Rightarrow> Inl e
      | Inr g \<Rightarrow>
          (case elb g of
             Inl e \<Rightarrow> Inl e
           | Inr [] \<Rightarrow> Inl ''DescribeTargetGroups returned no target group''
           | Inr (tg # _) \<Rightarrow>
               (case AgentProxy td arn name of
                  Inl e \<Rightarrow> Inl e
                | Inr proxy \<Rightarrow> Inr \<lparr>tf_Name = eg_Name tg, tf_Protocol = eg_Protocol tg,
                    tf_ProtocolVersion = eg_ProtocolVersion tg, tf_Port = eg_Port tg, tf_AgentProxy = proxy\<rparr>)))"

text \<open>A list of pages that an endpoint serves from a token on, ending where the next token is absent.\<close>

fun page_chain :: "(string option \<Rightarrow> string + (string list \<times> string option)) \<Rightarrow> string option \<Rightarrow> string list list \<Rightarrow> bool" where
  "page_chain entries token [] = False"
| "page_chain entries token [cs] = (entries token = Inr (cs, None))"
| "page_chain entries token (cs # cs' # css) =
     (\<exists>nt. entries token = Inr (cs, Some nt) \<and> token \<noteq> Some nt \<and> page_chain entries (Some nt) (cs' # css))"

definition parse_page :: "string list \<Rightarrow> prefix list" where
  "parse_page cs = List.map_filter (\<lambda>c. map_option masked (parse_prefix4 c)) cs"

section \<open>Lemmas\<close>

lemma judge_Eligible:
  assumes "judge_task t tk = Eligible x"
  shows "et_LastStatus tk = ''RUNNING'' \<and> et_EnableExecuteCommand tk \<and> t_ID x = taskID (et_TaskArn tk) \<and>
         (tg_TaskID t = '''' \<or> t_ID x = tg_TaskID t) \<and>
         (\<exists>agent \<in> set (et_Containers tk). co_Name agent = tg_AgentContainer t \<and> exec_status agent = ''RUNNING'' \<and>
            t_RuntimeID x = co_RuntimeId agent)"
proof -
  from assms obtain agent where f: "find_agent (tg_AgentContainer t) (et_Containers tk) = Some agent"
    by (auto simp: judge_task_def Let_def split: if_splits option.splits)
  then have "agent \<in> set (et_Containers tk)" "co_Name agent = tg_AgentContainer t"
    by (auto simp: find_agent_def find_Some_first) (metis in_set_conv_decomp set_rev)
  with assms f show ?thesis by (auto simp: judge_task_def Let_def split: if_splits)
qed

lemma in_eligible: "x \<in> set (eligible_tasks t tks) \<longleftrightarrow> (\<exists>tk \<in> set tks. judge_task t tk = Eligible x)"
  by (force simp: eligible_tasks_def split: verdict.splits)

definition effective_target :: "Target \<Rightarrow> Target" where
  "effective_target t = (if tg_AgentContainer t = '''' then t\<lparr>tg_AgentContainer := DefaultAgentContainer\<rparr> else t)"

lemma DiscoverAll_Inr:
  assumes "DiscoverAll sorter api t = Inr ts"
  shows "\<exists>arns tks. api_ListTasks api = Inr arns \<and> api_DescribeTasks api arns = Inr tks \<and>
           eligible_tasks (effective_target t) tks \<noteq> [] \<and> ts = sorter (eligible_tasks (effective_target t) tks)"
  using assms
  by (auto simp: DiscoverAll_def effective_target_def Let_def split: sum.splits if_splits)

text \<open>The contract of \<^verbatim>\<open>sort.Slice\<close>: a permutation in order, ties in any order.\<close>

locale slice_sorter =
  fixes sorter :: "task list \<Rightarrow> task list"
  assumes mset_sorter: "mset (sorter ts) = mset ts"
    and sorted_sorter: "sorted (map t_StartedAt (sorter ts))"
begin

lemma sorter_Nil: "sorter ts = [] \<longleftrightarrow> ts = []"
  using mset_sorter[of ts] by (metis mset_zero_iff)

lemma DiscoverAll_not_empty: "DiscoverAll sorter api t \<noteq> Inr []"
  using DiscoverAll_Inr sorter_Nil by metis

lemma Discover_oldest:
  assumes "Discover sorter api t = Inr x"
  shows "\<exists>ts. DiscoverAll sorter api t = Inr ts \<and> x \<in> set ts \<and> (\<forall>y \<in> set ts. t_StartedAt x \<le> t_StartedAt y)"
proof -
  from assms obtain ts where ts: "DiscoverAll sorter api t = Inr ts" and x: "x = hd ts"
    by (auto simp: Discover_def split: sum.splits)
  from DiscoverAll_Inr[OF ts] obtain es where "ts = sorter es" by blast
  then have "sorted (map t_StartedAt ts)" by (simp add: sorted_sorter)
  moreover have "ts \<noteq> []" using ts DiscoverAll_not_empty by auto
  ultimately show ?thesis using ts x by (cases ts) auto
qed

end

sublocale slice_sorter \<subseteq> lister: task_lister "follow_list sorter t" for t
  by unfold_locales (auto simp: follow_list_def DiscoverAll_not_empty split: if_splits sum.splits)

interpretation started_sort: slice_sorter "sort_key t_StartedAt"
  by unfold_locales simp_all

lemma parse_page_canonical: "list_all canonical (parse_page cs)"
  by (induction cs) (auto simp: parse_page_def List.map_filter_simps masked_canonical parse_prefix4_wf split: option.splits)

lemma prefix_pages_chain:
  assumes "page_chain entries token css" and "page + length css \<le> maxPrefixListPages"
  shows "prefix_pages entries (\<lambda>_. False) page token out = Inr (out @ concat (map parse_page css))"
  using assms
proof (induction entries token css arbitrary: page out rule: page_chain.induct)
  case (2 entries token cs)
  then show ?case by (subst prefix_pages.simps) (simp add: parse_page_def)
next
  case (3 entries token cs cs' css)
  then obtain nt where nt: "entries token = Inr (cs, Some nt)" "token \<noteq> Some nt" "page_chain entries (Some nt) (cs' # css)"
    by auto
  have "prefix_pages entries (\<lambda>_. False) page token out = prefix_pages entries (\<lambda>_. False) (page + 1) (Some nt) (out @ parse_page cs)"
    using nt 3(3) by (subst prefix_pages.simps) (simp add: parse_page_def Let_def)
  then show ?case using 3(1)[OF nt(3), of "page + 1"] 3(3) by simp
qed simp

lemma prefix_pages_canonical:
  "list_all canonical out \<Longrightarrow> prefix_pages entries cancelled page token out = Inr ps \<Longrightarrow> list_all canonical ps"
proof (induction entries cancelled page token out arbitrary: ps rule: prefix_pages.induct)
  case (1 entries cancelled page token out)
  from 1(3) obtain cs nx where e: "entries token = Inr (cs, nx)" and p: "\<not> cancelled page" "page < maxPrefixListPages"
    by (subst (asm) prefix_pages.simps) (auto split: if_splits sum.splits prod.splits)
  have out': "list_all canonical (out @ List.map_filter (\<lambda>c. map_option masked (parse_prefix4 c)) cs)"
    using 1(2) parse_page_canonical[of cs] by (simp add: parse_page_def)
  show ?case
  proof (cases nx)
    case None
    then have "ps = out @ List.map_filter (\<lambda>c. map_option masked (parse_prefix4 c)) cs"
      using 1(3) e p by (simp add: prefix_pages.simps[of entries cancelled page] Let_def)
    then show ?thesis using out' by simp
  next
    case (Some nt)
    let ?out' = "out @ List.map_filter (\<lambda>c. map_option masked (parse_prefix4 c)) cs"
    have u: "prefix_pages entries cancelled page token out =
        (if token = Some nt then Inl (OpError ''the endpoint repeated its page token'')
         else prefix_pages entries cancelled (page + 1) nx ?out')"
      using e p Some by (subst prefix_pages.simps) (simp add: Let_def)
    have ne: "token \<noteq> Some nt" using 1(3) unfolding u by (rule contrapos_pn) simp
    have rec: "prefix_pages entries cancelled (page + 1) nx ?out' = Inr ps"
      using 1(3) ne unfolding u by (simp only: if_False)
    have "\<not> maxPrefixListPages \<le> page" using p by simp
    from 1(1)[OF p(1) this e refl refl Some ne out' rec] show ?thesis .
  qed
qed

lemma VPCCIDRs_canonical: "VPCCIDRs subnets vpcs s = Inr ps \<Longrightarrow> ps \<noteq> [] \<and> list_all canonical ps"
proof -
  have m: "list_all canonical (List.map_filter
      (\<lambda>a. if ca_Associated a then map_option masked (parse_prefix4 (ca_CidrBlock a)) else None) as)" for as
    by (induction as) (auto simp: List.map_filter_simps masked_canonical parse_prefix4_wf split: option.splits)
  show "VPCCIDRs subnets vpcs s = Inr ps \<Longrightarrow> ps \<noteq> [] \<and> list_all canonical ps"
    using m by (auto simp: VPCCIDRs_def Let_def split: sum.splits list.splits if_splits)
qed

lemma ServiceCIDRs_canonical:
  "list_all canonical out \<Longrightarrow> ServiceCIDRs plists entries cancelled region ss out = Inr ps \<Longrightarrow> list_all canonical ps"
  by (induction plists entries cancelled region ss out rule: ServiceCIDRs.induct)
     (auto dest: prefix_pages_canonical split: if_splits sum.splits list.splits)

section \<open>Properties\<close>


definition example_api :: ecs_api where
  "example_api =
    (let agent = \<lparr>co_Name = ''tetherd-agent'', co_RuntimeId = ''rt'',
           co_ManagedAgents = [\<lparr>ma_Name = ''ExecuteCommandAgent'', ma_LastStatus = ''RUNNING''\<rparr>]\<rparr>;
         tk = (\<lambda>arn started. \<lparr>et_TaskArn = arn, et_LastStatus = ''RUNNING'', et_EnableExecuteCommand = True,
           et_Containers = [agent], et_TaskDefinitionArn = ''td'', et_StartedAt = Some started, et_Attachments = []\<rparr>)
     in \<lparr>api_ListTasks = Inr [''arn/c/new'', ''arn/c/old''],
         api_DescribeTasks = (\<lambda>_. Inr [tk ''arn/c/new'' 9, tk ''arn/c/old'' 4])\<rparr>)"

definition example_target :: Target where
  "example_target = \<lparr>tg_Cluster = ''c'', tg_Service = ''s'', tg_TaskID = '''', tg_AgentContainer = ''''\<rparr>"


text \<open>Reading a managed prefix list visits at most \<^verbatim>\<open>maxPrefixListPages\<close> pages and always ends;
  for an endpoint that serves a list of up to that many pages, the result is every IPv4 prefix of every page, in
  order.\<close>

lemma prefix_list_is_read_to_the_end:
  assumes "page_chain entries None css" and "length css \<le> maxPrefixListPages"
  shows "prefix_pages entries (\<lambda>_. False) 0 None out = Inr (out @ concat (map parse_page css))"
  using prefix_pages_chain[OF assms(1), of 0] assms(2) by simp

end
