(* ===== verification/ChildEnv.thy ===== *)
theory ChildEnv
  imports EnvMerge CliOptions
begin

text \<open>
  The environment of the child process: the endpoint rewriting of \<^verbatim>\<open>internal/cli/credproxy.go\<close> and the
  task environment, task role and child environment of \<^verbatim>\<open>internal/cli/run.go\<close>.
\<close>

section \<open>URLs\<close>

text \<open>
  What the code uses of \<^verbatim>\<open>url.URL\<close>: scheme, host name, request URI and the text with another authority.
\<close>

record url =
  u_Scheme :: string
  u_Hostname :: string
  u_RequestURI :: string
  u_rest :: string \<comment> \<open>what follows the authority in \<^verbatim>\<open>String()\<close>\<close>

text \<open>
  Values made of letters, digits and delimiters that need no escaping are parsed here; for the others (percent
  escapes, fragments, user information, bracketed hosts) the answer of \<^verbatim>\<open>url.Parse\<close> is a parameter. A
  plain value that does not begin with \<^verbatim>\<open>http://\<close> is not distinguished from one that does not parse.
\<close>

definition url_char :: "char \<Rightarrow> bool" where
  "url_char c =
     (let n = of_char c :: nat in
      is_digit c \<or> 65 \<le> n \<and> n \<le> 90 \<or> 97 \<le> n \<and> n \<le> 122 \<or> c \<in> set ''-._~/?=&:+,;$!*()'')"

definition plain_url :: "string \<Rightarrow> bool" where
  "plain_url v = (list_all url_char v \<and> length (filter (\<lambda>c. c = CHR '':'') (takeWhile (\<lambda>c. c \<notin> set ''/?'') (drop 7 v))) \<le> 1)"

definition query_suffix :: "string option \<Rightarrow> string" where
  "query_suffix q = (case q of None \<Rightarrow> '''' | Some s \<Rightarrow> ''?'' @ s)"

definition plain_parse :: "string \<Rightarrow> url option" where
  "plain_parse v =
     (if \<not> has_prefix (to_lower v) ''http://'' then None
      else
        let rest = drop 7 v;
            rq = (case cut CHR ''?'' rest of Some (r, q) \<Rightarrow> (r, Some q) | None \<Rightarrow> (rest, None));
            authority = takeWhile (\<lambda>c. c \<noteq> CHR ''/'') (fst rq);
            path = dropWhile (\<lambda>c. c \<noteq> CHR ''/'') (fst rq);
            host = takeWhile (\<lambda>c. c \<noteq> CHR '':'') authority;
            port = drop 1 (dropWhile (\<lambda>c. c \<noteq> CHR '':'') authority)
        in if \<not> list_all is_digit port then None
           else Some \<lparr>u_Scheme = ''http'', u_Hostname = host,
                  u_RequestURI = (if path = '''' then ''/'' else path) @ query_suffix (snd rq),
                  u_rest = path @ query_suffix (snd rq)\<rparr>)"

type_synonym url_lib = "string \<Rightarrow> url option"

definition url_parse :: "url_lib \<Rightarrow> string \<Rightarrow> url option" where
  "url_parse lib v = (if plain_url v then plain_parse v else lib v)"

section \<open>The task's endpoint\<close>

definition CredentialsHost :: string where "CredentialsHost = ''169.254.170.2''"

definition relativeURIVar :: string where "relativeURIVar = ''AWS_CONTAINER_CREDENTIALS_RELATIVE_URI''"
definition fullURIVar :: string where "fullURIVar = ''AWS_CONTAINER_CREDENTIALS_FULL_URI''"

definition containerMetadataVars :: "string list" where
  "containerMetadataVars = [''ECS_CONTAINER_METADATA_URI_V4'', ''ECS_CONTAINER_METADATA_URI'', ''ECS_AGENT_URI'']"

definition endpointURL :: "url_lib \<Rightarrow> string \<Rightarrow> url option" where
  "endpointURL lib v =
     (if v = '''' then None
      else case url_parse lib v of
        None \<Rightarrow> None
      | Some u \<Rightarrow> if u_Scheme u \<noteq> ''http'' \<or> u_Hostname u \<noteq> CredentialsHost then None else Some u)"

definition swapHost :: "url_lib \<Rightarrow> string \<Rightarrow> string \<Rightarrow> string option" where
  "swapHost lib v addr =
     (case endpointURL lib v of
        None \<Rightarrow> None
      | Some u \<Rightarrow> Some (u_Scheme u @ ''://'' @ addr @ u_rest u))"

definition ContainerCredentialsPath :: "url_lib \<Rightarrow> (string, string) gomap \<Rightarrow> string" where
  "ContainerCredentialsPath lib taskEnv =
     (let rel = mstr taskEnv relativeURIVar in
      if rel \<noteq> '''' then (if \<not> has_prefix rel ''/'' then ''/'' @ rel else rel)
      else case endpointURL lib (mstr taskEnv fullURIVar) of
        Some u \<Rightarrow> u_RequestURI u
      | None \<Rightarrow> '''')"

fun swap_vars :: "url_lib \<Rightarrow> (string, string) gomap \<Rightarrow> string \<Rightarrow> string list \<Rightarrow> (string, string) gomap \<Rightarrow> (string, string) gomap" where
  "swap_vars lib taskEnv addr [] out = out"
| "swap_vars lib taskEnv addr (k # ks) out =
     swap_vars lib taskEnv addr ks
       (case swapHost lib (mstr taskEnv k) addr of Some v \<Rightarrow> mput k v out | None \<Rightarrow> out)"

definition RewriteContainerEndpoints :: "url_lib \<Rightarrow> (string, string) gomap \<Rightarrow> string \<Rightarrow> (string, string) gomap" where
  "RewriteContainerEndpoints lib taskEnv addr =
     (let p = ContainerCredentialsPath lib taskEnv;
          out = (if p \<noteq> '''' then [(fullURIVar, ''http://'' @ addr @ p)] else [])
      in swap_vars lib taskEnv addr containerMetadataVars out)"

definition UnroutableEndpointVars :: "(string, string) gomap \<Rightarrow> (string, string) gomap \<Rightarrow> string list" where
  "UnroutableEndpointVars taskEnv rewritten =
     sort (map fst (filter (\<lambda>(k, v). mget rewritten k = None \<and> contains v CredentialsHost) taskEnv))"

section \<open>The task's environment\<close>

datatype env_status = EnvSkipped | EnvUnavailable string | EnvVars nat

definition resolveTaskEnv :: "welcome_msg \<Rightarrow> RunOptions \<Rightarrow> cli_error + ((string, string) gomap \<times> env_status)" where
  "resolveTaskEnv w opts =
     (if o_NoEnv opts then Inr ([], EnvSkipped)
      else if w_EnvError w \<noteq> '''' \<and> o_Transport opts = ''direct'' then Inr ([], EnvUnavailable (w_EnvError w))
      else if w_EnvError w \<noteq> '''' then Inl (OpError (w_EnvError w))
      else Inr (w_AppEnv w, EnvVars (length (w_AppEnv w))))"

definition checkTargetEnv :: "welcome_msg \<Rightarrow> RunOptions \<Rightarrow> cli_error option" where
  "checkTargetEnv w opts =
     (if o_Transport opts = ''ssm'' \<and> w_Env w \<noteq> o_TargetEnv opts then Some (OpError ''refusing to attach'') else None)"

definition taskRoleEnv :: "(string, string) gomap \<Rightarrow> string \<Rightarrow> string \<Rightarrow> (string, string) gomap" where
  "taskRoleEnv taskEnv region emptyFile =
     (let out = [(''AWS_CONFIG_FILE'', emptyFile), (''AWS_SHARED_CREDENTIALS_FILE'', emptyFile)];
          region' = (if mstr taskEnv ''AWS_REGION'' \<noteq> '''' then mstr taskEnv ''AWS_REGION'' else region)
      in if region' \<noteq> '''' then mput ''AWS_DEFAULT_REGION'' region' (mput ''AWS_REGION'' region' out) else out)"

definition plural :: "nat \<Rightarrow> string" where
  "plural n = (if n = 1 then ''s'' else '''')"

section \<open>The child\<close>

text \<open>
  \<open>hide\<close> is the empty file that hides the shared AWS configuration, or \<open>None\<close> when it could not be made.
\<close>

definition override_env :: "url_lib \<Rightarrow> (string, string) gomap \<Rightarrow> string \<Rightarrow> string \<Rightarrow> string option \<Rightarrow> (string, string) gomap" where
  "override_env lib taskEnv addr region hide =
     (let rewritten = RewriteContainerEndpoints lib taskEnv addr in
      if ContainerCredentialsPath lib taskEnv = '''' then rewritten
      else case hide of
        None \<Rightarrow> rewritten
      | Some f \<Rightarrow> mputs rewritten (taskRoleEnv taskEnv region f))"

definition merge_options :: "url_lib \<Rightarrow> RunOptions \<Rightarrow> (string, string) gomap \<Rightarrow> (string, string) gomap \<Rightarrow> env_options" where
  "merge_options lib opts taskEnv over =
     (let mo = \<lparr>eo_Override = mputs (o_EnvOverride opts) over, eo_Exclude = o_EnvExclude opts,
                eo_DropAWSContainer = o_NoNetwork opts, eo_StripLocal = []\<rparr> in
      if ContainerCredentialsPath lib taskEnv \<noteq> '''' then
        mo\<lparr>eo_Exclude := o_EnvExclude opts @ [relativeURIVar],
           eo_StripLocal := LocalAWSCredentialVars @ [relativeURIVar]\<rparr>
      else mo)"

definition child_env ::
  "url_lib \<Rightarrow> RunOptions \<Rightarrow> string list \<Rightarrow> (string, string) gomap \<Rightarrow> string \<Rightarrow> string \<Rightarrow> string option \<Rightarrow> string list" where
  "child_env lib opts loc taskEnv addr region hide =
     Merge loc taskEnv (merge_options lib opts taskEnv (override_env lib taskEnv addr region hide))"

section \<open>Lemmas\<close>

lemma swap_vars_other: "k \<notin> set ks \<Longrightarrow> mget (swap_vars lib taskEnv addr ks out) k = mget out k"
  by (induction ks arbitrary: out) (auto split: option.splits)

lemma swap_vars_wf: "wf_map out \<Longrightarrow> wf_map (swap_vars lib taskEnv addr ks out)"
  by (induction ks arbitrary: out) (auto split: option.splits)

lemma swap_vars_plain:
  "plain_keys out \<Longrightarrow> list_all (\<lambda>k. CHR ''='' \<notin> set k) ks \<Longrightarrow> plain_keys (swap_vars lib taskEnv addr ks out)"
  by (induction ks arbitrary: out) (auto simp: plain_keys_mput split: option.splits)

lemma Rewrite_get:
  assumes "k \<notin> set containerMetadataVars"
  shows "mget (RewriteContainerEndpoints lib taskEnv addr) k =
    (if k = fullURIVar \<and> ContainerCredentialsPath lib taskEnv \<noteq> ''''
     then Some (''http://'' @ addr @ ContainerCredentialsPath lib taskEnv) else None)"
  using assms by (auto simp: RewriteContainerEndpoints_def Let_def swap_vars_other)

lemma Rewrite_wf: "wf_map (RewriteContainerEndpoints lib taskEnv addr)"
  unfolding RewriteContainerEndpoints_def Let_def by (rule swap_vars_wf) (simp add: wf_map_def mkeys_def)

lemma Rewrite_plain: "plain_keys (RewriteContainerEndpoints lib taskEnv addr)"
  unfolding RewriteContainerEndpoints_def Let_def
  by (rule swap_vars_plain) (auto simp: containerMetadataVars_def fullURIVar_def)

lemma taskRoleEnv_wf: "wf_map (taskRoleEnv taskEnv region f)"
  unfolding taskRoleEnv_def Let_def by (auto simp: wf_map_def mkeys_def mput_def)

lemma taskRoleEnv_plain: "plain_keys (taskRoleEnv taskEnv region f)"
  unfolding taskRoleEnv_def Let_def by (auto intro!: plain_keys_mput)

lemma taskRoleEnv_get:
  "mget (taskRoleEnv taskEnv region f) ''AWS_CONFIG_FILE'' = Some f"
  "mget (taskRoleEnv taskEnv region f) ''AWS_SHARED_CREDENTIALS_FILE'' = Some f"
  "k \<notin> set [''AWS_CONFIG_FILE'', ''AWS_SHARED_CREDENTIALS_FILE'', ''AWS_REGION'', ''AWS_DEFAULT_REGION''] \<Longrightarrow>
     mget (taskRoleEnv taskEnv region f) k = None"
  unfolding taskRoleEnv_def Let_def by auto

lemma override_env_wf: "wf_map (override_env lib taskEnv addr region hide)"
  by (auto simp: override_env_def Let_def Rewrite_wf split: option.splits)

lemma override_env_plain: "plain_keys (override_env lib taskEnv addr region hide)"
  by (auto simp: override_env_def Let_def Rewrite_plain taskRoleEnv_plain plain_keys_mputs split: option.splits)

lemma override_env_get:
  assumes "k \<notin> set containerMetadataVars"
    and "k \<notin> set [''AWS_CONFIG_FILE'', ''AWS_SHARED_CREDENTIALS_FILE'', ''AWS_REGION'', ''AWS_DEFAULT_REGION'']"
  shows "mget (override_env lib taskEnv addr region hide) k =
    (if k = fullURIVar \<and> ContainerCredentialsPath lib taskEnv \<noteq> ''''
     then Some (''http://'' @ addr @ ContainerCredentialsPath lib taskEnv) else None)"
  using assms(1) taskRoleEnv_get(3)[OF assms(2)]
  by (auto simp: override_env_def Let_def Rewrite_get mget_mputs taskRoleEnv_wf split: option.splits)

lemma override_env_hides:
  assumes "ContainerCredentialsPath lib taskEnv \<noteq> ''''" and "k \<in> {''AWS_CONFIG_FILE'', ''AWS_SHARED_CREDENTIALS_FILE''}"
  shows "mget (override_env lib taskEnv addr region (Some f)) k = Some f"
  using assms taskRoleEnv_get(1,2)[of taskEnv region f]
  by (auto simp: override_env_def Let_def mget_mputs taskRoleEnv_wf)

lemma credential_vars_apart:
  assumes "k \<in> set LocalAWSCredentialVars \<or> k = relativeURIVar"
  shows "k \<notin> set containerMetadataVars"
    and "k \<notin> set [''AWS_CONFIG_FILE'', ''AWS_SHARED_CREDENTIALS_FILE'', ''AWS_REGION'', ''AWS_DEFAULT_REGION'']"
  using assms by (auto simp: LocalAWSCredentialVars_def containerMetadataVars_def relativeURIVar_def)

lemma Excluded_member: "k \<in> set ps \<Longrightarrow> \<not> has_suffix k ''*'' \<Longrightarrow> Excluded k ps"
  by (induction ps) auto

lemma credential_vars_plain: "k \<in> set LocalAWSCredentialVars \<or> k = relativeURIVar \<Longrightarrow> \<not> has_suffix k ''*''"
  by (auto simp: LocalAWSCredentialVars_def relativeURIVar_def has_suffix_def)

section \<open>Properties\<close>


text \<open>
  An override naming the relative endpoint variable survives, although it would send SDKs past the loopback proxy.
\<close>

lemma override_keeps_relative_uri:
  assumes "wf_map taskEnv" "wf_map (o_EnvOverride opts)" "plain_keys taskEnv" "plain_keys (o_EnvOverride opts)"
    and "mget (o_EnvOverride opts) relativeURIVar = Some v"
  shows "env_get (child_env lib opts loc taskEnv addr region hide) relativeURIVar = Some v"
proof -
  have ov: "eo_Override (merge_options lib opts taskEnv over) = mputs (o_EnvOverride opts) over" for over
    by (simp add: merge_options_def Let_def)
  have "mget (override_env lib taskEnv addr region hide) relativeURIVar = None"
    using override_env_get[OF credential_vars_apart, of relativeURIVar lib taskEnv addr region hide]
    by (simp add: relativeURIVar_def fullURIVar_def)
  then show ?thesis unfolding child_env_def using assms
    by (subst env_get_Merge) (simp_all add: ov merged_get plain_keys_mputs override_env_plain mget_mputs override_env_wf)
qed

lemma plural_one: "plural 1 = ''s''" "n \<noteq> 1 \<Longrightarrow> plural n = ''''"
  by (simp_all add: plural_def)
end
