(* ===== verification/Attach.thy ===== *)
theory Attach
  imports Discover ChildEnv Registry
begin

text \<open>
  How a command of the CLI gets from its options to sessions with the agents (\<^verbatim>\<open>internal/cli/run.go\<close>,
  \<^verbatim>\<open>deps.go\<close>): the provider, the discovery of the tasks, the target line, one attach attempt, and the
  retry of an attach that was refused as \<^verbatim>\<open>duplicate_user\<close>. Ages are rendered as
  \<^verbatim>\<open>status.go\<close> does.
\<close>

section \<open>Text\<close>

definition ellipsis :: string where "ellipsis = [CHR 0xE2, CHR 0x80, CHR 0xA6]"

definition short :: "string \<Rightarrow> string" where
  "short i = (if 8 < length i then take 8 i @ ellipsis else i)"

fun joinArgs_from :: "nat \<Rightarrow> string \<Rightarrow> string list \<Rightarrow> string" where
  "joinArgs_from i s [] = s"
| "joinArgs_from i s (x # a) = joinArgs_from (i + 1) ((if 0 < i then s @ '' '' else s) @ x) a"

definition joinArgs :: "string list \<Rightarrow> string" where
  "joinArgs a = joinArgs_from 0 '''' a"

definition second :: int where "second = 1000000000"
definition minute :: int where "minute = 60 * second"
definition hour :: int where "hour = 60 * minute"

text \<open>
  \<^verbatim>\<open>d.Seconds()\<close> and its like are floating-point; for the whole units that are printed they are the
  integer quotients.
\<close>

definition humanAgo :: "int \<Rightarrow> string" where
  "humanAgo d0 =
     (let d = (if d0 < 0 then 0 else d0) in
      if d < minute then itoa_int (d div second) @ ''s''
      else if d < hour then itoa_int (d div minute) @ ''m''
      else itoa_int (d div hour) @ ''h'' @ itoa_int (d div minute mod 60) @ ''m'')"

definition startedAgo :: "time \<Rightarrow> time \<Rightarrow> string" where
  "startedAgo now t = (if t = 0 then '''' else ''  (started '' @ humanAgo (now - t) @ '' ago)'')"

definition targetLine :: "time \<Rightarrow> RunOptions \<Rightarrow> task list \<Rightarrow> string" where
  "targetLine now opts tasks =
     (let primary = hd tasks; started = startedAgo now (t_StartedAt primary) in
      if length tasks = 1 then o_Cluster opts @ ''/'' @ o_Service opts @ ''  task '' @ short (t_ID primary) @ started
      else
        let ids = (short (t_ID primary) @ '' primary'') # map (\<lambda>t. short (t_ID t)) (tl tasks) in
        o_Cluster opts @ ''/'' @ o_Service opts @ ''  '' @ itoa (length tasks) @ '' tasks ('' @ join_with '', '' ids @ '')'' @ started)"

section \<open>Providers\<close>

record aws_provider =
  ap_Region :: string
  ap_Discover :: "Target \<Rightarrow> cli_error + task"
  ap_DiscoverAll :: "Target \<Rightarrow> cli_error + task list"
  ap_VPCCIDRs :: "string \<Rightarrow> cli_error + prefix list"
  ap_ServiceCIDRs :: "string list \<Rightarrow> cli_error + prefix list"
  ap_SecretNames :: "string \<Rightarrow> string + string set"
  ap_PIDMode :: "string \<Rightarrow> cli_error + string"
  ap_Identity :: "cli_error + string"

definition ecsTarget :: "RunOptions \<Rightarrow> Target" where
  "ecsTarget opts =
     \<lparr>tg_Cluster = o_Cluster opts, tg_Service = o_Service opts, tg_TaskID = o_TaskID opts,
      tg_AgentContainer = o_AgentContainer opts\<rparr>"

definition op_error :: "('e \<Rightarrow> string) \<Rightarrow> 'e + 'a \<Rightarrow> cli_error + 'a" where
  "op_error render r = (case r of Inl e \<Rightarrow> Inl (OpError (render e)) | Inr x \<Rightarrow> Inr x)"

text \<open>
  \<^verbatim>\<open>directProvider\<close>; it reads task definitions with no API at all, so \<open>nil_api\<close> is whatever calling
  that would do.
\<close>

definition directProvider :: "(string \<Rightarrow> string + task_def option) \<Rightarrow> aws_provider" where
  "directProvider nil_api =
     \<lparr>ap_Region = '''',
      ap_Discover = (\<lambda>_. Inl (OpError ''--transport direct has no discovery; the task is --agent-addr itself'')),
      ap_DiscoverAll = (\<lambda>_. Inl (OpError ''--transport direct has no discovery; the task is --agent-addr itself'')),
      ap_VPCCIDRs = (\<lambda>_. Inl (OpError ''--transport direct has no VPC to look up; use --remote-cidr'')),
      ap_ServiceCIDRs = (\<lambda>_. Inl (OpError ''--transport direct cannot resolve managed prefix lists (no AWS session)'')),
      ap_SecretNames = SecretNames nil_api,
      ap_PIDMode = (\<lambda>arn. op_error id (PIDMode nil_api arn)),
      ap_Identity = Inl (OpError ''--transport direct has no AWS session, so there is no caller identity to report'')\<rparr>"

text \<open>The production provider over the AWS APIs; \<open>render\<close> is the text of a discovery error.\<close>

record aws_apis =
  aa_Region :: string
  aa_ecs :: ecs_api
  aa_subnets :: "string \<Rightarrow> string + string list"
  aa_vpcs :: "string \<Rightarrow> string + cidr_assoc list list"
  aa_plists :: "string \<Rightarrow> string + string list"
  aa_entries :: "string \<Rightarrow> string option \<Rightarrow> string + (string list \<times> string option)"
  aa_cancelled :: "string \<Rightarrow> nat \<Rightarrow> bool"
  aa_taskdef :: "string \<Rightarrow> string + task_def option"
  aa_caller :: "string + string"

definition sdkProvider :: "(discover_error \<Rightarrow> string) \<Rightarrow> (task list \<Rightarrow> task list) \<Rightarrow> aws_apis \<Rightarrow> aws_provider" where
  "sdkProvider render sorter aa =
     \<lparr>ap_Region = aa_Region aa,
      ap_Discover = (\<lambda>t. op_error render (Discover sorter (aa_ecs aa) t)),
      ap_DiscoverAll = (\<lambda>t. op_error render (DiscoverAll sorter (aa_ecs aa) t)),
      ap_VPCCIDRs = VPCCIDRs (aa_subnets aa) (aa_vpcs aa),
      ap_ServiceCIDRs = (\<lambda>ss. ServiceCIDRs (aa_plists aa) (aa_entries aa) (aa_cancelled aa) (aa_Region aa) ss []),
      ap_SecretNames = SecretNames (aa_taskdef aa),
      ap_PIDMode = (\<lambda>arn. op_error id (PIDMode (aa_taskdef aa) arn)),
      ap_Identity = op_error id (aa_caller aa)\<rparr>"

section \<open>Discovery\<close>

definition direct_task :: "RunOptions \<Rightarrow> task" where
  "direct_task opts = zero_task\<lparr>t_ID := ''direct'', t_Addr := o_AgentAddr opts\<rparr>"

text \<open>
  \<open>newAWS\<close> is \<^verbatim>\<open>Deps.NewAWSProvider\<close>. The third component is what is logged.
\<close>

definition discoverTask ::
  "(RunOptions \<Rightarrow> cli_error + aws_provider) \<Rightarrow> aws_provider \<Rightarrow> time \<Rightarrow> RunOptions \<Rightarrow> cli_error + (aws_provider \<times> task \<times> string list)" where
  "discoverTask newAWS direct now opts =
     (if o_Transport opts = ''direct'' then
        (if o_AgentAddr opts = '''' then Inl (UsageError ''--transport direct needs --agent-addr'')
         else Inr (direct, direct_task opts, []))
      else if o_Transport opts = ''ssm'' then
        (if o_Cluster opts = '''' \<or> o_Service opts = '''' then Inl (UsageError ''--transport ssm needs --cluster and --service'')
         else case newAWS opts of
           Inl e \<Rightarrow> Inl (Wrapped ''aws config'' e)
         | Inr prov \<Rightarrow>
             (case ap_Discover prov (ecsTarget opts) of
                Inl e \<Rightarrow> Inl e
              | Inr task \<Rightarrow> Inr (prov, task, [targetLine now opts [task]])))
      else Inl (UsageError (''unknown transport '' @ quoted (o_Transport opts) @ '' (ssm | direct)'')))"

definition discoverTasks ::
  "(RunOptions \<Rightarrow> cli_error + aws_provider) \<Rightarrow> aws_provider \<Rightarrow> time \<Rightarrow> RunOptions \<Rightarrow>
   cli_error + (aws_provider \<times> task list \<times> string list)" where
  "discoverTasks newAWS direct now opts =
     (if o_Transport opts = ''direct'' then
        (if o_AgentAddr opts = '''' then Inl (UsageError ''--transport direct needs --agent-addr'')
         else Inr (direct, [direct_task opts], []))
      else if o_Transport opts = ''ssm'' then
        (if o_Cluster opts = '''' \<or> o_Service opts = '''' then Inl (UsageError ''--transport ssm needs --cluster and --service'')
         else case newAWS opts of
           Inl e \<Rightarrow> Inl (Wrapped ''aws config'' e)
         | Inr prov \<Rightarrow>
             (case ap_DiscoverAll prov (ecsTarget opts) of
                Inl e \<Rightarrow> Inl e
              | Inr tasks \<Rightarrow> Inr (prov, tasks, [targetLine now opts tasks])))
      else Inl (UsageError (''unknown transport '' @ quoted (o_Transport opts) @ '' (ssm | direct)'')))"

section \<open>One attach attempt\<close>

text \<open>
  What the world does with one attempt: the transport fails, or it connects and the handshake goes as
  \<^verbatim>\<open>session.Dial\<close> is told. The boolean of \<open>attachAgent\<close> is whether its connection is left open.
\<close>

datatype dial_try = NoConnection cli_error | Connection "string option" decoded

definition dial_failure :: "dial_error \<Rightarrow> cli_error" where
  "dial_failure e =
     (case e of
        TransportError s \<Rightarrow> OpError s
      | WaitingForWelcome s \<Rightarrow> OpError s
      | BadWelcome s \<Rightarrow> OpError s
      | dial_error.Rejected p \<Rightarrow> RejectedError p
      | UnexpectedBeforeWelcome s \<Rightarrow> OpError s)"

definition attachAgent :: "dial_try \<Rightarrow> (cli_error + welcome_msg) \<times> bool" where
  "attachAgent d =
     (case d of
        NoConnection e \<Rightarrow> (Inl (Wrapped ''connect to agent'' e), False)
      | Connection tr reply \<Rightarrow>
          (case Dial tr reply of
             Inl e \<Rightarrow> (Inl (dial_failure e), False)
           | Inr w \<Rightarrow> (Inr w, True)))"

fun isDuplicateUser :: "cli_error \<Rightarrow> bool" where
  "isDuplicateUser (RejectedError p) = (e_Code p = CodeDuplicateUser)"
| "isDuplicateUser (Wrapped _ e) = isDuplicateUser e"
| "isDuplicateUser (UsageError _) = False"
| "isDuplicateUser (OpError _) = False"
| "isDuplicateUser (ContextError _) = False"

section \<open>Retrying\<close>

definition DefaultAttachRetryBudget :: int where "DefaultAttachRetryBudget = 2 * second"
definition attachRetryInterval :: int where "attachRetryInterval = 100000000"

text \<open>
  The attempts of one attach: what attempt \<open>i\<close> meets and how long it takes, by how much the wait after it
  outlasts the interval, and whether the context ends during that wait.
\<close>

record attempts =
  at_try :: "nat \<Rightarrow> dial_try"
  at_took :: "nat \<Rightarrow> nat"
  at_late :: "nat \<Rightarrow> nat"
  at_cancelled :: "nat \<Rightarrow> bool"

text \<open>The loop of \<^verbatim>\<open>attachWithRetry\<close>, with the number of attempts it made and the time it ended.\<close>

function attach_loop :: "attempts \<Rightarrow> int \<Rightarrow> time \<Rightarrow> nat \<Rightarrow> (cli_error + welcome_msg) \<times> nat \<times> time" where
  "attach_loop at deadline now i =
     (let now' = now + int (at_took at i) in
      case fst (attachAgent (at_try at i)) of
        Inr w \<Rightarrow> (Inr w, i + 1, now')
      | Inl e \<Rightarrow>
          if \<not> isDuplicateUser e then (Inl e, i + 1, now')
          else if \<not> now' < deadline then (Inl (Wrapped ''the agent kept refusing to attach'' e), i + 1, now')
          else if at_cancelled at i then (Inl e, i + 1, now')
          else attach_loop at deadline (now' + attachRetryInterval + int (at_late at i)) (i + 1))"
  by pat_completeness auto
termination
  by (relation "measure (\<lambda>(_, deadline, now, _). nat (deadline - now))") (auto simp: attachRetryInterval_def)

declare attach_loop.simps [simp del]

definition retry_budget :: "int \<Rightarrow> int" where
  "retry_budget budget = (if budget \<le> 0 then DefaultAttachRetryBudget else budget)"

definition attachWithRetry :: "int \<Rightarrow> attempts \<Rightarrow> time \<Rightarrow> (cli_error + welcome_msg) \<times> nat \<times> time" where
  "attachWithRetry budget at now = attach_loop at (now + retry_budget budget) now 0"

definition dialAgent :: "int \<Rightarrow> incoming \<Rightarrow> attempts \<Rightarrow> time \<Rightarrow> (cli_error + welcome_msg) \<times> nat \<times> time" where
  "dialAgent budget inc at now =
     (if \<not> inc_Enabled inc then (fst (attachAgent (at_try at 0)), 1, now + int (at_took at 0))
      else attachWithRetry budget at now)"

section \<open>Lemmas\<close>

lemma joinArgs_from_join:
  "joinArgs_from (Suc i) s a = s @ concat (map (\<lambda>x. '' '' @ x) a)"
  by (induction a arbitrary: i s) auto

lemma join_with_concat: "a \<noteq> [] \<Longrightarrow> join_with sep a = hd a @ concat (map (\<lambda>x. sep @ x) (tl a))"
  by (induction sep a rule: join_with.induct) auto

lemma joinArgs_join: "joinArgs a = join_with '' '' a"
  by (cases a) (simp_all add: joinArgs_def joinArgs_from_join join_with_concat)

text \<open>What the commands rely on in a provider: zero tasks is an error, and the first task is the oldest.\<close>

locale lists_tasks =
  fixes discoverAll :: "Target \<Rightarrow> cli_error + task list"
  assumes never_empty: "discoverAll t \<noteq> Inr []"
    and oldest_first: "discoverAll t = Inr ts \<Longrightarrow> sorted (map t_StartedAt ts)"
begin

lemma first_is_oldest: "discoverAll t = Inr ts \<Longrightarrow> ts \<noteq> [] \<and> (\<forall>y \<in> set ts. t_StartedAt (hd ts) \<le> t_StartedAt y)"
  using never_empty[of t] oldest_first[of t ts] by (cases ts) auto

lemma discoverTasks_first:
  assumes "discoverTasks newAWS direct now opts = Inr (prov, tasks, out)"
    and "\<And>p. newAWS opts = Inr p \<Longrightarrow> ap_DiscoverAll p = discoverAll"
  shows "tasks \<noteq> [] \<and> (\<forall>y \<in> set tasks. t_StartedAt (hd tasks) \<le> t_StartedAt y)"
  using assms first_is_oldest by (auto simp: discoverTasks_def split: if_splits sum.splits)

end

lemma op_error_Inr: "op_error render r = Inr x \<longleftrightarrow> r = Inr x"
  by (auto simp: op_error_def split: sum.splits)

interpretation sdk: lists_tasks "ap_DiscoverAll (sdkProvider render (sort_key t_StartedAt) aa)" for render aa
proof unfold_locales
  fix t ts
  show "ap_DiscoverAll (sdkProvider render (sort_key t_StartedAt) aa) t \<noteq> Inr []"
    using DiscoverAll_Inr[of "sort_key t_StartedAt" "aa_ecs aa" t "[]"]
    by (auto simp: sdkProvider_def op_error_Inr dest!: arg_cong[where f = length])
  assume "ap_DiscoverAll (sdkProvider render (sort_key t_StartedAt) aa) t = Inr ts"
  then show "sorted (map t_StartedAt ts)"
    using DiscoverAll_Inr[of "sort_key t_StartedAt" "aa_ecs aa" t ts] by (auto simp: sdkProvider_def op_error_Inr)
qed

interpretation direct: lists_tasks "ap_DiscoverAll (directProvider nil_api)" for nil_api
  by unfold_locales (auto simp: directProvider_def)

subsection \<open>The retry loop\<close>

text \<open>When attempt \<open>k\<close> starts, as long as the loop goes on.\<close>

fun attempt_start :: "attempts \<Rightarrow> time \<Rightarrow> nat \<Rightarrow> time" where
  "attempt_start at now 0 = now"
| "attempt_start at now (Suc k) =
     attempt_start at now k + int (at_took at k) + attachRetryInterval + int (at_late at k)"

definition attempt_end :: "attempts \<Rightarrow> time \<Rightarrow> nat \<Rightarrow> time" where
  "attempt_end at now k = attempt_start at now k + int (at_took at k)"

definition refused :: "attempts \<Rightarrow> nat \<Rightarrow> bool" where
  "refused at k = (case fst (attachAgent (at_try at k)) of Inl e \<Rightarrow> isDuplicateUser e | Inr _ \<Rightarrow> False)"

lemma attempt_start_mono: "j \<le> k \<Longrightarrow> attempt_start at now j + int (k - j) * attachRetryInterval \<le> attempt_start at now k"
proof (induction k)
  case (Suc k)
  show ?case
  proof (cases "j = Suc k")
    case False
    with Suc have "attempt_start at now j + int (k - j) * attachRetryInterval \<le> attempt_start at now k" by simp
    moreover have "int (Suc k - j) = int (k - j) + 1" using False Suc.prems by simp
    ultimately show ?thesis by (simp add: distrib_right)
  qed simp
qed simp

lemma attempt_end_mono: "j \<le> k \<Longrightarrow> attempt_end at now j \<le> attempt_end at now k"
proof (cases "j = k")
  case False
  assume "j \<le> k"
  with False have "Suc j \<le> k" by simp
  from attempt_start_mono[OF this, of at now] have "attempt_start at now (Suc j) \<le> attempt_start at now k"
    using mult_nonneg_nonneg[of "int (k - Suc j)" attachRetryInterval] by (simp add: attachRetryInterval_def)
  then show ?thesis by (simp add: attempt_end_def attachRetryInterval_def)
qed simp

lemma attach_loop_goes_on:
  assumes "\<forall>j < k. refused at j \<and> \<not> at_cancelled at j \<and> attempt_end at now j < deadline"
  shows "attach_loop at deadline now 0 = attach_loop at deadline (attempt_start at now k) k"
  using assms
proof (induction k)
  case (Suc k)
  then have "attach_loop at deadline now 0 = attach_loop at deadline (attempt_start at now k) k" by simp
  also have "\<dots> = attach_loop at deadline (attempt_start at now (Suc k)) (Suc k)"
    using Suc.prems by (subst attach_loop.simps) (auto simp: Let_def refused_def attempt_end_def split: sum.splits)
  finally show ?case .
qed simp

text \<open>Some attempt is the last: time runs out.\<close>

lemma last_attempt:
  "\<exists>k. (\<forall>j < k. refused at j \<and> \<not> at_cancelled at j \<and> attempt_end at now j < deadline) \<and>
       \<not> (refused at k \<and> \<not> at_cancelled at k \<and> attempt_end at now k < deadline)"
proof -
  let ?P = "\<lambda>k. \<not> (refused at k \<and> \<not> at_cancelled at k \<and> attempt_end at now k < deadline)"
  let ?n = "nat (deadline - now)"
  have "now + int ?n * attachRetryInterval \<le> attempt_start at now ?n" using attempt_start_mono[of 0 ?n at now] by simp
  moreover have "int ?n \<le> int ?n * attachRetryInterval" by (simp add: attachRetryInterval_def)
  moreover have "deadline - now \<le> int ?n" by simp
  moreover have "attempt_start at now ?n \<le> attempt_end at now ?n" by (simp add: attempt_end_def)
  ultimately have "\<not> attempt_end at now ?n < deadline" by linarith
  then have "?P ?n" by simp
  then obtain k where "?P k" and "\<forall>j < k. \<not> ?P j" using exists_least_iff[of ?P] by blast
  then show ?thesis by (intro exI[of _ k]) simp
qed

lemma attach_loop_last:
  assumes "\<forall>j < k. refused at j \<and> \<not> at_cancelled at j \<and> attempt_end at now j < deadline"
    and "\<not> (refused at k \<and> \<not> at_cancelled at k \<and> attempt_end at now k < deadline)"
  shows "attach_loop at deadline now 0 =
    (case fst (attachAgent (at_try at k)) of
       Inr w \<Rightarrow> Inr w
     | Inl e \<Rightarrow> Inl (if isDuplicateUser e \<and> \<not> attempt_end at now k < deadline
                     then Wrapped ''the agent kept refusing to attach'' e else e),
     k + 1, attempt_end at now k)"
  using assms(2) unfolding attach_loop_goes_on[OF assms(1)]
  by (subst attach_loop.simps) (auto simp: Let_def refused_def attempt_end_def split: sum.splits)

lemma last_attempt_bound:
  assumes "\<forall>j < k. refused at j \<and> \<not> at_cancelled at j \<and> attempt_end at now j < now + budget" and "0 < budget"
  shows "int k * attachRetryInterval < budget + attachRetryInterval"
proof (cases k)
  case (Suc j)
  have "now + int j * attachRetryInterval \<le> attempt_start at now j" using attempt_start_mono[of 0 j at now] by simp
  also have "\<dots> \<le> attempt_end at now j" by (simp add: attempt_end_def)
  also have "\<dots> < now + budget" using assms(1) Suc by simp
  finally show ?thesis using Suc by (simp add: distrib_right)
qed (use assms(2) in \<open>simp add: attachRetryInterval_def\<close>)

subsection \<open>Against the agent\<close>

text \<open>An attempt that reaches an agent in the state \<open>a\<close>, with nothing lost on the way.\<close>

definition agent_answers :: "env_read \<Rightarrow> string \<Rightarrow> nat option \<Rightarrow> time \<Rightarrow> agent \<Rightarrow> hello \<Rightarrow> dial_try" where
  "agent_answers env remote op now a h =
     Connection None (Inr (hd (sv_sent
       (Serve (agent_hello env remote op now) agent_closed id True True (\<lambda>_. True) [Inr (LHello h)] (a, new_handler)))))"

lemma attach_to_agent:
  assumes "h_Version h = Version"
  shows "attachAgent (agent_answers env remote op now a h) =
    (case snd (snd (handler_Hello env a new_handler h remote op now)) of
       Inl e \<Rightarrow> (Inl (RejectedError e), False) | Inr w \<Rightarrow> (Inr w, True))"
  using assms unfolding agent_answers_def
  by (subst handshake_reply[where h = h])
     (auto simp: attachAgent_def Dial_def dial_failure_def agent_hello_def type_defs split: sum.splits prod.splits)

lemma steal_hello_answer:
  assumes "inc_Enabled (h_Incoming h)" and "h_User h \<noteq> ''''"
  shows "case mget (ag_sessions a) (h_User h) of
      Some s \<Rightarrow> \<exists>e. snd (snd (handler_Hello env a hn h remote op now)) = Inl e \<and> e_Code e = CodeDuplicateUser
    | None \<Rightarrow> \<exists>w. snd (snd (handler_Hello env a hn h remote op now)) = Inr w"
  using assms by (auto simp: handler_Hello_def register_def stealSession_def Let_def split: option.splits)


text \<open>The previous run's session is still registered when the first attempt arrives, and gone at the second.\<close>

definition amy_options :: RunOptions where
  "amy_options = zero_options\<lparr>o_User := ''amy'', o_Token := ''secret''\<rparr>"

definition amy_incoming :: incoming where
  "amy_incoming = \<lparr>inc_Enabled = True, inc_Header = ''X-Dev-User'', inc_TokenHeader = ''X-Dev-Token''\<rparr>"

definition restarting :: "nat \<Rightarrow> agent" where
  "restarting j = (if j = 0 then as_agent example_state else unregister (as_agent example_state) ''amy'')"

definition amy_attempts :: attempts where
  "amy_attempts =
     \<lparr>at_try = (\<lambda>j. agent_answers NoReader ''10.0.0.1:1'' (Some j) (int j * attachRetryInterval) (restarting j)
                  (attach_hello amy_options amy_incoming)),
      at_took = (\<lambda>_. 0), at_late = (\<lambda>_. 0), at_cancelled = (\<lambda>_. False)\<rparr>"

lemma amy_start: "attempt_start amy_attempts 0 j = int j * attachRetryInterval"
  by (induction j) (simp_all add: amy_attempts_def distrib_right)


end
