(* ===== verification/EnvPrint.thy ===== *)
theory EnvPrint
  imports ChildEnv
begin

text \<open>
  Printing the task's environment: \<^verbatim>\<open>internal/cli/env.go\<close>. Strings are byte sequences; the escaping of
  the dotenv format ranges over runes, so the decoding of UTF-8 is modelled. For the JSON format the object that
  is handed to the encoder is the result.
\<close>

definition maskedValue :: string where "maskedValue = ''***''"

definition validEnvFormat :: "string \<Rightarrow> bool" where
  "validEnvFormat f = (f \<in> {'''', ''dotenv'', ''shell'', ''json''})"

fun toEnvMap_acc :: "string list \<Rightarrow> (string, string) gomap \<Rightarrow> (string, string) gomap" where
  "toEnvMap_acc [] m = m"
| "toEnvMap_acc (kv # kvs) m =
     toEnvMap_acc kvs (case cut CHR ''='' kv of Some (k, v) \<Rightarrow> mput k v m | None \<Rightarrow> m)"

definition toEnvMap :: "string list \<Rightarrow> (string, string) gomap" where
  "toEnvMap kvs = toEnvMap_acc kvs []"

definition countMasked :: "(string, string) gomap \<Rightarrow> string list \<Rightarrow> nat" where
  "countMasked vars secrets = length (filter (\<lambda>k. k \<in> set secrets) (mkeys vars))"

section \<open>Quoting\<close>

definition squote :: char where "squote = CHR 0x27"
definition dquote :: char where "dquote = CHR 0x22"
definition backslash :: char where "backslash = CHR 0x5C"
definition cr :: char where "cr = CHR 0x0D"
definition lf :: char where "lf = CHR 0x0A"

lemmas quote_chars = squote_def dquote_def backslash_def cr_def lf_def

definition shellQuote :: "string \<Rightarrow> string" where
  "shellQuote v =
     [squote] @ concat (map (\<lambda>c. if c = squote then [squote, dquote, squote, dquote, squote] else [c]) v) @ [squote]"

text \<open>The white space beyond ASCII that \<^verbatim>\<open>strings.TrimSpace\<close> removes, in UTF-8.\<close>

definition wide_spaces :: "string list" where
  "wide_spaces =
     [[CHR 0xC2, CHR 0x85], [CHR 0xC2, CHR 0xA0], [CHR 0xE1, CHR 0x9A, CHR 0x80], [CHR 0xE2, CHR 0x81, CHR 0x9F],
      [CHR 0xE3, CHR 0x80, CHR 0x80]] @
     map (\<lambda>b. [CHR 0xE2, CHR 0x80, b])
       [CHR 0x80, CHR 0x81, CHR 0x82, CHR 0x83, CHR 0x84, CHR 0x85, CHR 0x86, CHR 0x87, CHR 0x88, CHR 0x89, CHR 0x8A,
        CHR 0xA8, CHR 0xA9, CHR 0xAF]"

text \<open>Whether \<^verbatim>\<open>strings.TrimSpace\<close> would change a text.\<close>

definition space_at_edge :: "string \<Rightarrow> bool" where
  "space_at_edge v =
     (v \<noteq> '''' \<and> (is_space (hd v) \<or> is_space (last v)) \<or> list_ex (\<lambda>w. has_prefix v w \<or> has_suffix v w) wide_spaces)"

definition needsDotenvQuotes :: "string \<Rightarrow> bool" where
  "needsDotenvQuotes v = (v = '''' \<or> list_ex (\<lambda>c. c \<in> {lf, cr, dquote, CHR ''#''}) v \<or> space_at_edge v)"

text \<open>The length of the well-formed UTF-8 sequence a non-empty text begins with, if it begins with one.\<close>

definition cont :: "nat \<Rightarrow> nat \<Rightarrow> char list \<Rightarrow> nat \<Rightarrow> bool" where
  "cont lo hi s i = (i < length s \<and> lo \<le> (of_char (s ! i) :: nat) \<and> (of_char (s ! i) :: nat) \<le> hi)"

definition rune_len :: "string \<Rightarrow> nat option" where
  "rune_len s =
     (case s of
        [] \<Rightarrow> None
      | c # _ \<Rightarrow>
          let b = of_char c :: nat in
          if b < 0x80 then Some 1
          else if 0xC2 \<le> b \<and> b \<le> 0xDF then (if cont 0x80 0xBF s 1 then Some 2 else None)
          else if 0xE0 \<le> b \<and> b \<le> 0xEF then
            (if cont (if b = 0xE0 then 0xA0 else 0x80) (if b = 0xED then 0x9F else 0xBF) s 1 \<and> cont 0x80 0xBF s 2
             then Some 3 else None)
          else if 0xF0 \<le> b \<and> b \<le> 0xF4 then
            (if cont (if b = 0xF0 then 0x90 else 0x80) (if b = 0xF4 then 0x8F else 0xBF) s 1 \<and>
                cont 0x80 0xBF s 2 \<and> cont 0x80 0xBF s 3
             then Some 4 else None)
          else None)"

lemma rune_len_bounds: "rune_len s = Some n \<Longrightarrow> 0 < n \<and> n \<le> length s"
  by (auto simp: rune_len_def cont_def Let_def Suc_le_eq split: list.splits if_splits)

definition replacementChar :: string where
  "replacementChar = [CHR 0xEF, CHR 0xBF, CHR 0xBD]"

text \<open>The runes of a text, each as the bytes \<^verbatim>\<open>WriteRune\<close> writes for it; a byte that starts no rune is U+FFFD.\<close>

function rune_texts :: "string \<Rightarrow> string list" where
  "rune_texts s =
     (if s = [] then []
      else case rune_len s of
        Some n \<Rightarrow> take n s # rune_texts (drop n s)
      | None \<Rightarrow> replacementChar # rune_texts (drop 1 s))"
  by pat_completeness auto
termination
  by (relation "measure length") (auto dest: rune_len_bounds)

declare rune_texts.simps [simp del]

definition escape_rune :: "string \<Rightarrow> string" where
  "escape_rune r =
     (if r = [backslash] then [backslash, backslash]
      else if r = [dquote] then [backslash, dquote]
      else if r = [lf] then [backslash, CHR ''n'']
      else if r = [cr] then [backslash, CHR ''r'']
      else r)"

definition dotenvQuote :: "string \<Rightarrow> string" where
  "dotenvQuote v =
     (if \<not> needsDotenvQuotes v then v
      else [dquote] @ concat (map escape_rune (rune_texts v)) @ [dquote])"

section \<open>Output\<close>

datatype env_output = EText string | EObject "(string \<times> string) list"

definition shown :: "(string, string) gomap \<Rightarrow> string list \<Rightarrow> bool \<Rightarrow> string \<Rightarrow> string" where
  "shown vars secrets reveal k = (if \<not> reveal \<and> k \<in> set secrets then maskedValue else mstr vars k)"

definition FormatEnv :: "(string, string) gomap \<Rightarrow> string list \<Rightarrow> string \<Rightarrow> bool \<Rightarrow> string + env_output" where
  "FormatEnv vars secrets format reveal =
     (let keys = sort (mkeys vars); value' = shown vars secrets reveal in
      if format = ''dotenv'' \<or> format = '''' then
        Inr (EText (concat (map (\<lambda>k. k @ ''='' @ dotenvQuote (value' k) @ [lf]) keys)))
      else if format = ''shell'' then
        Inr (EText (concat (map (\<lambda>k. ''export '' @ k @ ''='' @ shellQuote (value' k) @ [lf]) keys)))
      else if format = ''json'' then Inr (EObject (map (\<lambda>k. (k, value' k)) keys))
      else Inl ''unknown --format'')"

text \<open>
  \<^verbatim>\<open>EnvRunWithDeps\<close> once the session is up: exit code, error and what is written to standard output.
  \<open>names\<close> answers the secret names of the task definition.
\<close>

definition EnvRun ::
  "welcome_msg \<Rightarrow> (string + string list) \<Rightarrow> RunOptions \<Rightarrow> string \<Rightarrow> bool \<Rightarrow> int \<times> cli_error option \<times> env_output option" where
  "EnvRun w names opts format reveal =
     (if \<not> validEnvFormat format then (2, Some (UsageError ''unknown --format''), None)
      else case checkTargetEnv w opts of
        Some e \<Rightarrow> (1, Some e, None)
      | None \<Rightarrow>
          (case resolveTaskEnv w opts of
             Inl e \<Rightarrow> (1, Some e, None)
           | Inr (rawEnv, _) \<Rightarrow>
               let taskEnv = toEnvMap (Merge [] rawEnv
                     \<lparr>eo_Override = o_EnvOverride opts, eo_Exclude = o_EnvExclude opts, eo_DropAWSContainer = True,
                      eo_StripLocal = []\<rparr>)
               in (case (if reveal then Inr [] else names) of
                     Inl e \<Rightarrow> (1, Some (OpError e), None)
                   | Inr secrets \<Rightarrow>
                       (case FormatEnv taskEnv secrets format reveal of
                          Inl e \<Rightarrow> (0, Some (OpError e), None)
                        | Inr out \<Rightarrow> (0, None, Some out)))))"

section \<open>Readers\<close>

text \<open>
  A POSIX shell reading one word made of single-quoted and double-quoted parts; inside these double quotes nothing
  is special here, since they only ever hold a single quote.
\<close>

fun sh_word :: "string \<Rightarrow> (string \<times> string) option"
  and sh_single :: "string \<Rightarrow> (string \<times> string) option"
  and sh_double :: "string \<Rightarrow> (string \<times> string) option" where
  "sh_word [] = Some ([], [])"
| "sh_word (c # s) =
     (if c = squote then sh_single s
      else if c = dquote then sh_double s
      else Some ([], c # s))"
| "sh_single [] = None"
| "sh_single (c # s) = (if c = squote then sh_word s else map_option (\<lambda>(v, r). (c # v, r)) (sh_single s))"
| "sh_double [] = None"
| "sh_double (c # s) =
     (if c = dquote then sh_word s
      else if c \<in> {backslash, CHR ''$'', CHR 0x60} then None
      else map_option (\<lambda>(v, r). (c # v, r)) (sh_double s))"

text \<open>A dotenv reader's double-quoted value.\<close>

fun dotenv_quoted :: "string \<Rightarrow> (string \<times> string) option" where
  "dotenv_quoted [] = None"
| "dotenv_quoted (c # s) =
     (if c = dquote then Some ([], s)
      else if c = backslash then
        (case s of
           [] \<Rightarrow> None
         | d # s' \<Rightarrow>
             map_option (\<lambda>(v, r). ((if d = CHR ''n'' then lf else if d = CHR ''r'' then cr else d) # v, r)) (dotenv_quoted s'))
      else map_option (\<lambda>(v, r). (c # v, r)) (dotenv_quoted s))"

text \<open>A dotenv reader: a quoted value, or the rest of the line trimmed, up to a comment.\<close>

definition dotenv_value :: "string \<Rightarrow> (string \<times> string) option" where
  "dotenv_value s =
     (case s of
        c # s' \<Rightarrow>
          if c = dquote then dotenv_quoted s'
          else Some (trim_space (takeWhile (\<lambda>c. c \<noteq> CHR ''#'') (takeWhile (\<lambda>c. c \<noteq> lf) s)), dropWhile (\<lambda>c. c \<noteq> lf) s)
      | [] \<Rightarrow> Some ([], []))"

section \<open>Quoting round trips\<close>

lemma squote_dquote [simp]: "squote \<noteq> dquote" "dquote \<noteq> squote" "squote \<noteq> backslash" "squote \<noteq> CHR ''$''" "squote \<noteq> CHR 0x60"
  "lf \<noteq> squote" "lf \<noteq> dquote" "backslash \<noteq> dquote" "dquote \<noteq> backslash"
  by (simp_all add: quote_chars)

lemma sh_single_quoted:
  "sh_single (concat (map (\<lambda>c. if c = squote then [squote, dquote, squote, dquote, squote] else [c]) v) @ squote # rest)
     = map_option (\<lambda>(w, r). (v @ w, r)) (sh_word rest)"
proof (induction v)
  case Nil
  then show ?case by (simp add: case_prod_beta option.map_ident)
next
  case (Cons c v)
  then show ?case by (cases "c = squote") (auto simp: option.map_comp comp_def case_prod_beta)
qed

lemma shellQuote_roundtrip: "sh_word (shellQuote v @ lf # rest) = Some (v, lf # rest)"
  using sh_single_quoted[of v "lf # rest"] by (simp add: shellQuote_def)

text \<open>A rune of more than one byte has no ASCII byte.\<close>

lemma rune_len_wide:
  assumes "rune_len s = Some n" and "1 < n" and "c \<in> set (take n s)"
  shows "0x80 \<le> (of_char c :: nat)"
proof -
  obtain a s' where s: "s = a # s'" using assms(1) by (auto simp: rune_len_def split: list.splits)
  have n: "n = 2 \<and> cont 0x80 0xBF s 1 \<or> n = 3 \<and> cont 0x80 0xBF s 1 \<and> cont 0x80 0xBF s 2 \<or>
      n = 4 \<and> cont 0x80 0xBF s 1 \<and> cont 0x80 0xBF s 2 \<and> cont 0x80 0xBF s 3" and a: "0x80 \<le> (of_char a :: nat)"
    using assms(1,2) s by (auto simp: rune_len_def Let_def cont_def split: if_splits)
  from assms(3) obtain i where i: "i < n" "i < length s" "c = s ! i" by (auto simp: in_set_conv_nth)
  then have "i = 0 \<or> i = 1 \<and> 1 < n \<or> i = 2 \<and> 2 < n \<or> i = 3 \<and> 3 < n" using n by auto
  then show ?thesis using n a i s by (auto simp: cont_def)
qed

text \<open>A text is well-formed UTF-8 when its runes are its own bytes.\<close>

definition valid_utf8 :: "string \<Rightarrow> bool" where
  "valid_utf8 v = (concat (rune_texts v) = v)"

definition rune_ok :: "string \<Rightarrow> bool" where
  "rune_ok r = (length r = 1 \<or> list_all (\<lambda>c. 0x80 \<le> (of_char c :: nat)) r)"

lemma rune_texts_ok: "list_all rune_ok (rune_texts s)"
proof (induction s rule: rune_texts.induct)
  case (1 s)
  show ?case
  proof (cases "s = []")
    case True
    then show ?thesis by (simp add: rune_texts.simps)
  next
    case False
    show ?thesis
    proof (cases "rune_len s")
      case None
      have "rune_ok replacementChar" by (simp add: rune_ok_def replacementChar_def)
      then show ?thesis using None 1(1)[OF False None] False by (subst rune_texts.simps) simp
    next
      case (Some n)
      have "rune_ok (take n s)"
        using rune_len_bounds[OF Some] rune_len_wide[OF Some] by (cases "n = 1") (auto simp: rune_ok_def list_all_iff)
      then show ?thesis using Some 1(2)[OF False Some] False by (subst rune_texts.simps) simp
    qed
  qed
qed

lemma dotenv_quoted_plain:
  assumes "list_all (\<lambda>c. c \<noteq> dquote \<and> c \<noteq> backslash) r"
  shows "dotenv_quoted (r @ rest) = map_option (\<lambda>(v, r'). (r @ v, r')) (dotenv_quoted rest)"
proof -
  have id: "map_option (\<lambda>p. p) x = x" for x :: "(string \<times> string) option" by (cases x) auto
  show ?thesis using assms by (induction r) (auto simp: id option.map_comp comp_def case_prod_unfold)
qed

lemma dotenv_quoted_rune:
  assumes "rune_ok r"
  shows "dotenv_quoted (escape_rune r @ rest) = map_option (\<lambda>(v, r'). (r @ v, r')) (dotenv_quoted rest)"
proof (cases "r \<in> {[backslash], [dquote], [lf], [cr]}")
  case True
  then show ?thesis by (auto simp: escape_rune_def quote_chars)
next
  case False
  have "list_all (\<lambda>c. c \<noteq> dquote \<and> c \<noteq> backslash) r"
  proof (cases "length r = 1")
    case True
    then obtain c where "r = [c]" by (cases r) auto
    then show ?thesis using False by auto
  next
    case not1: False
    have "(of_char dquote :: nat) < 0x80" "(of_char backslash :: nat) < 0x80" by (simp_all add: quote_chars)
    then show ?thesis using assms not1 by (fastforce simp: rune_ok_def list_all_iff)
  qed
  moreover have "escape_rune r = r" using False by (auto simp: escape_rune_def)
  ultimately show ?thesis using dotenv_quoted_plain by simp
qed

lemma dotenv_quoted_runes:
  "list_all rune_ok rs \<Longrightarrow> dotenv_quoted (concat (map escape_rune rs) @ dquote # rest) = Some (concat rs, rest)"
  by (induction rs) (auto simp: dotenv_quoted_rune)

lemma trim_space_inner: "v \<noteq> [] \<Longrightarrow> \<not> is_space (hd v) \<Longrightarrow> \<not> is_space (last v) \<Longrightarrow> trim_space v = v"
proof -
  assume a: "v \<noteq> []" "\<not> is_space (hd v)" "\<not> is_space (last v)"
  have "dropWhile is_space v = v" using a(1,2) by (cases v) auto
  moreover have "dropWhile is_space (rev v) = rev v" using a(1,3) by (cases v rule: rev_cases) auto
  ultimately show ?thesis by (simp add: trim_space_def trim_right_by_def trim_left_by_def)
qed

lemma dotenvQuote_roundtrip:
  assumes "valid_utf8 v"
  shows "\<exists>rest'. dotenv_value (dotenvQuote v @ lf # rest) = Some (v, rest') \<and> (rest' = lf # rest)"
proof (cases "needsDotenvQuotes v")
  case True
  then show ?thesis
    using dotenv_quoted_runes[OF rune_texts_ok, of v "lf # rest"] assms
    by (simp add: dotenvQuote_def dotenv_value_def valid_utf8_def)
next
  case False
  then obtain c w where v: "v = c # w" by (cases v) (auto simp: needsDotenvQuotes_def)
  have nolf: "lf \<notin> set v" "CHR ''#'' \<notin> set v" "c \<noteq> dquote" and sp: "\<not> is_space (hd v)" "\<not> is_space (last v)"
    using False v by (auto simp: needsDotenvQuotes_def list_ex_iff space_at_edge_def)
  have tw: "takeWhile (\<lambda>c. c \<noteq> lf) (v @ lf # rest) = v" "dropWhile (\<lambda>c. c \<noteq> lf) (v @ lf # rest) = lf # rest"
    using nolf(1) by (auto simp: takeWhile_append takeWhile_eq_all_conv dropWhile_append)
  have "takeWhile (\<lambda>c. c \<noteq> CHR ''#'') v = v" using nolf(2) by (auto simp: takeWhile_eq_all_conv)
  then show ?thesis
    using False tw trim_space_inner[OF _ sp] v nolf(3) by (simp add: dotenvQuote_def dotenv_value_def)
qed

lemma escape_rune_no_lf: "rune_ok r \<Longrightarrow> lf \<notin> set (escape_rune r)"
proof -
  assume r: "rune_ok r"
  have small: "(of_char lf :: nat) < 0x80" by (simp add: quote_chars)
  show ?thesis
  proof (cases "length r = 1")
    case True
    then obtain c where "r = [c]" by (cases r) auto
    then show ?thesis by (auto simp: escape_rune_def quote_chars)
  next
    case False
    then have "lf \<notin> set r" using r small by (fastforce simp: rune_ok_def list_all_iff)
    then show ?thesis by (auto simp: escape_rune_def quote_chars)
  qed
qed

lemma dotenvQuote_one_line: "lf \<notin> set (dotenvQuote v)"
proof (cases "needsDotenvQuotes v")
  case True
  then show ?thesis
    using rune_texts_ok[of v] escape_rune_no_lf by (auto simp: dotenvQuote_def list_all_iff)
next
  case False
  then show ?thesis by (auto simp: dotenvQuote_def needsDotenvQuotes_def list_ex_iff)
qed

section \<open>What is printed\<close>

lemma toEnvMap_acc_fresh:
  assumes "list_all (\<lambda>k. CHR ''='' \<notin> set k) ks" and "distinct ks" and "\<forall>k \<in> set ks. mget m k = None"
  shows "toEnvMap_acc (map (\<lambda>k. k @ ''='' @ f k) ks) m = m @ map (\<lambda>k. (k, f k)) ks"
  using assms
proof (induction ks arbitrary: m)
  case (Cons k ks)
  have "cut CHR ''='' (k @ CHR ''='' # f k) = Some (k, f k)" using Cons.prems(1) by (simp add: cut_append)
  moreover have "mput k (f k) m = m @ [(k, f k)]" using Cons.prems(3) by (simp add: mput_fresh)
  moreover have "\<forall>k' \<in> set ks. mget (m @ [(k, f k)]) k' = None" using Cons.prems(2,3) by auto
  ultimately show ?case using Cons.IH[of "m @ [(k, f k)]"] Cons.prems(1,2) by simp
qed simp

lemma merged_plain: "plain_keys tsk \<Longrightarrow> plain_keys (eo_Override opts) \<Longrightarrow> plain_keys (merged loc tsk opts)"
  unfolding merged_def by (auto intro!: plain_keys_mputs plain_keys_put_task plain_keys_put_local)

lemma toEnvMap_Merge:
  assumes "plain_keys tsk" and "plain_keys (eo_Override opts)"
  shows "toEnvMap (Merge loc tsk opts) = map (\<lambda>k. (k, mstr (merged loc tsk opts) k)) (sort (mkeys (merged loc tsk opts)))"
proof -
  let ?m = "merged loc tsk opts"
  have "list_all (\<lambda>k. CHR ''='' \<notin> set k) (sort (mkeys ?m))"
    using merged_plain[OF assms] by (simp add: plain_keys_def list_all_iff)
  moreover have "distinct (sort (mkeys ?m))" using merged_wf by (simp add: wf_map_def)
  ultimately show ?thesis
    using toEnvMap_acc_fresh[of "sort (mkeys ?m)" "[]" "mstr ?m"] by (simp add: toEnvMap_def Merge_def Let_def)
qed

lemma mstr_graph: "distinct ks \<Longrightarrow> k \<in> set ks \<Longrightarrow> mstr (map (\<lambda>k. (k, f k)) ks) k = f k"
  by (induction ks) (auto simp: mstr_def)

lemma FormatEnv_cong:
  assumes "mkeys vars = mkeys vars'" and "\<And>k. k \<in> set (mkeys vars) \<Longrightarrow> shown vars secrets reveal k = shown vars' secrets reveal k"
  shows "FormatEnv vars secrets format reveal = FormatEnv vars' secrets format reveal"
proof -
  have eq: "map (\<lambda>k. g k (shown vars secrets reveal k)) (sort (mkeys vars)) =
      map (\<lambda>k. g k (shown vars' secrets reveal k)) (sort (mkeys vars))" for g :: "string \<Rightarrow> string \<Rightarrow> 'b"
    by (rule map_cong) (use assms(2) in auto)
  show ?thesis
    by (simp only: FormatEnv_def Let_def assms(1)[symmetric] eq[of "\<lambda>k v. k @ ''='' @ dotenvQuote v @ [lf]"]
        eq[of "\<lambda>k v. ''export '' @ k @ ''='' @ shellQuote v @ [lf]"] eq[of Pair])
qed

text \<open>Two environments with the same names that agree outside the secret names.\<close>

definition agree_outside :: "string list \<Rightarrow> (string, string) gomap \<Rightarrow> (string, string) gomap \<Rightarrow> bool" where
  "agree_outside secrets e e' = (mkeys e = mkeys e' \<and> (\<forall>k. k \<notin> set secrets \<longrightarrow> mget e k = mget e' k))"

lemma mkeys_dom: "mkeys e = mkeys e' \<Longrightarrow> (mget e k = None) = (mget e' k = None)"
  by (metis (no_types, lifting) domIff set_mkeys)

lemma merged_agree:
  assumes "agree_outside secrets e e'" "wf_map e" "wf_map e'" "wf_map (eo_Override opts)"
  shows "sort (mkeys (merged loc e opts)) = sort (mkeys (merged loc e' opts))"
    and "k \<notin> set secrets \<Longrightarrow> mget (merged loc e opts) k = mget (merged loc e' opts) k"
proof -
  have "mkeys e = mkeys e'" using assms(1) by (simp add: agree_outside_def)
  note n = mkeys_dom[OF this]
  have "(mget (merged loc e opts) k = None) = (mget (merged loc e' opts) k = None)" for k
    using n[of k] assms(2-4) by (auto simp: merged_get split: option.splits)
  then have "set (mkeys (merged loc e opts)) = set (mkeys (merged loc e' opts))" by (auto simp: dom_def)
  then show "sort (mkeys (merged loc e opts)) = sort (mkeys (merged loc e' opts))"
    using merged_wf[of loc e opts] merged_wf[of loc e' opts]
    by (intro sorted_distinct_set_unique) (auto simp: wf_map_def)
  show "mget (merged loc e opts) k = mget (merged loc e' opts) k" if "k \<notin> set secrets"
  proof -
    have "mget e k = mget e' k" using that assms(1) by (simp add: agree_outside_def)
    then show ?thesis using assms(2-4) by (simp add: merged_get split: option.split)
  qed
qed

text \<open>C30: Without \<^verbatim>\<open>--reveal\<close> the printed environment tells nothing about the secrets: two tasks that differ
  only in the values of the names the task definition lists as secrets produce the same output, exit code and
  error, in every format; and when the names cannot be read nothing is printed at all.\<close>

theorem secrets_stay_masked:
  assumes "agree_outside secrets (w_AppEnv w) (w_AppEnv w')" and "w' = w\<lparr>w_AppEnv := w_AppEnv w'\<rparr>"
    and "wf_map (w_AppEnv w)" and "wf_map (w_AppEnv w')" and "wf_map (o_EnvOverride opts)"
    and "plain_keys (w_AppEnv w)" and "plain_keys (w_AppEnv w')" and "plain_keys (o_EnvOverride opts)"
  shows "EnvRun w (Inr secrets) opts format False = EnvRun w' (Inr secrets) opts format False \<and>
    snd (snd (EnvRun w (Inl err) opts format False)) = None"
proof
  let ?mo = "\<lparr>eo_Override = o_EnvOverride opts, eo_Exclude = o_EnvExclude opts, eo_DropAWSContainer = True, eo_StripLocal = []\<rparr>"
  have same: "checkTargetEnv w' opts = checkTargetEnv w opts" "w_EnvError w' = w_EnvError w"
    by (subst assms(2), simp add: checkTargetEnv_def)+
  have fmt: "FormatEnv (toEnvMap (Merge [] (w_AppEnv w) ?mo)) secrets format False =
      FormatEnv (toEnvMap (Merge [] (w_AppEnv w') ?mo)) secrets format False"
  proof (rule FormatEnv_cong)
    note m = merged_agree[OF assms(1,3,4), where opts = ?mo and loc = "[]"]
    have d: "distinct (sort (mkeys (merged [] e ?mo)))" for e using merged_wf by (simp add: wf_map_def)
    show keys: "mkeys (toEnvMap (Merge [] (w_AppEnv w) ?mo)) = mkeys (toEnvMap (Merge [] (w_AppEnv w') ?mo))"
      using m(1) assms(5-8) by (simp add: toEnvMap_Merge mkeys_def comp_def)
    fix k assume "k \<in> set (mkeys (toEnvMap (Merge [] (w_AppEnv w) ?mo)))"
    then have k: "k \<in> set (sort (mkeys (merged [] (w_AppEnv w) ?mo)))"
      using assms(6,8) by (simp add: toEnvMap_Merge mkeys_def comp_def image_iff)
    then have k': "k \<in> set (sort (mkeys (merged [] (w_AppEnv w') ?mo)))" using m(1) assms(5) by simp
    show "shown (toEnvMap (Merge [] (w_AppEnv w) ?mo)) secrets False k =
        shown (toEnvMap (Merge [] (w_AppEnv w') ?mo)) secrets False k"
      using mstr_graph[OF d k] mstr_graph[OF d k'] m(2)[where k = k] assms(5-8)
      by (simp add: shown_def toEnvMap_Merge mstr_def)
  qed
  show "EnvRun w (Inr secrets) opts format False = EnvRun w' (Inr secrets) opts format False"
    using same fmt by (auto simp: EnvRun_def resolveTaskEnv_def Let_def split: option.splits)
  show "snd (snd (EnvRun w (Inl err) opts format False)) = None"
    by (auto simp: EnvRun_def Let_def split: option.splits sum.splits)
qed
theorem secrets_stay_masked_witness:
  "EnvRun \<lparr>w_Version = [], w_TaskARN = [], w_Env = [], w_AppEnv = [(''DB'', ''hunter2''), (''A'', ''1'')], w_EnvError = [],
       w_Others = [], w_Sessions = []\<rparr> (Inr [''DB'']) zero_options ''shell'' False =
   EnvRun \<lparr>w_Version = [], w_TaskARN = [], w_Env = [], w_AppEnv = [(''DB'', ''x''), (''A'', ''1'')], w_EnvError = [],
       w_Others = [], w_Sessions = []\<rparr> (Inr [''DB'']) zero_options ''shell'' False"
  using secrets_stay_masked[of "[''DB'']" "\<lparr>w_Version = [], w_TaskARN = [], w_Env = [],
      w_AppEnv = [(''DB'', ''hunter2''), (''A'', ''1'')], w_EnvError = [], w_Others = [], w_Sessions = []\<rparr>"
     "\<lparr>w_Version = [], w_TaskARN = [], w_Env = [],
      w_AppEnv = [(''DB'', ''x''), (''A'', ''1'')], w_EnvError = [], w_Others = [], w_Sessions = []\<rparr>" zero_options "''shell''" "''e''"]
  by (simp add: agree_outside_def mkeys_def wf_map_def zero_options_def)


end
