(* ===== verification/Status.thy ===== *)
theory Status
  imports Attach EnvPrint
begin

text \<open>
  \<^verbatim>\<open>tetherd status\<close> (\<^verbatim>\<open>internal/cli/status.go\<close>): who is attached to each task. The report is the
  list of lines written; \<open>now\<close> is the moment \<^verbatim>\<open>time.Since\<close> reads, and \<open>rfc\<close> the text of the instant a
  refusal carries (0 for none).
\<close>

section \<open>Definitions\<close>

fun err_text :: "cli_error \<Rightarrow> string" where
  "err_text (UsageError s) = s"
| "err_text (OpError s) = s"
| "err_text (ContextError s) = s"
| "err_text (RejectedError p) = ''rejected by agent ('' @ e_Code p @ ''): '' @ e_Message p"
| "err_text (Wrapped s e) = s @ '': '' @ err_text e"

record taskStatus =
  ts_task :: task
  ts_sessions :: "session_info list"
  ts_names :: "string list"
  ts_err :: "cli_error option"

definition readTaskStatus :: "int \<Rightarrow> RunOptions \<Rightarrow> attempts \<Rightarrow> time \<Rightarrow> task \<Rightarrow> taskStatus" where
  "readTaskStatus budget opts at now tk =
     (let row = \<lparr>ts_task = tk, ts_sessions = [], ts_names = [], ts_err = None\<rparr> in
      case fst (dialAgent budget no_incoming at now) of
        Inl e \<Rightarrow> row\<lparr>ts_err := Some e\<rparr>
      | Inr w \<Rightarrow>
          (case checkTargetEnv w opts of
             Some e \<Rightarrow> row\<lparr>ts_err := Some e\<rparr>
           | None \<Rightarrow>
               if 0 < length (w_Sessions w) then row\<lparr>ts_sessions := w_Sessions w\<rparr>
               else row\<lparr>ts_names := w_Others w\<rparr>))"

text \<open>\<^verbatim>\<open>%-*s\<close> pads to a width counted in runes.\<close>

definition pad_right :: "nat \<Rightarrow> string \<Rightarrow> string" where
  "pad_right width s = s @ replicate (width - length (rune_texts s)) CHR '' ''"

definition widest :: "string list \<Rightarrow> nat" where
  "widest ss = foldl (\<lambda>w s. if w < length s then length s else w) 0 ss"

definition sessionLines :: "time \<Rightarrow> session_info list \<Rightarrow> string list" where
  "sessionLines now sessions =
     (let userWidth = widest (map si_User sessions); fromWidth = widest (map si_From sessions) in
      map (\<lambda>s.
        trim_right_by (\<lambda>c. c = CHR '' '')
          (pad_right userWidth (si_User s) @
           (if si_From s \<noteq> '''' then ''  from '' @ pad_right fromWidth (si_From s) else '''') @
           (if si_Since s \<noteq> 0 then ''  attached '' @ humanAgo (now - si_Since s) @ '' ago'' else '''')))
        sessions)"

fun rejection :: "cli_error \<Rightarrow> perror option" where
  "rejection (RejectedError p) = Some p"
| "rejection (Wrapped _ e) = rejection e"
| "rejection (UsageError _) = None"
| "rejection (OpError _) = None"
| "rejection (ContextError _) = None"

definition statusReason :: "(time \<Rightarrow> string) \<Rightarrow> string \<Rightarrow> cli_error \<Rightarrow> string" where
  "statusReason rfc user e =
     (case rejection e of
        Some p \<Rightarrow>
          if e_Code p = CodeDuplicateUser then
            ''(not read: the agent is holding another session for '' @ quoted user @
            (if e_From p \<noteq> '''' then '' from '' @ e_From p else '''') @
            (if e_Since p \<noteq> 0 then '' since '' @ rfc (e_Since p) else '''') @ '')''
          else ''(not read: '' @ err_text e @ '')''
      | None \<Rightarrow> ''(not read: '' @ err_text e @ '')'')"

definition statusLines :: "(time \<Rightarrow> string) \<Rightarrow> time \<Rightarrow> string \<Rightarrow> taskStatus \<Rightarrow> string list" where
  "statusLines rfc now user r =
     (case ts_err r of
        Some e \<Rightarrow> split_on lf (statusReason rfc user e)
      | None \<Rightarrow>
          if 0 < length (ts_sessions r) then sessionLines now (ts_sessions r)
          else if 0 < length (ts_names r) then
            ts_names r @ [''(this task's agent predates `tetherd status`: it reports who is attached, but not from where or since when - redeploy the agent for that detail)'']
          else [''(nobody attached)''])"

definition formatStatus :: "(time \<Rightarrow> string) \<Rightarrow> time \<Rightarrow> string \<Rightarrow> taskStatus list \<Rightarrow> string list" where
  "formatStatus rfc now user rows =
     concat (map (\<lambda>r.
       (''  task '' @ short (t_ID (ts_task r)) @ startedAgo now (t_StartedAt (ts_task r))) #
       map (\<lambda>l. ''    '' @ l) (statusLines rfc now user r)) rows)"

text \<open>
  \<^verbatim>\<open>StatusRunWithDeps\<close>: \<open>world tk\<close> is what attaching to \<open>tk\<close> meets, \<open>wrote\<close> an error of writing the
  report. The result is the exit code, the error, and the report.
\<close>

definition StatusRun ::
  "(RunOptions \<Rightarrow> cli_error + aws_provider) \<Rightarrow> aws_provider \<Rightarrow> int \<Rightarrow> (task \<Rightarrow> attempts) \<Rightarrow> (time \<Rightarrow> string) \<Rightarrow> string option \<Rightarrow>
   time \<Rightarrow> RunOptions \<Rightarrow> int \<times> cli_error option \<times> string list" where
  "StatusRun newAWS direct budget world rfc wrote now opts =
     (case discoverTasks newAWS direct now opts of
        Inl e \<Rightarrow> (if isUsageError e then 2 else 1, Some e, [])
      | Inr (prov, tasks, out) \<Rightarrow>
          let rows = map (\<lambda>tk. readTaskStatus budget opts (world tk) now tk) tasks;
              read = length (filter (\<lambda>r. ts_err r = None) rows);
              report = formatStatus rfc now (o_User opts) rows
          in (case wrote of
                Some e \<Rightarrow> (1, Some (OpError e), report)
              | None \<Rightarrow> if read = 0 then (1, None, report) else (0, None, report)))"

section \<open>Lemmas\<close>

lemma statusLines_not_Nil: "statusLines rfc now user r \<noteq> []"
  by (auto simp: statusLines_def sessionLines_def Let_def split: option.splits)

lemma readonly_attach:
  assumes "agent_reachable cfg st" and "o_User opts \<noteq> ''''"
  obtains hn w where
    "handler_Hello env (as_agent st) new_handler (attach_hello opts no_incoming) remote op now = (as_agent st, hn, Inr w)"
    and "w_Sessions w = Sessions (as_agent st)" and "w_Others w = map si_User (Sessions (as_agent st))"
    and "w_Env w = cfg_Env (ag_cfg (as_agent st))"
proof -
  have h: "\<not> inc_Enabled (h_Incoming (attach_hello opts no_incoming))" "h_User (attach_hello opts no_incoming) \<noteq> ''''"
    using assms(2) by (simp_all add: attach_hello_def no_incoming_def)
  from readonly_never_touches_registry[OF assms(1) h]
  obtain hn w where 1: "handler_Hello env (as_agent st) new_handler (attach_hello opts no_incoming) remote op now = (as_agent st, hn, Inr w)"
    and 2: "w_Sessions w = Sessions (as_agent st)" by blast
  have "w_Others w = map si_User (Sessions (as_agent st)) \<and> w_Env w = cfg_Env (ag_cfg (as_agent st))"
    using 1 2 h by (auto simp: handler_Hello_def register_def stealSession_def Let_def sessionUsers_def split: env_read.splits)
  with 1 2 show ?thesis by (intro that) auto
qed

lemma readTaskStatus_agent:
  assumes "agent_reachable cfg st" and "o_User opts \<noteq> ''''"
    and "o_Transport opts = ''ssm'' \<longrightarrow> cfg_Env (ag_cfg (as_agent st)) = o_TargetEnv opts"
    and "at_try at 0 = agent_answers env remote op now (as_agent st) (attach_hello opts no_incoming)"
  shows "readTaskStatus budget opts at now tk =
    \<lparr>ts_task = tk, ts_sessions = Sessions (as_agent st), ts_names = [], ts_err = None\<rparr>"
proof -
  obtain hn w where w: "handler_Hello env (as_agent st) new_handler (attach_hello opts no_incoming) remote op now = (as_agent st, hn, Inr w)"
    "w_Sessions w = Sessions (as_agent st)" "w_Others w = map si_User (Sessions (as_agent st))" "w_Env w = cfg_Env (ag_cfg (as_agent st))"
    by (rule readonly_attach[OF assms(1,2)])
  have "fst (dialAgent budget no_incoming at now) = Inr w"
    using attach_to_agent[of "attach_hello opts no_incoming" env remote op now "as_agent st"] assms(4) w(1)
    by (simp add: dialAgent_def attach_hello_def) (simp add: no_incoming_def)
  then show ?thesis using w(2-4) assms(3) by (simp add: readTaskStatus_def checkTargetEnv_def Let_def)
qed


definition direct_options :: RunOptions where
  "direct_options = amy_options\<lparr>o_Transport := ''direct'', o_AgentAddr := ''127.0.0.1:9900''\<rparr>"

definition status_world :: "task \<Rightarrow> attempts" where
  "status_world tk = amy_attempts\<lparr>at_try := \<lambda>_.
     agent_answers NoReader ''10.0.0.1:1'' None 60000000005 (as_agent example_state) (attach_hello direct_options no_incoming)\<rparr>"


end
