(* ===== verification/RunFlow.thy ===== *)
theory RunFlow
  imports Status StealServer
begin

text \<open>
  \<^verbatim>\<open>tetherd run\<close> from its options to its exit code (\<^verbatim>\<open>RunWithDeps\<close> in \<^verbatim>\<open>internal/cli/run.go\<close>).
  The answers of everything outside are the fields of \<open>run_world\<close>; what the run does to the machine is the
  trace of its \<open>effect\<close>s, in order, the deferred calls included. Log lines are not part of it.
\<close>

section \<open>The world and the trace\<close>

datatype helper_failure = HelperBusy string | HelperFails string

datatype child_outcome =
    ChildExits int
  | ChildWaitFails string
  | SessionsLost "string option" \<comment> \<open>every session ended first, with the reason of the last\<close>

record run_world =
  rw_newAWS :: "RunOptions \<Rightarrow> cli_error + aws_provider"
  rw_direct :: aws_provider
  rw_now :: time
  rw_budget :: int \<comment> \<open>\<^verbatim>\<open>Deps.AttachRetryBudget\<close>\<close>
  rw_stat_exec :: "string option"
  rw_dial_helper :: "string option"
  rw_attempts :: "task \<Rightarrow> attempts"
  rw_ending :: "task \<Rightarrow> (nat \<times> string option) list" \<comment> \<open>the sessions that end while that task is attached\<close>
  rw_cred_start :: "string + string"
  rw_hide :: "string option" \<comment> \<open>the empty AWS configuration file, if it could be made\<close>
  rw_url :: url_lib
  rw_route_set :: "helper_failure option"
  rw_capture_start :: "helper_failure option"
  rw_dns_start :: "string + nat"
  rw_resolver_set :: "string option"
  rw_environ :: "string list"
  rw_start :: "string option"
  rw_child :: child_outcome

datatype effect =
    HelperDialed | HelperClosed
  | SessionOpened nat | SessionsClosed
  | Cancelled
  | FollowerStarted | FollowerStopped
  | CredStarted | CredClosed
  | ConfigHidden | ConfigRemoved
  | RoutePinned | RouteCleared
  | CaptureStarted "prefix list" | CaptureClosed
  | DnsStarted | DnsClosed
  | ResolverPointed | ResolverCleared
  | ChildStarted "string list" "string list" | ChildEnded

type_synonym run_result = "(int \<times> cli_error option) \<times> effect list"

definition fails :: "int \<Rightarrow> cli_error \<Rightarrow> run_result" where
  "fails code e = ((code, Some e), [])"

text \<open>What is done, then the rest of the run, then the deferred calls.\<close>

definition bracket :: "effect list \<Rightarrow> effect list \<Rightarrow> run_result \<Rightarrow> run_result" where
  "bracket before after r = (fst r, before @ snd r @ after)"

section \<open>The child\<close>

definition errEverySessionGone :: cli_error where
  "errEverySessionGone = OpError ''every task tetherd was attached to has gone away''"

definition run_child :: "run_world \<Rightarrow> RunOptions \<Rightarrow> string list \<Rightarrow> run_result" where
  "run_child w opts env =
     (let argv = (if o_NoNetwork opts then o_Command opts else o_ExecPath opts # ''--'' # o_Command opts) in
      case rw_start w of
        Some e \<Rightarrow> fails 1 (Wrapped ''start'' (OpError e))
      | None \<Rightarrow>
          (case rw_child w of
             ChildExits code \<Rightarrow> ((code, None), [ChildStarted argv env, ChildEnded])
           | ChildWaitFails e \<Rightarrow> ((1, Some (OpError e)), [ChildStarted argv env, ChildEnded])
           | SessionsLost err \<Rightarrow>
               ((1, Some (case err of None \<Rightarrow> errEverySessionGone | Some e \<Rightarrow> OpError e)),
                [ChildStarted argv env, Cancelled, ChildEnded])))"

section \<open>The capture\<close>

definition busySessionError :: "string \<Rightarrow> cli_error" where
  "busySessionError busy = Wrapped ''Stop the other `tetherd run` first (one session per machine in v1)'' (OpError busy)"

definition helper_error :: "(string \<Rightarrow> cli_error) \<Rightarrow> helper_failure \<Rightarrow> cli_error" where
  "helper_error other f = (case f of HelperBusy b \<Rightarrow> busySessionError b | HelperFails e \<Rightarrow> other e)"

text \<open>
  \<open>ResolverPointed\<close> is the call of \<^verbatim>\<open>ResolverSet\<close>, which may have written some files when it fails; its
  clean-up is registered before it.
\<close>

definition run_dns :: "run_world \<Rightarrow> RunOptions \<Rightarrow> run_result \<Rightarrow> run_result" where
  "run_dns w opts rest =
     (if length (o_RemoteDomains opts) = 0 then rest
      else case rw_dns_start w of
        Inl e \<Rightarrow> fails 1 (Wrapped ''start the DNS resolver'' (OpError e))
      | Inr port \<Rightarrow>
          bracket [DnsStarted, ResolverPointed] [ResolverCleared, DnsClosed]
            (case rw_resolver_set w of
               Some e \<Rightarrow> fails 1 (Wrapped ''point the domains at the agent'' (OpError e))
             | None \<Rightarrow> rest))"

definition run_capture :: "run_world \<Rightarrow> RunOptions \<Rightarrow> prefix list \<Rightarrow> run_result \<Rightarrow> run_result" where
  "run_capture w opts cidrs rest =
     (if o_NoNetwork opts then rest
      else
        let captured =
              (case rw_capture_start w of
                 Some f \<Rightarrow> fails 1 (helper_error OpError f)
               | None \<Rightarrow> bracket [CaptureStarted cidrs] [Cancelled, CaptureClosed] (run_dns w opts rest))
        in if o_PinCredentialRoute opts then
             (case rw_route_set w of
                Some f \<Rightarrow> fails 1 (helper_error (\<lambda>e. Wrapped ''pin the route'' (OpError e)) f)
              | None \<Rightarrow> bracket [RoutePinned] [RouteCleared] captured)
           else captured)"

section \<open>The credential endpoint and the child's environment\<close>

definition run_endpoint ::
  "run_world \<Rightarrow> RunOptions \<Rightarrow> (string, string) gomap \<Rightarrow> string \<Rightarrow> prefix list \<Rightarrow> run_result" where
  "run_endpoint w opts taskEnv region cidrs =
     (case rw_cred_start w of
        Inl e \<Rightarrow> fails 1 (Wrapped ''serve the task's credential endpoint on loopback'' (OpError e))
      | Inr addr \<Rightarrow>
          let role = ContainerCredentialsPath (rw_url w) taskEnv \<noteq> '''';
              hide = (if role then rw_hide w else None);
              rest = run_capture w opts cidrs
                       (run_child w opts (child_env (rw_url w) opts (rw_environ w) taskEnv addr region hide))
          in bracket [CredStarted] [CredClosed]
               (if hide \<noteq> None then bracket [ConfigHidden] [ConfigRemoved] rest else rest))"

section \<open>The sessions\<close>

record attach_state =
  av_set :: sset
  av_loss :: sessionLoss
  av_ended :: "nat set"
  av_welcomes :: "welcome_msg list" \<comment> \<open>of the sessions opened so far, which are numbered in order\<close>
  av_firstErr :: "cli_error option"

definition attach_start :: attach_state where
  "attach_start = \<lparr>av_set = empty_set, av_loss = newSessionLoss, av_ended = {}, av_welcomes = [], av_firstErr = None\<rparr>"

definition session_ends :: "attach_state \<Rightarrow> nat \<times> string option \<Rightarrow> attach_state" where
  "session_ends st x =
     (if fst x < length (av_welcomes st) \<and> fst x \<notin> av_ended st then
        st\<lparr>av_ended := insert (fst x) (av_ended st), av_set := close_all [fst x] (av_set st),
           av_loss := watched_ends (snd x) (av_loss st)\<rparr>
      else st)"

definition attach_one :: "run_world \<Rightarrow> incoming \<Rightarrow> task \<Rightarrow> attach_state \<Rightarrow> attach_state" where
  "attach_one w inc tk st =
     (case fst (dialAgent (rw_budget w) inc (rw_attempts w tk) (rw_now w)) of
        Inl e \<Rightarrow> st\<lparr>av_firstErr := (case av_firstErr st of None \<Rightarrow> Some e | Some x \<Rightarrow> Some x)\<rparr>
      | Inr wel \<Rightarrow>
          let s = length (av_welcomes st) in
          st\<lparr>av_loss := watch (av_loss st), av_welcomes := av_welcomes st @ [wel], av_set := fst (Add tk s (av_set st))\<rparr>)"

fun attach_all :: "run_world \<Rightarrow> incoming \<Rightarrow> task list \<Rightarrow> attach_state \<Rightarrow> attach_state" where
  "attach_all w inc [] st = st"
| "attach_all w inc (tk # tks) st = attach_all w inc tks (foldl session_ends (attach_one w inc tk st) (rw_ending w tk))"

definition run_sessions ::
  "run_world \<Rightarrow> RunOptions \<Rightarrow> stealConfig \<Rightarrow> task list \<Rightarrow> string \<Rightarrow> prefix list \<Rightarrow> run_result" where
  "run_sessions w opts st tasks region cidrs =
     (let av = attach_all w (sc_Incoming st) tasks attach_start in
      bracket (map SessionOpened [0..<length (av_welcomes av)]) [SessionsClosed]
        (case Primary (av_set av) of
           None \<Rightarrow> fails 1 (case av_firstErr av of None \<Rightarrow> errEverySessionGone | Some e \<Rightarrow> e)
         | Some p \<Rightarrow>
             let wel = av_welcomes av ! p in
             (case checkTargetEnv wel opts of
                Some e \<Rightarrow> fails 1 e
              | None \<Rightarrow>
                  (case resolveTaskEnv wel opts of
                     Inl e \<Rightarrow> fails 1 e
                   | Inr (taskEnv, _) \<Rightarrow>
                       bracket [] [Cancelled]
                         (let rest = run_endpoint w opts taskEnv region cidrs in
                          if o_Transport opts = ''ssm'' then bracket [FollowerStarted] [Cancelled, FollowerStopped] rest
                          else rest)))))"

section \<open>The helper\<close>

definition run_helper :: "run_world \<Rightarrow> RunOptions \<Rightarrow> run_result \<Rightarrow> run_result" where
  "run_helper w opts rest =
     (if o_NoNetwork opts then rest
      else case rw_stat_exec w of
        Some e \<Rightarrow> fails 1 (Wrapped (o_ExecPath opts @ '' not found; is tetherd-helper running?'') (OpError e))
      | None \<Rightarrow>
          (case rw_dial_helper w of
             Some e \<Rightarrow> fails 1 (OpError e)
           | None \<Rightarrow> bracket [HelperDialed] [HelperClosed] rest))"

section \<open>The run\<close>

definition run_cidrs :: "RunOptions \<Rightarrow> aws_provider \<Rightarrow> task \<Rightarrow> prefix list \<Rightarrow> (int \<times> cli_error) + prefix list" where
  "run_cidrs opts prov tk extra =
     (if o_Transport opts = ''direct'' then
        (if \<not> o_NoNetwork opts \<and> length extra = 0 then Inl (2, OpError ''no --remote-cidr given (or use --no-network)'')
         else if o_NoNetwork opts then Inr extra
         else case ParseRemoteCIDRs ''network.local_cidrs'' (o_LocalCIDRs opts) of
           Inl e \<Rightarrow> Inl (exitFor e, e)
         | Inr loc \<Rightarrow>
             (case applyLocalCIDRs extra loc (credentialRouteFloor opts) of
                Inl e \<Rightarrow> Inl (exitFor e, e)
              | Inr cidrs \<Rightarrow> Inr cidrs))
      else if o_Transport opts = ''ssm'' \<and> \<not> o_NoNetwork opts then
        (case remoteSet (ap_VPCCIDRs prov) (ap_ServiceCIDRs prov) opts tk of
           Inl e \<Rightarrow> Inl (exitFor e, e)
         | Inr cidrs \<Rightarrow> Inr cidrs)
      else Inr [])"

definition RunWithDeps :: "run_world \<Rightarrow> RunOptions \<Rightarrow> run_result" where
  "RunWithDeps w opts =
     (if length (o_Command opts) = 0 then fails 2 (OpError ''no command given'')
      else case ParseRemoteCIDRs ''--remote-cidr'' (o_RemoteCIDRs opts) of
        Inl e \<Rightarrow> fails 2 e
      | Inr extra \<Rightarrow>
          (case stealSettings opts of
             Inl e \<Rightarrow> fails (exitFor e) e
           | Inr st \<Rightarrow>
               (case discoverTasks (rw_newAWS w) (rw_direct w) (rw_now w) opts of
                  Inl e \<Rightarrow> fails (if isUsageError e then 2 else 1) e
                | Inr (prov, tasks, _) \<Rightarrow>
                    let region = (if o_Transport opts = ''ssm'' then ap_Region prov else o_Region opts) in
                    (case run_cidrs opts prov (hd tasks) extra of
                       Inl (code, e) \<Rightarrow> fails code e
                     | Inr cidrs \<Rightarrow> run_helper w opts (run_sessions w opts st tasks region cidrs)))))"

section \<open>What an orderly run is\<close>

text \<open>
  The machine the effects act on. \<open>perform\<close> refuses an effect that comes at the wrong moment: a resource used
  before it exists, one taken down while the child still runs or while another that rests on it is up, the
  capture or the follower stopped without the context having been cancelled, the sessions closed while the
  follower could still add one.
\<close>

record mstate =
  ms_helper :: bool
  ms_sessions :: "nat set"
  ms_follower :: bool
  ms_cred :: bool
  ms_config :: bool
  ms_route :: bool
  ms_capture :: bool
  ms_dns :: bool
  ms_resolver :: bool
  ms_child :: bool
  ms_cancelled :: bool

definition idle :: mstate where
  "idle = \<lparr>ms_helper = False, ms_sessions = {}, ms_follower = False, ms_cred = False, ms_config = False,
     ms_route = False, ms_capture = False, ms_dns = False, ms_resolver = False, ms_child = False,
     ms_cancelled = False\<rparr>"

definition check :: "bool \<Rightarrow> mstate \<Rightarrow> mstate option" where
  "check ok m = (if ok then Some m else None)"

fun perform :: "mstate \<Rightarrow> effect \<Rightarrow> mstate option" where
  "perform m HelperDialed = check (\<not> ms_helper m) (m\<lparr>ms_helper := True\<rparr>)"
| "perform m HelperClosed =
     check (ms_helper m \<and> \<not> ms_route m \<and> \<not> ms_capture m \<and> \<not> ms_resolver m \<and> \<not> ms_child m) (m\<lparr>ms_helper := False\<rparr>)"
| "perform m (SessionOpened s) = check (\<not> ms_child m \<and> s \<notin> ms_sessions m) (m\<lparr>ms_sessions := insert s (ms_sessions m)\<rparr>)"
| "perform m SessionsClosed = check (\<not> ms_child m \<and> \<not> ms_follower m \<and> \<not> ms_cred m) (m\<lparr>ms_sessions := {}\<rparr>)"
| "perform m Cancelled = Some (m\<lparr>ms_cancelled := True\<rparr>)"
| "perform m FollowerStarted = check (ms_sessions m \<noteq> {} \<and> \<not> ms_follower m \<and> \<not> ms_cancelled m) (m\<lparr>ms_follower := True\<rparr>)"
| "perform m FollowerStopped = check (ms_follower m \<and> ms_cancelled m) (m\<lparr>ms_follower := False\<rparr>)"
| "perform m CredStarted = check (ms_sessions m \<noteq> {} \<and> \<not> ms_cred m) (m\<lparr>ms_cred := True\<rparr>)"
| "perform m CredClosed = check (ms_cred m \<and> \<not> ms_child m) (m\<lparr>ms_cred := False\<rparr>)"
| "perform m ConfigHidden = check (\<not> ms_config m) (m\<lparr>ms_config := True\<rparr>)"
| "perform m ConfigRemoved = check (ms_config m \<and> \<not> ms_child m) (m\<lparr>ms_config := False\<rparr>)"
| "perform m RoutePinned = check (ms_helper m \<and> \<not> ms_route m) (m\<lparr>ms_route := True\<rparr>)"
| "perform m RouteCleared = check (ms_helper m \<and> ms_route m \<and> \<not> ms_child m) (m\<lparr>ms_route := False\<rparr>)"
| "perform m (CaptureStarted _) = check (ms_helper m \<and> ms_sessions m \<noteq> {} \<and> \<not> ms_capture m) (m\<lparr>ms_capture := True\<rparr>)"
| "perform m CaptureClosed =
     check (ms_helper m \<and> ms_capture m \<and> ms_cancelled m \<and> \<not> ms_resolver m \<and> \<not> ms_child m) (m\<lparr>ms_capture := False\<rparr>)"
| "perform m DnsStarted = check (ms_capture m \<and> \<not> ms_dns m) (m\<lparr>ms_dns := True\<rparr>)"
| "perform m DnsClosed = check (ms_dns m \<and> \<not> ms_resolver m \<and> \<not> ms_child m) (m\<lparr>ms_dns := False\<rparr>)"
| "perform m ResolverPointed = check (ms_helper m \<and> ms_dns m \<and> \<not> ms_resolver m) (m\<lparr>ms_resolver := True\<rparr>)"
| "perform m ResolverCleared = check (ms_helper m \<and> ms_resolver m \<and> \<not> ms_child m) (m\<lparr>ms_resolver := False\<rparr>)"
| "perform m (ChildStarted _ _) = check (ms_cred m \<and> \<not> ms_child m \<and> \<not> ms_cancelled m) (m\<lparr>ms_child := True\<rparr>)"
| "perform m ChildEnded = check (ms_child m) (m\<lparr>ms_child := False\<rparr>)"

fun performs :: "mstate \<Rightarrow> effect list \<Rightarrow> mstate option" where
  "performs m [] = Some m"
| "performs m (e # es) = (case perform m e of None \<Rightarrow> None | Some m' \<Rightarrow> performs m' es)"

text \<open>A stage of the run that takes down whatever it puts up, started in the state \<open>m\<close>.\<close>

definition tidy :: "mstate \<Rightarrow> run_result \<Rightarrow> bool" where
  "tidy m r \<longleftrightarrow> (\<exists>b. performs m (snd r) = Some (m\<lparr>ms_cancelled := b\<rparr>))"

section \<open>Lemmas\<close>

lemma performs_append: "performs m (xs @ ys) = (case performs m xs of None \<Rightarrow> None | Some m' \<Rightarrow> performs m' ys)"
  by (induction xs arbitrary: m) (auto split: option.splits)

lemma tidy_fails: "tidy m (fails code e)"
  unfolding tidy_def fails_def by (intro exI[of _ "ms_cancelled m"]) simp

lemma tidy_bracket:
  assumes "performs m before = Some m'" and "tidy m' r"
    and "\<And>b. \<exists>b'. performs (m'\<lparr>ms_cancelled := b\<rparr>) after = Some (m\<lparr>ms_cancelled := b'\<rparr>)"
  shows "tidy m (bracket before after r)"
  using assms by (fastforce simp: tidy_def bracket_def performs_append)

text \<open>What the child and every stage around it starts from.\<close>

definition ready :: "mstate \<Rightarrow> bool" where
  "ready m \<longleftrightarrow> ms_cred m \<and> ms_sessions m \<noteq> {} \<and> \<not> ms_child m \<and> \<not> ms_cancelled m"

definition stage :: "run_result \<Rightarrow> bool" where
  "stage r \<longleftrightarrow> (\<forall>m. ready m \<longrightarrow> tidy m r)"

lemmas tidy_simps = check_def ready_def idle_def

lemma run_child_stage: "stage (run_child w opts env)"
proof (cases "rw_start w")
  case None
  then show ?thesis
    by (cases "rw_child w")
       (auto simp: stage_def run_child_def Let_def tidy_def tidy_simps intro: exI[of _ False] exI[of _ True])
qed (simp add: stage_def run_child_def Let_def tidy_fails)

lemma run_dns_tidy:
  assumes "stage rest" and "ready m" and "ms_helper m" "ms_capture m" "\<not> ms_dns m" "\<not> ms_resolver m"
  shows "tidy m (run_dns w opts rest)"
proof -
  have "tidy m (bracket [DnsStarted, ResolverPointed] [ResolverCleared, DnsClosed] r)" if "stage r" for r
    by (rule tidy_bracket[where m' = "m\<lparr>ms_dns := True, ms_resolver := True\<rparr>"])
       (use assms that in \<open>(cases m; auto simp: stage_def tidy_simps)+\<close>)
  moreover have "stage (fails 1 e)" for e by (simp add: stage_def tidy_fails)
  ultimately show ?thesis
    using assms(1,2) by (auto simp: run_dns_def tidy_fails stage_def split: sum.splits option.splits)
qed

lemma run_capture_tidy:
  assumes "stage rest" and "ready m" and "\<not> o_NoNetwork opts \<longrightarrow> ms_helper m"
    and "\<not> ms_route m" "\<not> ms_capture m" "\<not> ms_dns m" "\<not> ms_resolver m"
  shows "tidy m (run_capture w opts cidrs rest)"
proof (cases "o_NoNetwork opts")
  case False
  have cap: "tidy m' (bracket [CaptureStarted cidrs] [Cancelled, CaptureClosed] (run_dns w opts rest))"
    if "ready m'" "ms_helper m'" "\<not> ms_capture m'" "\<not> ms_dns m'" "\<not> ms_resolver m'" for m'
    by (rule tidy_bracket[where m' = "m'\<lparr>ms_capture := True\<rparr>"])
       (use that assms(1) in \<open>(cases m'; auto simp: tidy_simps intro!: run_dns_tidy)+\<close>)
  have "tidy m (bracket [RoutePinned] [RouteCleared] (bracket [CaptureStarted cidrs] [Cancelled, CaptureClosed] (run_dns w opts rest)))"
    by (rule tidy_bracket[where m' = "m\<lparr>ms_route := True\<rparr>"])
       (use False assms in \<open>(cases m; auto simp: tidy_simps intro!: cap)+\<close>)
  moreover have "tidy m (bracket [RoutePinned] [RouteCleared] (fails 1 e))" for e
    by (rule tidy_bracket[where m' = "m\<lparr>ms_route := True\<rparr>"])
       (use False assms in \<open>(cases m; auto simp: tidy_simps intro!: tidy_fails)+\<close>)
  ultimately show ?thesis
    using False assms cap[of m] by (auto simp: run_capture_def Let_def tidy_fails split: option.splits)
qed (use assms in \<open>simp add: run_capture_def stage_def\<close>)

lemma run_endpoint_tidy:
  assumes "\<not> ms_cred m" "ms_sessions m \<noteq> {}" "\<not> ms_child m" "\<not> ms_cancelled m"
    and "\<not> o_NoNetwork opts \<longrightarrow> ms_helper m"
    and "\<not> ms_config m" "\<not> ms_route m" "\<not> ms_capture m" "\<not> ms_dns m" "\<not> ms_resolver m"
  shows "tidy m (run_endpoint w opts taskEnv region cidrs)"
proof -
  have rest: "tidy m' (run_capture w opts cidrs (run_child w opts env))"
    if "ready m'" "\<not> o_NoNetwork opts \<longrightarrow> ms_helper m'" "\<not> ms_route m'" "\<not> ms_capture m'" "\<not> ms_dns m'" "\<not> ms_resolver m'" for m' env
    by (rule run_capture_tidy[OF run_child_stage that])
  have cred: "tidy m (bracket [CredStarted] [CredClosed] r)" if "tidy (m\<lparr>ms_cred := True\<rparr>) r" for r
    by (rule tidy_bracket[where m' = "m\<lparr>ms_cred := True\<rparr>"]) (use assms that in \<open>(cases m; auto simp: tidy_simps)+\<close>)
  have hidden: "tidy (m\<lparr>ms_cred := True\<rparr>) (bracket [ConfigHidden] [ConfigRemoved] (run_capture w opts cidrs (run_child w opts env)))" for env
    by (rule tidy_bracket[where m' = "m\<lparr>ms_cred := True, ms_config := True\<rparr>"])
       (use assms in \<open>(cases m; auto simp: tidy_simps intro!: rest)+\<close>)
  have plain: "tidy (m\<lparr>ms_cred := True\<rparr>) (run_capture w opts cidrs (run_child w opts env))" for env
    by (rule rest) (use assms in \<open>auto simp: tidy_simps\<close>)
  show ?thesis
    by (auto simp: run_endpoint_def Let_def tidy_fails split: sum.splits intro!: cred hidden plain)
qed

subsection \<open>Attaching\<close>

text \<open>Every entry of the set is a session that was opened to its task, with the welcome its dial returned.\<close>

definition attach_inv :: "run_world \<Rightarrow> incoming \<Rightarrow> task set \<Rightarrow> attach_state \<Rightarrow> bool" where
  "attach_inv w inc T st \<longleftrightarrow>
     (\<forall>(tk, s) \<in> set (ss_entries (av_set st)).
        tk \<in> T \<and> s < length (av_welcomes st) \<and>
        fst (dialAgent (rw_budget w) inc (rw_attempts w tk) (rw_now w)) = Inr (av_welcomes st ! s))"

lemma Add_entries_subset: "set (ss_entries (fst (Add tk s st))) \<subseteq> insert (tk, s) (set (ss_entries st))"
  by (auto simp: Add_def close_all_def Let_def)

lemma session_ends_inv: "attach_inv w inc T st \<Longrightarrow> attach_inv w inc T (foldl session_ends st xs)"
  by (induction xs arbitrary: st) (auto simp: session_ends_def close_all_def attach_inv_def)

lemma attach_one_inv:
  assumes "attach_inv w inc T st" and "tk \<in> T"
  shows "attach_inv w inc T (attach_one w inc tk st)"
proof (cases "fst (dialAgent (rw_budget w) inc (rw_attempts w tk) (rw_now w))")
  case (Inr wel)
  then show ?thesis
    using assms Add_entries_subset[of tk "length (av_welcomes st)" "av_set st"]
    by (fastforce simp: attach_one_def attach_inv_def nth_append Let_def)
qed (use assms in \<open>simp add: attach_one_def attach_inv_def\<close>)

lemma attach_all_inv: "attach_inv w inc T st \<Longrightarrow> set tks \<subseteq> T \<Longrightarrow> attach_inv w inc T (attach_all w inc tks st)"
  by (induction tks arbitrary: st) (auto intro: session_ends_inv attach_one_inv)

lemma attach_all_primary:
  assumes "Primary (av_set (attach_all w inc tks attach_start)) = Some p"
  obtains tk where "tk \<in> set tks" and "p < length (av_welcomes (attach_all w inc tks attach_start))"
    and "fst (dialAgent (rw_budget w) inc (rw_attempts w tk) (rw_now w)) =
      Inr (av_welcomes (attach_all w inc tks attach_start) ! p)"
proof -
  let ?st = "attach_all w inc tks attach_start"
  have "attach_inv w inc (set tks) ?st"
    by (rule attach_all_inv) (simp_all add: attach_inv_def attach_start_def empty_set_def)
  moreover obtain tk where "(tk, p) \<in> set (ss_entries (av_set ?st))"
    using assms by (auto simp: Primary_def find_Some_iff) (metis nth_mem)
  ultimately show ?thesis by (intro that) (auto simp: attach_inv_def)
qed

lemma performs_opened:
  "ms_sessions m = {} \<Longrightarrow> \<not> ms_child m \<Longrightarrow> performs m (map SessionOpened [0..<n]) = Some (m\<lparr>ms_sessions := {0..<n}\<rparr>)"
proof (induction n)
  case 0
  then show ?case by (cases m) simp
next
  case (Suc n)
  then show ?case by (simp add: performs_append check_def atLeast0_lessThan_Suc)
qed

lemma run_sessions_tidy:
  assumes "m = idle \<or> m = idle\<lparr>ms_helper := True\<rparr>" and "\<not> o_NoNetwork opts \<longrightarrow> ms_helper m"
  shows "tidy m (run_sessions w opts st tasks region cidrs)"
proof -
  define av where "av = attach_all w (sc_Incoming st) tasks attach_start"
  define n where "n = length (av_welcomes av)"
  have m: "ms_sessions m = {}" "\<not> ms_child m" using assms(1) by (auto simp: idle_def)
  have opened: "tidy m (bracket (map SessionOpened [0..<n]) [SessionsClosed] r)"
    if "tidy (m\<lparr>ms_sessions := {0..<n}\<rparr>) r" for r
    by (rule tidy_bracket[OF performs_opened[OF m] that]) (use assms(1) in \<open>auto simp: tidy_simps\<close>)
  have inner: "tidy (m\<lparr>ms_sessions := {0..<n}\<rparr>)
      (bracket [] [Cancelled] (let rest = run_endpoint w opts taskEnv region cidrs in
         if o_Transport opts = ''ssm'' then bracket [FollowerStarted] [Cancelled, FollowerStopped] rest else rest))"
    if "0 < n" for taskEnv
  proof (rule tidy_bracket[where m' = "m\<lparr>ms_sessions := {0..<n}\<rparr>"])
    let ?m = "m\<lparr>ms_sessions := {0..<n}\<rparr>" and ?e = "run_endpoint w opts taskEnv region cidrs"
    have "tidy (?m\<lparr>ms_follower := f\<rparr>) ?e" for f
      by (rule run_endpoint_tidy) (use assms that in \<open>auto simp: idle_def\<close>)
    moreover from this[of True] have "tidy ?m (bracket [FollowerStarted] [Cancelled, FollowerStopped] ?e)"
      by (rule tidy_bracket[where m' = "?m\<lparr>ms_follower := True\<rparr>", rotated])
         (use assms(1) that in \<open>auto simp: tidy_simps\<close>)
    moreover from calculation(1)[of False] have "tidy ?m ?e" using assms(1) by (auto simp: idle_def)
    ultimately show "tidy ?m (let rest = ?e in
         if o_Transport opts = ''ssm'' then bracket [FollowerStarted] [Cancelled, FollowerStopped] rest else rest)"
      by (simp add: Let_def)
  qed auto
  have "0 < n" if "Primary (av_set av) = Some p" for p
    using that unfolding av_def by (rule attach_all_primary) (auto simp: n_def av_def)
  then show ?thesis
    unfolding run_sessions_def av_def[symmetric] Let_def[of av] n_def[symmetric]
    by (intro opened) (auto simp: tidy_fails Let_def inner[unfolded Let_def] simp del: if_True if_False split del: if_split
        split: option.splits sum.splits)
qed


subsection \<open>When the child is started\<close>

definition started :: "string list \<Rightarrow> string list \<Rightarrow> effect set \<Rightarrow> run_result \<Rightarrow> bool" where
  "started argv env E r \<longleftrightarrow> (\<exists>pre post. snd r = pre @ ChildStarted argv env # post \<and> E \<subseteq> set pre)"

fun is_child_start :: "effect \<Rightarrow> bool" where
  "is_child_start (ChildStarted _ _) = True"
| "is_child_start _ = False"

lemma is_child_start_iff: "is_child_start e \<longleftrightarrow> (\<exists>argv env. e = ChildStarted argv env)"
  by (cases e) auto

definition starts_child :: "run_result \<Rightarrow> bool" where
  "starts_child r \<longleftrightarrow> list_ex is_child_start (snd r)"

lemma starts_child_iff: "starts_child r \<longleftrightarrow> (\<exists>argv env. started argv env {} r)"
proof
  assume "starts_child r"
  then obtain argv env where "ChildStarted argv env \<in> set (snd r)"
    by (auto simp: starts_child_def list_ex_iff is_child_start_iff)
  then show "\<exists>argv env. started argv env {} r" by (auto simp: started_def in_set_conv_decomp)
qed (auto simp: started_def starts_child_def)

lemma started_fails: "\<not> started argv env E (fails code e)"
  by (simp add: started_def fails_def)

lemma started_bracket:
  assumes "started argv env E (bracket before after r)" and "E \<inter> set (before @ after) = {}"
    and "\<forall>e \<in> set (before @ after). \<forall>a b. e \<noteq> ChildStarted a b"
  shows "started argv env E r"
proof -
  from assms(1) obtain pre post where eq: "before @ snd r @ after = pre @ ChildStarted argv env # post" and E: "E \<subseteq> set pre"
    by (auto simp: started_def bracket_def)
  from eq assms(3) obtain us where pre: "pre = before @ us"
    by (fastforce simp: append_eq_append_conv2 Cons_eq_append_conv append_eq_Cons_conv)
  with eq have "snd r @ after = us @ ChildStarted argv env # post" by simp
  then obtain vs where "snd r = us @ ChildStarted argv env # vs"
    using assms(3) by (fastforce simp: append_eq_append_conv2 Cons_eq_append_conv append_eq_Cons_conv)
  moreover have "E \<subseteq> set us" using E assms(2) pre by auto
  ultimately show ?thesis by (auto simp: started_def)
qed

lemma started_bracketI: "started argv env E r \<Longrightarrow> started argv env (E \<union> set before) (bracket before after r)"
  unfolding started_def bracket_def
proof (elim exE conjE)
  fix pre post
  assume "snd r = pre @ ChildStarted argv env # post" "E \<subseteq> set pre"
  then show "\<exists>pre post. snd (fst r, before @ snd r @ after) = pre @ ChildStarted argv env # post \<and> E \<union> set before \<subseteq> set pre"
    by (intro exI[of _ "before @ pre"] exI[of _ "post @ after"]) auto
qed

text \<open>The shape all stages share: what the exit code and the error say.\<close>

definition exits :: "run_world \<Rightarrow> run_result \<Rightarrow> bool" where
  "exits w r \<longleftrightarrow>
     (if starts_child r then
        (case rw_child w of ChildExits c \<Rightarrow> fst r = (c, None) | _ \<Rightarrow> fst (fst r) = 1 \<and> snd (fst r) \<noteq> None)
      else fst (fst r) = 1 \<and> snd (fst r) \<noteq> None)"

lemma exits_fails: "exits w (fails 1 e)"
  by (simp add: exits_def starts_child_def fails_def)

lemma exits_bracket:
  assumes "exits w r" and "\<not> starts_child (fst r, before)" and "\<not> starts_child (fst r, after)"
  shows "exits w (bracket before after r)"
proof -
  have 1: "starts_child (bracket before after r) = starts_child r" using assms(2,3) by (simp add: starts_child_def bracket_def)
  have 2: "fst (bracket before after r) = fst r" by (simp add: bracket_def)
  show ?thesis using assms(1) unfolding exits_def 1 2 .
qed

lemma run_child_exits: "exits w (run_child w opts env)"
  by (cases "rw_start w"; cases "rw_child w") (simp_all add: run_child_def exits_def starts_child_def fails_def)

lemma run_capture_exits: "exits w rest \<Longrightarrow> exits w (run_capture w opts cidrs rest)"
  by (auto simp: run_capture_def run_dns_def Let_def starts_child_def split: option.splits sum.splits
      intro!: exits_bracket exits_fails)

lemma run_endpoint_exits: "exits w (run_endpoint w opts taskEnv region cidrs)"
  by (auto simp: run_endpoint_def Let_def starts_child_def split: sum.splits
      intro!: exits_bracket exits_fails run_capture_exits run_child_exits)

lemma run_sessions_exits: "exits w (run_sessions w opts st tasks region cidrs)"
  by (auto simp: run_sessions_def Let_def starts_child_def list_ex_iff split: option.splits sum.splits
      intro!: exits_bracket exits_fails run_endpoint_exits)

lemma run_helper_exits: "exits w rest \<Longrightarrow> exits w (run_helper w opts rest)"
  by (auto simp: run_helper_def starts_child_def split: option.splits intro!: exits_bracket exits_fails)

text \<open>A stage that starts a child only as \<open>P\<close> says, and only after the effects \<open>C\<close>.\<close>

definition launches :: "effect set \<Rightarrow> (string list \<Rightarrow> string list \<Rightarrow> bool) \<Rightarrow> run_result \<Rightarrow> bool" where
  "launches C P r \<longleftrightarrow> (\<forall>argv env. started argv env {} r \<longrightarrow> P argv env \<and> started argv env C r)"

lemma launches_fails: "launches C P (fails code e)"
  by (simp add: launches_def started_fails)

lemma started_mono: "started argv env E r \<Longrightarrow> F \<subseteq> E \<Longrightarrow> started argv env F r"
  unfolding started_def by blast

lemma launches_bracket:
  assumes "launches C P r" and "\<not> starts_child (fst r, before)" and "\<not> starts_child (fst r, after)"
  shows "launches (C \<union> set before) P (bracket before after r)"
proof -
  have other: "\<forall>e \<in> set (before @ after). \<forall>a b. e \<noteq> ChildStarted a b"
    using assms(2,3) by (auto simp: starts_child_def list_ex_iff)
  have "P argv env \<and> started argv env (C \<union> set before) (bracket before after r)"
    if "started argv env {} (bracket before after r)" for argv env
  proof -
    have "started argv env {} r" by (rule started_bracket[OF that _ other]) simp
    with assms(1) have "P argv env" "started argv env C r" by (auto simp: launches_def)
    then show ?thesis by (simp add: started_bracketI)
  qed
  then show ?thesis by (simp add: launches_def)
qed

lemma launches_less: "launches C P r \<Longrightarrow> D \<subseteq> C \<Longrightarrow> launches D P r"
  unfolding launches_def using started_mono by blast

lemmas launches_around = launches_less[OF launches_bracket]

lemma run_child_launches:
  "launches {} (\<lambda>argv env'. env' = env \<and>
     argv = (if o_NoNetwork opts then o_Command opts else o_ExecPath opts # ''--'' # o_Command opts)) (run_child w opts env)"
proof (cases "rw_start w")
  case None
  then show ?thesis
    by (cases "rw_child w") (auto simp: launches_def started_def run_child_def Cons_eq_append_conv)
qed (simp add: launches_def started_fails run_child_def)

lemma run_capture_launches:
  assumes "launches {} P rest"
  shows "launches (if o_NoNetwork opts then {} else {CaptureStarted cidrs}) P (run_capture w opts cidrs rest)"
proof (cases "o_NoNetwork opts")
  case False
  have "launches {} P (run_dns w opts rest)"
    using assms by (auto simp: run_dns_def launches_fails starts_child_def split: sum.splits option.splits intro!: launches_around)
  then have cap: "launches {CaptureStarted cidrs} P (bracket [CaptureStarted cidrs] [Cancelled, CaptureClosed] (run_dns w opts rest))"
    by (auto simp: starts_child_def intro!: launches_around)
  then have "launches {CaptureStarted cidrs} P (bracket [RoutePinned] [RouteCleared]
      (bracket [CaptureStarted cidrs] [Cancelled, CaptureClosed] (run_dns w opts rest)))"
    by (rule launches_around) (auto simp: starts_child_def)
  moreover have "launches {CaptureStarted cidrs} P (bracket [RoutePinned] [RouteCleared] (fails 1 e))" for e
    using launches_fails by (rule launches_around) (auto simp: starts_child_def)
  ultimately show ?thesis
    using False cap by (auto simp: run_capture_def Let_def launches_fails split: option.splits)
qed (use assms in \<open>simp add: run_capture_def\<close>)

definition child_argv :: "RunOptions \<Rightarrow> string list" where
  "child_argv opts = (if o_NoNetwork opts then o_Command opts else o_ExecPath opts # ''--'' # o_Command opts)"

lemma run_endpoint_launches:
  "launches (if o_NoNetwork opts then {} else {CaptureStarted cidrs})
     (\<lambda>argv env. argv = child_argv opts \<and> (\<exists>addr hide. env = child_env (rw_url w) opts (rw_environ w) taskEnv addr region hide))
     (run_endpoint w opts taskEnv region cidrs)"
proof -
  let ?C = "if o_NoNetwork opts then {} else {CaptureStarted cidrs}"
  let ?P = "\<lambda>argv env. argv = child_argv opts \<and> (\<exists>addr hide. env = child_env (rw_url w) opts (rw_environ w) taskEnv addr region hide)"
  have "launches {} ?P (run_child w opts (child_env (rw_url w) opts (rw_environ w) taskEnv addr region hide))" for addr hide
    using run_child_launches[of "child_env (rw_url w) opts (rw_environ w) taskEnv addr region hide" opts w]
    by (auto simp: launches_def child_argv_def)
  from run_capture_launches[OF this]
  have rest: "launches ?C ?P (run_capture w opts cidrs (run_child w opts (child_env (rw_url w) opts (rw_environ w) taskEnv addr region hide)))"
    for addr hide .
  have hidden: "launches ?C ?P (bracket [ConfigHidden] [ConfigRemoved] r)" if "launches ?C ?P r" for r
    using that by (rule launches_around) (auto simp: starts_child_def)
  have cred: "launches ?C ?P (bracket [CredStarted] [CredClosed] r)" if "launches ?C ?P r" for r
    using that by (rule launches_around) (auto simp: starts_child_def)
  show ?thesis
    by (cases "rw_cred_start w") (simp_all add: run_endpoint_def Let_def launches_fails rest hidden cred split del: if_split split: if_split_asm if_split)
qed

lemma run_sessions_launches:
  "launches (if o_NoNetwork opts then {} else {CaptureStarted cidrs})
     (\<lambda>argv env. argv = child_argv opts \<and> (\<exists>tk wel addr hide. tk \<in> set tasks \<and>
        fst (dialAgent (rw_budget w) (sc_Incoming st) (rw_attempts w tk) (rw_now w)) = Inr wel \<and>
        (o_Transport opts = ''ssm'' \<longrightarrow> w_Env wel = o_TargetEnv opts) \<and>
        env = child_env (rw_url w) opts (rw_environ w)
                (if o_NoEnv opts \<or> w_EnvError wel \<noteq> '''' then [] else w_AppEnv wel) addr region hide))
     (run_sessions w opts st tasks region cidrs)"
    (is "launches ?C0 ?P0 _")
proof -
  define C where "C = ?C0"
  define P where "P = ?P0"
  define av where "av = attach_all w (sc_Incoming st) tasks attach_start"
  have around: "launches C P (bracket before after r)"
    if "launches C P r" "\<not> starts_child (fst r, before)" "\<not> starts_child (fst r, after)" for before after r
    using that by (rule launches_around) auto
  have "launches C P (run_endpoint w opts taskEnv region cidrs)"
    if p: "Primary (av_set av) = Some p" and c: "checkTargetEnv (av_welcomes av ! p) opts = None"
      and r: "resolveTaskEnv (av_welcomes av ! p) opts = Inr (taskEnv, status)" for p taskEnv status
  proof -
    obtain tk where tk: "tk \<in> set tasks"
      "fst (dialAgent (rw_budget w) (sc_Incoming st) (rw_attempts w tk) (rw_now w)) = Inr (av_welcomes av ! p)"
      using p unfolding av_def by (rule attach_all_primary)
    have env: "taskEnv = (if o_NoEnv opts \<or> w_EnvError (av_welcomes av ! p) \<noteq> '''' then [] else w_AppEnv (av_welcomes av ! p))"
      using r by (auto simp: resolveTaskEnv_def split: if_splits)
    have target: "o_Transport opts = ''ssm'' \<longrightarrow> w_Env (av_welcomes av ! p) = o_TargetEnv opts"
      using c by (auto simp: checkTargetEnv_def split: if_splits)
    from run_endpoint_launches[of opts cidrs w taskEnv region] tk target show ?thesis
      unfolding launches_def C_def P_def env by blast
  qed
  then have "launches C P (run_sessions w opts st tasks region cidrs)"
    unfolding run_sessions_def av_def[symmetric] Let_def[of av]
    by (intro around) (auto simp: Let_def starts_child_def list_ex_iff launches_fails split: option.splits sum.splits intro!: around)
  then show ?thesis unfolding C_def P_def .
qed

lemma run_helper_launches: "launches C P rest \<Longrightarrow> launches C P (run_helper w opts rest)"
  by (auto simp: run_helper_def launches_fails starts_child_def split: option.splits intro!: launches_around)

section \<open>Properties\<close>

text \<open>C6: A child is only ever started in the environment the operator named: over \<^verbatim>\<open>ssm\<close> the agent
  whose welcome it is given reported \<^verbatim>\<open>TETHERD_ENV\<close> as asked for, and it is the agent of one of the
  discovered tasks. Its environment is merged from that welcome, and unless \<^verbatim>\<open>--no-network\<close> was
  given it runs through the setgid shim, after the capture of exactly the remote set was installed.\<close>

theorem child_runs_in_its_target:
  assumes "ChildStarted argv env \<in> set (snd (RunWithDeps w opts))"
  shows "\<exists>prov tasks out st extra cidrs tk wel addr hide pre post.
    discoverTasks (rw_newAWS w) (rw_direct w) (rw_now w) opts = Inr (prov, tasks, out) \<and>
    stealSettings opts = Inr st \<and> ParseRemoteCIDRs ''--remote-cidr'' (o_RemoteCIDRs opts) = Inr extra \<and>
    run_cidrs opts prov (hd tasks) extra = Inr cidrs \<and> tk \<in> set tasks \<and>
    fst (dialAgent (rw_budget w) (sc_Incoming st) (rw_attempts w tk) (rw_now w)) = Inr wel \<and>
    (o_Transport opts = ''ssm'' \<longrightarrow> w_Env wel = o_TargetEnv opts) \<and>
    env = child_env (rw_url w) opts (rw_environ w) (if o_NoEnv opts \<or> w_EnvError wel \<noteq> '''' then [] else w_AppEnv wel)
            addr (if o_Transport opts = ''ssm'' then ap_Region prov else o_Region opts) hide \<and>
    argv = (if o_NoNetwork opts then o_Command opts else o_ExecPath opts # ''--'' # o_Command opts) \<and>
    snd (RunWithDeps w opts) = pre @ ChildStarted argv env # post \<and> (o_NoNetwork opts \<or> CaptureStarted cidrs \<in> set pre)"
proof -
  have 0: "started argv env {} (RunWithDeps w opts)"
    using assms by (auto simp: started_def in_set_conv_decomp)
  from 0 obtain extra where 1: "ParseRemoteCIDRs ''--remote-cidr'' (o_RemoteCIDRs opts) = Inr extra"
    by (cases "ParseRemoteCIDRs ''--remote-cidr'' (o_RemoteCIDRs opts)") (auto simp: RunWithDeps_def started_fails split: if_splits)
  from 0 1 obtain st where 2: "stealSettings opts = Inr st"
    by (cases "stealSettings opts") (auto simp: RunWithDeps_def started_fails split: if_splits)
  from 0 1 2 obtain prov tasks out where 3: "discoverTasks (rw_newAWS w) (rw_direct w) (rw_now w) opts = Inr (prov, tasks, out)"
    by (cases "discoverTasks (rw_newAWS w) (rw_direct w) (rw_now w) opts") (auto simp: RunWithDeps_def started_fails split: if_splits)
  from 0 1 2 3 obtain cidrs where 4: "run_cidrs opts prov (hd tasks) extra = Inr cidrs"
    by (cases "run_cidrs opts prov (hd tasks) extra") (auto simp: RunWithDeps_def started_fails Let_def split: if_splits)
  let ?region = "if o_Transport opts = ''ssm'' then ap_Region prov else o_Region opts"
  have 5: "RunWithDeps w opts = run_helper w opts (run_sessions w opts st tasks ?region cidrs)"
    using 0 1 2 3 4 by (auto simp: RunWithDeps_def started_fails Let_def split: if_splits)
  note l = run_helper_launches[OF run_sessions_launches[of opts cidrs tasks w st ?region], of w opts, folded 5,
      unfolded launches_def, rule_format, OF 0]
  then have "started argv env (if o_NoNetwork opts then {} else {CaptureStarted cidrs}) (RunWithDeps w opts)" by blast
  then obtain pre post where "snd (RunWithDeps w opts) = pre @ ChildStarted argv env # post"
    "o_NoNetwork opts \<or> CaptureStarted cidrs \<in> set pre"
    by (auto simp: started_def split: if_splits)
  with l 1 2 3 4 show ?thesis unfolding child_argv_def by blast
qed

text \<open>The exit code of a run is the child's own when the child ran to its end, and 1 with a reason when the
  sessions were lost under it; a run that never started the child reports why and exits with 1 or 2, and 2, for
  what the operator typed or configured, only when it has done nothing to the machine at all.\<close>

lemma run_exit_code:
  "case RunWithDeps w opts of ((code, err), trace) \<Rightarrow>
     if list_ex is_child_start trace then
       (case rw_child w of ChildExits c \<Rightarrow> code = c \<and> err = None | _ \<Rightarrow> code = 1 \<and> err \<noteq> None)
     else err \<noteq> None \<and> (code = 1 \<or> code = 2 \<and> trace = [])"
proof -
  have inner: "exits w (run_helper w opts (run_sessions w opts st tasks region cidrs))" for st tasks region cidrs
    by (rule run_helper_exits[OF run_sessions_exits])
  have cidrs: "run_cidrs opts prov tk extra = Inl (code, e) \<Longrightarrow> code = 1 \<or> code = 2" for prov tk extra code e
    by (auto simp: run_cidrs_def exitFor_def split: if_splits sum.splits)
  have "exits w (RunWithDeps w opts) \<or> (\<exists>e. RunWithDeps w opts = fails 1 e \<or> RunWithDeps w opts = fails 2 e)"
    using inner by (auto simp: RunWithDeps_def exitFor_def Let_def split: sum.splits dest!: cidrs)
  then show ?thesis
    by (cases "rw_child w") (auto simp: exits_def starts_child_def fails_def split: prod.splits if_splits)
qed

definition demo_options :: RunOptions where
  "demo_options = direct_options\<lparr>o_NoNetwork := True, o_NoIncoming := True, o_NoEnv := True, o_Command := [''true'']\<rparr>"

definition demo_welcome :: welcome_msg where
  "demo_welcome = \<lparr>w_Version = ''1'', w_TaskARN = '''', w_Env = ''dev'', w_AppEnv = [], w_EnvError = '''', w_Others = [], w_Sessions = []\<rparr>"

definition demo_world :: run_world where
  "demo_world =
     \<lparr>rw_newAWS = (\<lambda>_. Inl (OpError ''no credentials'')), rw_direct = directProvider (\<lambda>_. Inl ''''), rw_now = 0, rw_budget = 0,
      rw_stat_exec = None, rw_dial_helper = None,
      rw_attempts = (\<lambda>_. amy_attempts\<lparr>at_try := \<lambda>_. Connection None (Inr (LWelcome demo_welcome))\<rparr>),
      rw_ending = (\<lambda>_. []), rw_cred_start = Inr ''127.0.0.1:4000'', rw_hide = None, rw_url = (\<lambda>_. None),
      rw_route_set = None, rw_capture_start = None, rw_dns_start = Inr 53530, rw_resolver_set = None,
      rw_environ = [''HOME=/root''], rw_start = None, rw_child = ChildExits 0\<rparr>"

lemma demo_dial: "fst (dialAgent 0 no_incoming (rw_attempts demo_world tk) 0) = Inr demo_welcome"
  by (simp add: dialAgent_def no_incoming_def attachAgent_def Dial_def type_defs demo_world_def)

lemma demo_primary:
  "Primary (av_set (attach_all demo_world no_incoming [direct_task demo_options] attach_start)) = Some 0"
  "av_welcomes (attach_all demo_world no_incoming [direct_task demo_options] attach_start) = [demo_welcome]"
  using demo_dial
  by (simp_all add: attach_one_def attach_start_def Let_def Primary_def Add_def empty_set_def demo_world_def)

lemma demo_run:
  "ChildStarted [''true''] (child_env (rw_url demo_world) demo_options [''HOME=/root''] [] ''127.0.0.1:4000'' '''' None)
     \<in> set (snd (RunWithDeps demo_world demo_options))"
proof -
  have o: "o_NoNetwork demo_options" "o_NoIncoming demo_options" "o_NoEnv demo_options" "o_Command demo_options = [''true'']"
    "o_Transport demo_options = ''direct''" "o_AgentAddr demo_options = ''127.0.0.1:9900''" "o_RemoteCIDRs demo_options = []"
    "o_Region demo_options = ''''"
    by (simp_all add: demo_options_def direct_options_def amy_options_def zero_options_def)
  have w: "rw_cred_start demo_world = Inr ''127.0.0.1:4000''" "rw_start demo_world = None" "rw_child demo_world = ChildExits 0"
    "rw_environ demo_world = [''HOME=/root'']"
    by (simp_all add: demo_world_def)
  have s: "stealSettings demo_options = Inr \<lparr>sc_Incoming = no_incoming, sc_LocalPort = 0\<rparr>"
    by (simp add: stealSettings_def o)
  have e: "ContainerCredentialsPath lib [] = ''''" for lib
    by (simp add: ContainerCredentialsPath_def mstr_def endpointURL_def)
  have "RunWithDeps demo_world demo_options =
      run_sessions demo_world demo_options \<lparr>sc_Incoming = no_incoming, sc_LocalPort = 0\<rparr> [direct_task demo_options] '''' []"
    by (simp add: RunWithDeps_def s o discoverTasks_def run_cidrs_def run_helper_def)
  then show ?thesis
    by (simp add: run_sessions_def demo_primary checkTargetEnv_def resolveTaskEnv_def o w bracket_def run_endpoint_def
        run_capture_def run_child_def e Let_def del: attach_all.simps)
qed

theorem child_runs_in_its_target_witness:
  "\<exists>tasks wel env pre post. tasks = [direct_task demo_options] \<and>
     fst (dialAgent 0 no_incoming (rw_attempts demo_world (hd tasks)) 0) = Inr wel \<and>
     snd (RunWithDeps demo_world demo_options) = pre @ ChildStarted [''true''] env # post"
  using child_runs_in_its_target[OF demo_run] demo_dial by blast

end
