(* ===== verification/ConfigFiles.thy ===== *)
theory ConfigFiles
  imports CliOptions
begin

text \<open>
  The two configuration files, \<^verbatim>\<open>internal/config/config.go\<close>: finding and decoding \<^verbatim>\<open>.tetherd.yml\<close>
  and decoding \<^verbatim>\<open>~/.tetherd/config.yml\<close>. The YAML library is the parameter \<open>yaml_lib\<close>.
\<close>

section \<open>The files' contents\<close>

definition SharedName :: string where "SharedName = ''.tetherd.yml''"
definition ConfigVersion :: int where "ConfigVersion = 1"

record AWS =
  aws_Profile :: string
  aws_Region :: string

record TargetCfg =
  tc_Cluster :: string
  tc_Service :: string
  tc_AgentContainer :: string
  tc_Env :: string

record EnvCfg =
  ec_Override :: "(string, string) gomap"
  ec_Exclude :: "string list"

record Network =
  nw_RemoteCIDRs :: "string list"
  nw_LocalCIDRs :: "string list"
  nw_RemoteDomains :: "string list"
  nw_RemoteServices :: "string list"
  nw_PinCredentialRoute :: bool

record MatchCfg =
  mc_Header :: string
  mc_TokenHeader :: string

record IncomingCfg =
  ic_LocalPort :: int
  ic_Match :: MatchCfg

record Shared =
  sh_Version :: int
  sh_AWS :: AWS
  sh_Target :: TargetCfg
  sh_Env :: EnvCfg
  sh_Network :: Network
  sh_Incoming :: IncomingCfg

record Personal =
  p_User :: string
  p_Token :: string
  p_AWS :: AWS

record Config =
  cf_Shared :: Shared
  cf_Personal :: Personal
  cf_SharedPath :: string

definition zero_aws :: AWS where "zero_aws = \<lparr>aws_Profile = '''', aws_Region = ''''\<rparr>"

definition zero_shared :: Shared where
  "zero_shared = \<lparr>sh_Version = 0, sh_AWS = zero_aws,
     sh_Target = \<lparr>tc_Cluster = '''', tc_Service = '''', tc_AgentContainer = '''', tc_Env = ''''\<rparr>,
     sh_Env = \<lparr>ec_Override = [], ec_Exclude = []\<rparr>,
     sh_Network = \<lparr>nw_RemoteCIDRs = [], nw_LocalCIDRs = [], nw_RemoteDomains = [], nw_RemoteServices = [],
                    nw_PinCredentialRoute = False\<rparr>,
     sh_Incoming = \<lparr>ic_LocalPort = 0, ic_Match = \<lparr>mc_Header = '''', mc_TokenHeader = ''''\<rparr>\<rparr>\<rparr>"

definition zero_personal :: Personal where
  "zero_personal = \<lparr>p_User = '''', p_Token = '''', p_AWS = zero_aws\<rparr>"

section \<open>Finding the shared file\<close>

text \<open>
  A directory is the list of its components below the root; \<open>stat p\<close> says whether \<open>p\<close> exists and is not a
  directory. \<open>start\<close> is \<^verbatim>\<open>filepath.Abs\<close>'s answer.
\<close>

function find_up :: "(string list \<Rightarrow> bool) \<Rightarrow> string list \<Rightarrow> string list option" where
  "find_up stat dir =
     (let p = dir @ [SharedName] in
      if stat p then Some p
      else if dir = [] then None \<comment> \<open>the parent of the root is the root\<close>
      else find_up stat (butlast dir))"
  by pat_completeness auto
termination
  by (relation "measure (\<lambda>(_, dir). length dir)") auto

declare find_up.simps [simp del]

definition Find :: "(string list \<Rightarrow> bool) \<Rightarrow> string list option \<Rightarrow> string list option" where
  "Find stat start = (case start of None \<Rightarrow> None | Some dir \<Rightarrow> find_up stat dir)"

section \<open>Decoding\<close>

datatype config_error =
    YamlError string
  | MissingVersion
  | UnsupportedVersion int
  | ContainerRefused nat \<comment> \<open>the line of \<^verbatim>\<open>target.container\<close>\<close>
  | ReadFailed string

text \<open>
  The YAML library: the lenient probe of the version and of the line of a \<^verbatim>\<open>target.container\<close> key, and the
  two strict decodes, which answer \<open>None\<close> for a document that is empty (\<^verbatim>\<open>io.EOF\<close>).
\<close>

record yaml_lib =
  y_probe :: "string \<Rightarrow> string + (int option \<times> nat option)"
  y_shared :: "string \<Rightarrow> string + Shared option"
  y_personal :: "string \<Rightarrow> string + Personal option"

definition decodeShared :: "yaml_lib \<Rightarrow> string \<Rightarrow> config_error + Shared" where
  "decodeShared y data =
     (case y_probe y data of
        Inl e \<Rightarrow> Inl (YamlError e)
      | Inr (None, _) \<Rightarrow> Inl MissingVersion
      | Inr (Some v, container) \<Rightarrow>
          if v \<noteq> ConfigVersion then Inl (UnsupportedVersion v)
          else case container of
            Some line \<Rightarrow> Inl (ContainerRefused line)
          | None \<Rightarrow>
              (case y_shared y data of
                 Inl e \<Rightarrow> Inl (YamlError e)
               | Inr None \<Rightarrow> Inr zero_shared
               | Inr (Some s) \<Rightarrow> Inr s))"

datatype file_read = FileMissing | FileError string | FileData string

datatype 'a decoded_file = NotExist | DecodeFails config_error | Decoded 'a

definition decodeFile :: "yaml_lib \<Rightarrow> file_read \<Rightarrow> Personal decoded_file" where
  "decodeFile y f =
     (case f of
        FileMissing \<Rightarrow> NotExist
      | FileError e \<Rightarrow> DecodeFails (ReadFailed e)
      | FileData data \<Rightarrow>
          (case y_personal y data of
             Inl e \<Rightarrow> DecodeFails (YamlError e)
           | Inr None \<Rightarrow> Decoded zero_personal
           | Inr (Some p) \<Rightarrow> Decoded p))"

definition Load :: "yaml_lib \<Rightarrow> (string \<Rightarrow> file_read) \<Rightarrow> string \<Rightarrow> string \<Rightarrow> config_error + Config" where
  "Load y read sharedPath personalPath =
     (let shared =
            (if sharedPath = '''' then Inr (zero_shared, '''')
             else case read sharedPath of
               FileMissing \<Rightarrow> Inr (zero_shared, '''')
             | FileError e \<Rightarrow> Inl (ReadFailed e)
             | FileData data \<Rightarrow>
                 (case decodeShared y data of Inl e \<Rightarrow> Inl e | Inr s \<Rightarrow> Inr (s, sharedPath)))
      in case shared of
           Inl e \<Rightarrow> Inl e
         | Inr (s, path) \<Rightarrow>
             (case (if personalPath = '''' then NotExist else decodeFile y (read personalPath)) of
                DecodeFails e \<Rightarrow> Inl e
              | NotExist \<Rightarrow> Inr \<lparr>cf_Shared = s, cf_Personal = zero_personal, cf_SharedPath = path\<rparr>
              | Decoded p \<Rightarrow> Inr \<lparr>cf_Shared = s, cf_Personal = p, cf_SharedPath = path\<rparr>))"

section \<open>Lemmas\<close>

text \<open>The path is the first that exists among those of the directory and its ancestors, nearest first.\<close>

definition candidates :: "string list \<Rightarrow> string list list" where
  "candidates dir = map (\<lambda>n. take n dir @ [SharedName]) (rev [0..<Suc (length dir)])"

lemma candidates_snoc: "candidates (dir @ [d]) = (dir @ [d, SharedName]) # candidates dir"
  by (simp add: candidates_def)

lemma find_up_find: "find_up stat dir = find stat (candidates dir)"
proof (induction dir rule: rev_induct)
  case Nil
  then show ?case by (subst find_up.simps) (simp add: candidates_def)
next
  case (snoc d dir)
  then show ?case by (subst find_up.simps) (simp add: candidates_snoc)
qed

end
