(* ===== verification/PersonalFile.thy ===== *)
theory PersonalFile
  imports ConfigFiles
begin

text \<open>
  The personal file and its steal token, \<^verbatim>\<open>internal/config/personal.go\<close>: any number of runs of tetherd,
  each creating the file, filling in a missing token or rotating it, on one machine at the same time. The file is
  what the strict decoder makes of its bytes; a write becomes visible at once, but truncating and writing are two
  steps, and so are the exclusive create and the write of the fallback for file systems without hard links.
\<close>

section \<open>Reading\<close>

datatype content = Blank | Doc Personal | Bad

definition content_of :: "yaml_lib \<Rightarrow> string \<Rightarrow> content" where
  "content_of y data = (case y_personal y data of Inl _ \<Rightarrow> Bad | Inr None \<Rightarrow> Blank | Inr (Some p) \<Rightarrow> Doc p)"

fun decode :: "content option \<Rightarrow> Personal decoded_file" where
  "decode None = NotExist"
| "decode (Some Blank) = Decoded zero_personal"
| "decode (Some (Doc p)) = Decoded p"
| "decode (Some Bad) = DecodeFails (YamlError ''the file does not decode'')"

text \<open>Attempt \<open>i\<close> of \<^verbatim>\<open>decodeExisting\<close>, which has five.\<close>

datatype exist_step = ExistDone "Personal decoded_file" | ExistAgain

definition decodeExisting :: "nat \<Rightarrow> Personal decoded_file \<Rightarrow> exist_step" where
  "decodeExisting i r =
     (case r of
        NotExist \<Rightarrow> ExistDone r
      | Decoded p \<Rightarrow> if p_Token p \<noteq> '''' then ExistDone r else if i + 1 < 5 then ExistAgain else ExistDone r
      | DecodeFails _ \<Rightarrow> if i + 1 < 5 then ExistAgain else ExistDone r)"

text \<open>Attempt \<open>i\<close> of \<^verbatim>\<open>readPublished\<close>.\<close>

datatype back_step = BackDone Personal | BackAgain | BackFails

definition readPublished :: "nat \<Rightarrow> bool \<Rightarrow> Personal decoded_file \<Rightarrow> back_step" where
  "readPublished i retry r =
     (let attempts = (if retry then 3 else 1);
          again = (if i + 1 < attempts then BackAgain else BackFails)
      in case r of Decoded p \<Rightarrow> (if p_Token p \<noteq> '''' then BackDone p else again) | _ \<Rightarrow> again)"

section \<open>Creating\<close>

datatype published = Won | Lost bool \<comment> \<open>whether reading back is retried\<close> | FallbackOpened

definition publishFallback :: "content option \<Rightarrow> content option \<times> published" where
  "publishFallback file = (case file of None \<Rightarrow> (Some Blank, FallbackOpened) | Some c \<Rightarrow> (Some c, Lost True))"

definition publish :: "bool \<Rightarrow> content option \<Rightarrow> Personal \<Rightarrow> content option \<times> published" where
  "publish links file p =
     (if links then (case file of None \<Rightarrow> (Some (Doc p), Won) | Some c \<Rightarrow> (Some c, Lost False))
      else publishFallback file)"

section \<open>Under the lock\<close>

datatype locked_step = Keep Personal | Rewrite Personal | LockedFails

definition ensureToken :: "Personal decoded_file \<Rightarrow> string \<Rightarrow> locked_step" where
  "ensureToken cur token =
     (case cur of
        Decoded p \<Rightarrow> if p_Token p \<noteq> '''' then Keep p else Rewrite (p\<lparr>p_Token := token\<rparr>)
      | _ \<Rightarrow> LockedFails)"

definition RotateToken :: "Personal decoded_file \<Rightarrow> string \<Rightarrow> locked_step" where
  "RotateToken cur token = (case cur of Decoded p \<Rightarrow> Rewrite (p\<lparr>p_Token := token\<rparr>) | _ \<Rightarrow> LockedFails)"

section \<open>Runs at the same time\<close>

datatype call = Ensure string | Rotate string \<comment> \<open>with the user to seed a new file with\<close>
datatype job = Backfill | Replace

datatype phase =
    NotStarted
  | Reading call nat
  | Publishing call Personal
  | FallbackWriting call Personal
  | ReadingBack call bool nat
  | LockWait call job
  | Locked call job
  | Truncating call job Personal
  | Writing call job Personal
  | Wrote call job Personal
  | Finished call Personal
  | CallFailed

record pstate =
  ps_file :: "content option"
  ps_private :: bool \<comment> \<open>the file's mode is 0600\<close>
  ps_lock :: "nat option"
  ps_proc :: "nat \<Rightarrow> phase"
  ps_log :: "string list" \<comment> \<open>the tokens the file has had\<close>
  ps_rotated :: bool \<comment> \<open>a rotation has begun to write\<close>
  ps_cut :: bool \<comment> \<open>some process died between truncating and writing\<close>

fun seed_user :: "call \<Rightarrow> string" where
  "seed_user (Ensure u) = u"
| "seed_user (Rotate u) = u"

text \<open>\<^verbatim>\<open>EnsurePersonal\<close> has its answer: the call returns it, or goes on to rotate.\<close>

fun resume :: "call \<Rightarrow> Personal \<Rightarrow> phase" where
  "resume (Ensure u) p = Finished (Ensure u) p"
| "resume (Rotate u) p = LockWait (Rotate u) Replace"

fun locked_job :: "job \<Rightarrow> Personal decoded_file \<Rightarrow> string \<Rightarrow> locked_step" where
  "locked_job Backfill = ensureToken"
| "locked_job Replace = RotateToken"

definition goto :: "nat \<Rightarrow> phase \<Rightarrow> pstate \<Rightarrow> pstate" where
  "goto i ph s = s\<lparr>ps_proc := (ps_proc s)(i := ph)\<rparr>"

fun holding :: "phase \<Rightarrow> bool" where
  "holding (Locked _ _) = True"
| "holding (Truncating _ _ _) = True"
| "holding (Writing _ _ _) = True"
| "holding (Wrote _ _ _) = True"
| "holding _ = False"

fun mid_write :: "phase \<Rightarrow> bool" where
  "mid_write (Writing _ _ _) = True"
| "mid_write (FallbackWriting _ _) = True"
| "mid_write _ = False"

text \<open>The end of a process releases the lock it holds.\<close>

definition release :: "nat \<Rightarrow> pstate \<Rightarrow> pstate" where
  "release i s = (if ps_lock s = Some i then s\<lparr>ps_lock := None\<rparr> else s)"

inductive personal_step :: "bool \<Rightarrow> pstate \<Rightarrow> pstate \<Rightarrow> bool" for links where
  begins: "ps_proc s i = NotStarted \<Longrightarrow> personal_step links s (goto i (Reading c 0) s)"
| reads_again: "ps_proc s i = Reading c n \<Longrightarrow> decodeExisting n (decode (ps_file s)) = ExistAgain \<Longrightarrow>
    personal_step links s (goto i (Reading c (Suc n)) s)"
| reads_token: "ps_proc s i = Reading c n \<Longrightarrow> decodeExisting n (decode (ps_file s)) = ExistDone (Decoded p) \<Longrightarrow> p_Token p \<noteq> '''' \<Longrightarrow>
    personal_step links s (goto i (resume c p) s)"
| reads_tokenless: "ps_proc s i = Reading c n \<Longrightarrow> decodeExisting n (decode (ps_file s)) = ExistDone (Decoded p) \<Longrightarrow> p_Token p = '''' \<Longrightarrow>
    personal_step links s (goto i (LockWait c Backfill) s)"
| reads_bad: "ps_proc s i = Reading c n \<Longrightarrow> decodeExisting n (decode (ps_file s)) = ExistDone (DecodeFails e) \<Longrightarrow>
    personal_step links s (goto i CallFailed s)"
| reads_missing: "ps_proc s i = Reading c n \<Longrightarrow> decodeExisting n (decode (ps_file s)) = ExistDone NotExist \<Longrightarrow> token \<noteq> '''' \<Longrightarrow>
    personal_step links s (goto i (Publishing c \<lparr>p_User = seed_user c, p_Token = token, p_AWS = zero_aws\<rparr>) s)"
| publishes: "ps_proc s i = Publishing c p \<Longrightarrow> publish links (ps_file s) p = (f, Won) \<Longrightarrow>
    personal_step links s (goto i (resume c p) (s\<lparr>ps_file := f, ps_private := True, ps_log := ps_log s @ [p_Token p]\<rparr>))"
| loses: "ps_proc s i = Publishing c p \<Longrightarrow> publish links (ps_file s) p = (f, Lost retry) \<Longrightarrow>
    personal_step links s (goto i (ReadingBack c retry 0) s)"
| opens: "ps_proc s i = Publishing c p \<Longrightarrow> publish links (ps_file s) p = (f, FallbackOpened) \<Longrightarrow>
    personal_step links s (goto i (FallbackWriting c p) (s\<lparr>ps_file := f, ps_private := True\<rparr>))"
| fallback_writes: "ps_proc s i = FallbackWriting c p \<Longrightarrow>
    personal_step links s (goto i (resume c p) (s\<lparr>ps_file := Some (Doc p), ps_log := ps_log s @ [p_Token p]\<rparr>))"
| back_done: "ps_proc s i = ReadingBack c retry n \<Longrightarrow> readPublished n retry (decode (ps_file s)) = BackDone p \<Longrightarrow>
    personal_step links s (goto i (resume c p) s)"
| back_again: "ps_proc s i = ReadingBack c retry n \<Longrightarrow> readPublished n retry (decode (ps_file s)) = BackAgain \<Longrightarrow>
    personal_step links s (goto i (ReadingBack c retry (Suc n)) s)"
| back_fails: "ps_proc s i = ReadingBack c retry n \<Longrightarrow> readPublished n retry (decode (ps_file s)) = BackFails \<Longrightarrow>
    personal_step links s (goto i CallFailed s)"
| locks: "ps_proc s i = LockWait c j \<Longrightarrow> ps_lock s = None \<Longrightarrow> ps_file s \<noteq> None \<Longrightarrow>
    personal_step links s (goto i (Locked c j) (s\<lparr>ps_lock := Some i\<rparr>))"
| keeps: "ps_proc s i = Locked c j \<Longrightarrow> locked_job j (decode (ps_file s)) token = Keep p \<Longrightarrow>
    personal_step links s (goto i (resume c p) (release i s))"
| mints: "ps_proc s i = Locked c j \<Longrightarrow> locked_job j (decode (ps_file s)) token = Rewrite p \<Longrightarrow> token \<noteq> '''' \<Longrightarrow>
    personal_step links s (goto i (Truncating c j p) s)"
| locked_fails: "ps_proc s i = Locked c j \<Longrightarrow> locked_job j (decode (ps_file s)) token = LockedFails \<Longrightarrow>
    personal_step links s (goto i CallFailed (release i s))"
| truncates: "ps_proc s i = Truncating c j p \<Longrightarrow>
    personal_step links s (goto i (Writing c j p) (s\<lparr>ps_file := Some Blank, ps_rotated := ps_rotated s \<or> j = Replace\<rparr>))"
| writes: "ps_proc s i = Writing c j p \<Longrightarrow>
    personal_step links s (goto i (Wrote c j p) (s\<lparr>ps_file := Some (Doc p), ps_log := ps_log s @ [p_Token p]\<rparr>))"
| backfilled: "ps_proc s i = Wrote c Backfill p \<Longrightarrow> personal_step links s (goto i (resume c p) (release i s))"
| replaced: "ps_proc s i = Wrote c Replace p \<Longrightarrow> personal_step links s (goto i (Finished c p) (release i (s\<lparr>ps_private := True\<rparr>)))"
| fails: "ps_proc s i \<noteq> NotStarted \<Longrightarrow> \<not> mid_write (ps_proc s i) \<Longrightarrow> personal_step links s (goto i CallFailed (release i s))"
| is_cut: "mid_write (ps_proc s i) \<Longrightarrow> personal_step links s (goto i CallFailed (release i (s\<lparr>ps_cut := True\<rparr>)))"

definition personal_start :: "content option \<Rightarrow> bool \<Rightarrow> pstate" where
  "personal_start f prv =
     \<lparr>ps_file = f, ps_private = prv, ps_lock = None, ps_proc = (\<lambda>_. NotStarted),
      ps_log = (case f of Some (Doc p) \<Rightarrow> [p_Token p] | _ \<Rightarrow> []), ps_rotated = False, ps_cut = False\<rparr>"

inductive personal_reachable :: "bool \<Rightarrow> content option \<Rightarrow> bool \<Rightarrow> pstate \<Rightarrow> bool" for links f prv where
  personal_init: "personal_reachable links f prv (personal_start f prv)"
| personal_next: "personal_reachable links f prv s \<Longrightarrow> personal_step links s s' \<Longrightarrow> personal_reachable links f prv s'"

section \<open>Lemmas\<close>

lemma goto_simps [simp]:
  "ps_file (goto i ph s) = ps_file s" "ps_private (goto i ph s) = ps_private s" "ps_lock (goto i ph s) = ps_lock s"
  "ps_proc (goto i ph s) = (ps_proc s)(i := ph)" "ps_log (goto i ph s) = ps_log s" "ps_rotated (goto i ph s) = ps_rotated s"
  "ps_cut (goto i ph s) = ps_cut s"
  by (simp_all add: goto_def)

lemma release_simps [simp]:
  "ps_file (release i s) = ps_file s" "ps_private (release i s) = ps_private s"
  "ps_lock (release i s) = (if ps_lock s = Some i then None else ps_lock s)"
  "ps_proc (release i s) = ps_proc s" "ps_log (release i s) = ps_log s" "ps_rotated (release i s) = ps_rotated s"
  "ps_cut (release i s) = ps_cut s"
  by (simp_all add: release_def)

lemma resume_holding [simp]: "\<not> holding (resume c p)"
  by (cases c) simp_all

text \<open>The lock is held by exactly the process that is between taking and releasing it.\<close>

definition lock_inv :: "pstate \<Rightarrow> bool" where
  "lock_inv s \<longleftrightarrow> (\<forall>i. holding (ps_proc s i) \<longleftrightarrow> ps_lock s = Some i)"

lemma lock_inv_same:
  "lock_inv s \<Longrightarrow> holding (ps_proc s i) = holding ph \<Longrightarrow> ps_lock s' = ps_lock s \<Longrightarrow> ps_proc s' = ps_proc s \<Longrightarrow> lock_inv (goto i ph s')"
  by (simp add: lock_inv_def)

lemma lock_inv_release:
  "lock_inv s \<Longrightarrow> \<not> holding ph \<Longrightarrow> ps_lock s' = ps_lock s \<Longrightarrow> ps_proc s' = ps_proc s \<Longrightarrow> lock_inv (goto i ph (release i s'))"
  by (auto simp: lock_inv_def)

lemma lock_inv_take:
  "lock_inv s \<Longrightarrow> ps_lock s = None \<Longrightarrow> holding ph \<Longrightarrow> lock_inv (goto i ph (s\<lparr>ps_lock := Some i\<rparr>))"
  by (auto simp: lock_inv_def)

lemma lock_inv_step: "personal_step links s s' \<Longrightarrow> lock_inv s \<Longrightarrow> lock_inv s'"
  by (induction rule: personal_step.induct)
     ((erule lock_inv_release; simp; fail) | (erule lock_inv_take; simp; fail) | (erule lock_inv_same; simp; fail))+

subsection \<open>Agreement\<close>

fun has_token :: "content option \<Rightarrow> bool" where
  "has_token (Some (Doc p)) = (p_Token p \<noteq> '''')"
| "has_token _ = False"

text \<open>What a process's phase says about the file, on a file system with hard links.\<close>

fun phase_ok :: "bool \<Rightarrow> string set \<Rightarrow> content option \<Rightarrow> phase \<Rightarrow> bool" where
  "phase_ok rotated log f (Publishing c p) = (p_Token p \<noteq> '''')"
| "phase_ok rotated log f (FallbackWriting c p) = False"
| "phase_ok rotated log f (Locked c j) = (f \<noteq> None)"
| "phase_ok rotated log f (Truncating c j p) = (p_Token p \<noteq> '''' \<and> f \<noteq> None \<and> (j = Backfill \<longrightarrow> \<not> has_token f))"
| "phase_ok rotated log f (Writing c j p) = (p_Token p \<noteq> '''' \<and> f = Some Blank)"
| "phase_ok rotated log f (Wrote c j p) = (p_Token p \<noteq> '''' \<and> p_Token p \<in> log \<and> f = Some (Doc p))"
| "phase_ok rotated log f (Finished c p) = (p_Token p \<noteq> '''' \<and> p_Token p \<in> log \<and> (rotated \<or> f = Some (Doc p)))"
| "phase_ok rotated log f ph = True"

definition agree_inv :: "pstate \<Rightarrow> bool" where
  "agree_inv s \<longleftrightarrow> lock_inv s \<and> (\<forall>p. ps_file s = Some (Doc p) \<longrightarrow> p_Token p \<in> set (ps_log s)) \<and>
     (\<forall>i. phase_ok (ps_rotated s) (set (ps_log s)) (ps_file s) (ps_proc s i))"

lemma decode_Decoded: "decode f = Decoded p \<Longrightarrow> p_Token p \<noteq> '''' \<Longrightarrow> f = Some (Doc p)"
  by (cases f rule: decode.cases) (auto simp: zero_personal_def)

lemma decode_tokenless: "decode f = Decoded p \<Longrightarrow> p_Token p = '''' \<Longrightarrow> \<not> has_token f \<and> f \<noteq> None"
  by (cases f rule: decode.cases) auto

lemma decode_NotExist: "decode f = NotExist \<Longrightarrow> f = None"
  by (cases f rule: decode.cases) auto

lemma decode_exists: "decode f = Decoded p \<Longrightarrow> f \<noteq> None"
  by (cases f) auto

lemma exist_done: "decodeExisting n r = ExistDone x \<Longrightarrow> r = x"
  by (auto simp: decodeExisting_def split: decoded_file.splits if_splits)

lemma back_done_token: "readPublished n retry r = BackDone p \<Longrightarrow> r = Decoded p \<and> p_Token p \<noteq> ''''"
  by (auto simp: readPublished_def Let_def split: decoded_file.splits if_splits)

lemma locked_keep: "locked_job j r token = Keep p \<Longrightarrow> j = Backfill \<and> r = Decoded p \<and> p_Token p \<noteq> ''''"
  by (cases j) (auto simp: ensureToken_def RotateToken_def split: decoded_file.splits if_splits)

lemma locked_rewrite: "locked_job j r token = Rewrite p \<Longrightarrow>
    \<exists>q. r = Decoded q \<and> p = q\<lparr>p_Token := token\<rparr> \<and> (j = Backfill \<longrightarrow> p_Token q = '''')"
  by (cases j) (auto simp: ensureToken_def RotateToken_def split: decoded_file.splits if_splits)

lemma agree_goto:
  assumes "agree_inv s" and "lock_inv (goto i ph s')" and "ps_file s' = ps_file s" "ps_log s' = ps_log s" "ps_rotated s' = ps_rotated s"
    "ps_proc s' = ps_proc s" and "phase_ok (ps_rotated s) (set (ps_log s)) (ps_file s) ph"
  shows "agree_inv (goto i ph s')"
  using assms by (simp add: agree_inv_def)

lemma agree_resume:
  assumes "agree_inv s" and "lock_inv (goto i (resume c p) s')" and "ps_file s' = ps_file s" "ps_log s' = ps_log s" "ps_rotated s' = ps_rotated s"
    "ps_proc s' = ps_proc s" and "decode (ps_file s) = Decoded p" "p_Token p \<noteq> ''''"
  shows "agree_inv (goto i (resume c p) s')"
  using assms(1-6)
proof (rule agree_goto)
  from decode_Decoded[OF assms(7,8)] have "ps_file s = Some (Doc p)" .
  then show "phase_ok (ps_rotated s) (set (ps_log s)) (ps_file s) (resume c p)"
    using assms(1,8) by (cases c) (auto simp: agree_inv_def)
qed

text \<open>The file changes under the lock: nobody else is then between taking and releasing it.\<close>

lemma agree_others:
  assumes "agree_inv s" and "holding (ps_proc s i)" and "k \<noteq> i"
  shows "\<not> holding (ps_proc s k)"
  using assms by (auto simp: agree_inv_def lock_inv_def)

lemma phase_ok_mono:
  assumes "phase_ok r L f ph" and "\<not> holding ph" and "L \<subseteq> L'" and "r \<longrightarrow> r'" and "r' \<or> \<not> has_token f"
  shows "phase_ok r' L' f' ph"
  using assms by (cases ph) auto

lemma agree_writes:
  assumes "agree_inv s" and "lock_inv s'" and "ps_proc s' = (ps_proc s)(i := ph)"
    and "set (ps_log s) \<subseteq> set (ps_log s')" and "ps_rotated s \<longrightarrow> ps_rotated s'"
    and "ps_rotated s' \<or> \<not> has_token (ps_file s)" and "holding (ps_proc s i) \<or> ps_file s = None"
    and "\<forall>p. ps_file s' = Some (Doc p) \<longrightarrow> p_Token p \<in> set (ps_log s')"
    and "phase_ok (ps_rotated s') (set (ps_log s')) (ps_file s') ph"
  shows "agree_inv s'"
proof -
  have "phase_ok (ps_rotated s') (set (ps_log s')) (ps_file s') (ps_proc s k)" if "k \<noteq> i" for k
  proof (rule phase_ok_mono)
    show ok: "phase_ok (ps_rotated s) (set (ps_log s)) (ps_file s) (ps_proc s k)" using assms(1) by (simp add: agree_inv_def)
    show "\<not> holding (ps_proc s k)"
    proof (cases "ps_file s = None")
      case True
      with ok show ?thesis by (cases "ps_proc s k") auto
    qed (use agree_others[OF assms(1) _ that] assms(7) in auto)
  qed (use assms in auto)
  then show ?thesis using assms(2,3,8,9) by (auto simp: agree_inv_def)
qed

lemma agree_step:
  assumes "personal_step True s s'" and "agree_inv s"
  shows "agree_inv s'"
proof -
  have "lock_inv s'" using lock_inv_step[OF assms(1)] assms(2) by (simp add: agree_inv_def)
  from assms(1) this assms(2) show ?thesis
  proof (induction rule: personal_step.induct)
    case (reads_token s i c n p)
    then show ?case by (intro agree_resume) (auto dest!: exist_done)
  next
    case (publishes s i c p f)
    then have f: "ps_file s = None" "f = Some (Doc p)" by (auto simp: publish_def split: option.splits)
    have "p_Token p \<noteq> ''''"
      using publishes(1,4) unfolding agree_inv_def by (metis phase_ok.simps(1))
    then have "phase_ok (ps_rotated s) (insert (p_Token p) (set (ps_log s))) (Some (Doc p)) (resume c p)"
      by (cases c) simp_all
    with publishes f show ?case by - (rule agree_writes[of s _ i "resume c p"], simp_all add: subset_insertI)
  next
    case (opens s i c p f)
    then show ?case by (auto simp: publish_def split: option.splits)
  next
    case (fallback_writes s i c p)
    then show ?case unfolding agree_inv_def by (metis phase_ok.simps(2))
  next
    case (back_done s i c retry n p)
    then show ?case by (intro agree_resume) (auto dest!: back_done_token)
  next
    case (keeps s i c j token p)
    then show ?case by (intro agree_resume) (auto dest!: locked_keep)
  next
    case (mints s i c j token p)
    from locked_rewrite[OF mints(2)] obtain q where q: "decode (ps_file s) = Decoded q" "p = q\<lparr>p_Token := token\<rparr>"
      "j = Backfill \<longrightarrow> p_Token q = ''''" by (elim exE conjE)
    then have "phase_ok (ps_rotated s) (set (ps_log s)) (ps_file s) (Truncating c j p)"
      using mints(3) decode_exists[OF q(1)] decode_tokenless[OF q(1)] by auto
    with mints show ?case by (intro agree_goto) auto
  next
    case (truncates s i c j p)
    then have "phase_ok (ps_rotated s) (set (ps_log s)) (ps_file s) (Truncating c j p)" unfolding agree_inv_def by metis
    with truncates show ?case by - (rule agree_writes[of s _ i "Writing c j p"], simp_all, metis job.exhaust)
  next
    case (writes s i c j p)
    then have "phase_ok (ps_rotated s) (set (ps_log s)) (ps_file s) (Writing c j p)" unfolding agree_inv_def by metis
    with writes show ?case by - (rule agree_writes[of s _ i "Wrote c j p"], simp_all add: subset_insertI)
  next
    case (backfilled s i c p)
    then have "phase_ok (ps_rotated s) (set (ps_log s)) (ps_file s) (Wrote c Backfill p)" unfolding agree_inv_def by metis
    with backfilled show ?case by (intro agree_resume) auto
  next
    case (replaced s i c p)
    then have "phase_ok (ps_rotated s) (set (ps_log s)) (ps_file s) (Wrote c Replace p)" unfolding agree_inv_def by metis
    with replaced show ?case by (intro agree_goto) auto
  qed (auto intro!: agree_goto)
qed

subsection \<open>The other fields\<close>

definition same_fields :: "Personal \<Rightarrow> Personal \<Rightarrow> bool" where
  "same_fields p q \<longleftrightarrow> p_User q = p_User p \<and> p_AWS q = p_AWS p"

text \<open>
  What the processes hold when the file began with the document \<open>p\<close>: nobody creates it anew, and whatever is
  about to be written, was written or was returned has the fields of \<open>p\<close>.
\<close>

fun phase_keeps :: "Personal \<Rightarrow> phase \<Rightarrow> bool" where
  "phase_keeps p (Publishing c q) = False"
| "phase_keeps p (FallbackWriting c q) = False"
| "phase_keeps p (ReadingBack c r n) = False"
| "phase_keeps p (Truncating c j q) = same_fields p q"
| "phase_keeps p (Writing c j q) = same_fields p q"
| "phase_keeps p (Wrote c j q) = same_fields p q"
| "phase_keeps p (Finished c q) = same_fields p q"
| "phase_keeps p ph = True"

fun is_writing :: "phase \<Rightarrow> bool" where
  "is_writing (Writing _ _ _) = True"
| "is_writing _ = False"

definition fields_inv :: "Personal \<Rightarrow> pstate \<Rightarrow> bool" where
  "fields_inv p s \<longleftrightarrow> lock_inv s \<and> (\<forall>i. phase_keeps p (ps_proc s i)) \<and>
     (if \<exists>i. is_writing (ps_proc s i) then ps_file s = Some Blank else \<exists>q. ps_file s = Some (Doc q) \<and> same_fields p q)"

lemma phase_keeps_resume: "same_fields p q \<Longrightarrow> phase_keeps p (resume c q)"
  by (cases c) simp_all

lemma fields_goto:
  assumes "fields_inv p s" and "lock_inv (goto i ph s')" and "ps_file s' = ps_file s" "ps_proc s' = ps_proc s"
    and "\<not> is_writing (ps_proc s i)" "\<not> is_writing ph" "phase_keeps p ph"
  shows "fields_inv p (goto i ph s')"
proof -
  have "(\<exists>k. is_writing (((ps_proc s)(i := ph)) k)) = (\<exists>k. is_writing (ps_proc s k))"
    using assms(5,6) by auto
  with assms show ?thesis by (auto simp: fields_inv_def)
qed

text \<open>What a process reads at a moment when nobody writes, or when it holds the lock itself.\<close>

lemma fields_read:
  assumes "fields_inv p s" and "decode (ps_file s) = Decoded q" and "holding (ps_proc s i) \<and> \<not> is_writing (ps_proc s i) \<or> p_Token q \<noteq> ''''"
  shows "same_fields p q"
proof -
  have "\<not> (\<exists>k. is_writing (ps_proc s k))"
  proof
    assume w: "\<exists>k. is_writing (ps_proc s k)"
    then obtain k where k: "is_writing (ps_proc s k)" ..
    with assms(1) have "ps_file s = Some Blank" by (auto simp: fields_inv_def split: if_splits)
    with assms(2) have "p_Token q = ''''" by (auto simp: zero_personal_def)
    with assms(3) have "holding (ps_proc s i)" "i \<noteq> k" using k by auto
    moreover have "holding (ps_proc s k)" using k by (cases "ps_proc s k") auto
    ultimately show False using assms(1) by (auto simp: fields_inv_def lock_inv_def)
  qed
  with assms(1,2) show ?thesis by (auto simp: fields_inv_def split: if_splits)
qed

lemma fields_only_writer:
  assumes "fields_inv p s" and "holding (ps_proc s i)" and "k \<noteq> i"
  shows "\<not> is_writing (ps_proc s k)"
  using assms by (cases "ps_proc s k") (auto simp: fields_inv_def lock_inv_def)

lemma fields_exists: "fields_inv p s \<Longrightarrow> ps_file s \<noteq> None"
  by (auto simp: fields_inv_def split: if_splits)

lemma fields_phase: "fields_inv p s \<Longrightarrow> ps_proc s i = ph \<Longrightarrow> phase_keeps p ph"
  by (auto simp: fields_inv_def)

lemma is_writing_resume [simp]: "\<not> is_writing (resume c q)"
  by (cases c) simp_all

lemma not_mid_write: "\<not> mid_write ph \<Longrightarrow> \<not> is_writing ph"
  by (cases ph) auto

lemma fields_step:
  assumes "personal_step links s s'" and "fields_inv p s" and "\<not> ps_cut s'"
  shows "fields_inv p s'"
proof -
  have "lock_inv s'" using lock_inv_step[OF assms(1)] assms(2) by (simp add: fields_inv_def)
  from assms(1) this assms(2,3) show ?thesis
  proof (induction rule: personal_step.induct)
    case (reads_token s i c n q)
    then have "same_fields p q" by (intro fields_read[of p s q i]) (auto dest!: exist_done)
    with reads_token show ?case by (intro fields_goto) (auto simp: phase_keeps_resume)
  next
    case (reads_missing s i c n token)
    then show ?case using fields_exists[of p s] by (cases "ps_file s" rule: decode.cases) (auto dest!: exist_done)
  next
    case (keeps s i c j token q)
    then have "same_fields p q" by (intro fields_read[of p s q i]) (auto dest!: locked_keep)
    with keeps show ?case by (intro fields_goto) (auto simp: phase_keeps_resume)
  next
    case (mints s i c j token q)
    from locked_rewrite[OF mints(2)] obtain r where r: "decode (ps_file s) = Decoded r" "q = r\<lparr>p_Token := token\<rparr>"
      by (elim exE conjE)
    have "same_fields p r" by (rule fields_read[OF mints(5) r(1), of i]) (simp add: mints(1))
    with r(2) have "same_fields p q" by (simp add: same_fields_def)
    with mints show ?case by (intro fields_goto) auto
  next
    case (truncates s i c j q)
    then have "same_fields p q" by (auto dest: fields_phase)
    with truncates show ?case by (auto simp: fields_inv_def)
  next
    case (writes s i c j q)
    then have "same_fields p q" by (auto dest: fields_phase)
    moreover have "\<not> is_writing (ps_proc s k)" if "k \<noteq> i" for k
      using fields_only_writer[OF writes(3) _ that] writes(1) by simp
    ultimately show ?case using writes by (auto simp: fields_inv_def)
  next
    case (backfilled s i c q)
    then have "same_fields p q" by (auto dest: fields_phase)
    with backfilled show ?case by (intro fields_goto) (auto simp: phase_keeps_resume)
  next
    case (replaced s i c q)
    then have "same_fields p q" by (auto dest: fields_phase)
    with replaced show ?case by (intro fields_goto) auto
  next
    case (fails s i)
    then show ?case by (intro fields_goto) (auto dest: not_mid_write)
  qed (auto intro!: fields_goto dest: fields_phase)
qed

subsection \<open>Reachable states\<close>

lemma personal_reachable_agree: "personal_reachable True f prv s \<Longrightarrow> agree_inv s"
proof (induction rule: personal_reachable.induct)
  case personal_init
  show ?case by (auto simp: agree_inv_def lock_inv_def personal_start_def split: content.splits option.splits)
qed (rule agree_step)

lemma cut_stays: "personal_step links s s' \<Longrightarrow> ps_cut s \<Longrightarrow> ps_cut s'"
  by (induction rule: personal_step.induct) auto

lemma personal_reachable_fields:
  "personal_reachable links (Some (Doc p)) prv s \<Longrightarrow> \<not> ps_cut s \<Longrightarrow> fields_inv p s"
proof (induction rule: personal_reachable.induct)
  case personal_init
  show ?case by (auto simp: fields_inv_def lock_inv_def personal_start_def same_fields_def)
next
  case (personal_next s s')
  then show ?case using fields_step cut_stays by blast
qed

lemma private_stays: "personal_step links s s' \<Longrightarrow> ps_private s \<Longrightarrow> ps_private s'"
  by (induction rule: personal_step.induct) auto

lemma rotated_private_step:
  "personal_step links s s' \<Longrightarrow> (\<forall>i u p. ps_proc s i = Finished (Rotate u) p \<longrightarrow> ps_private s) \<Longrightarrow>
   (\<forall>i u p. ps_proc s' i = Finished (Rotate u) p \<longrightarrow> ps_private s')"
proof (induction rule: personal_step.induct)
  case (backfilled s i c p)
  then show ?case by (cases c) auto
next
  case (back_done s i c retry n p)
  then show ?case by (cases c) auto
next
  case (reads_token s i c n p)
  then show ?case by (cases c) auto
next
  case (keeps s i c j token p)
  then show ?case by (cases c) auto
next
  case (fallback_writes s i c p)
  then show ?case by (cases c) auto
qed auto

text \<open>C7: However many runs create, fill in or rotate the personal file at the same time, on a file system
  with hard links: the token a run returns has been on disk, and as long as nobody rotates, all runs return one
  and the same document, which is the one on disk, so an existing token is never replaced; a rotation leaves the
  file readable by its owner only; and unless a process dies between truncating and writing, the user and the
  AWS block of an existing file stay as they were, on disk and in every answer.\<close>

theorem personal_file_agreement:
  assumes "personal_reachable True f prv s" and "ps_proc s i = Finished c p"
  shows "p_Token p \<noteq> '''' \<and> p_Token p \<in> set (ps_log s) \<and>
    (\<not> ps_rotated s \<longrightarrow> ps_file s = Some (Doc p)) \<and>
    (\<forall>u. c = Rotate u \<longrightarrow> ps_private s) \<and>
    (\<forall>q. f = Some (Doc q) \<and> \<not> ps_cut s \<longrightarrow> p_User p = p_User q \<and> p_AWS p = p_AWS q \<and>
       (\<forall>r. ps_file s = Some (Doc r) \<longrightarrow> p_User r = p_User q \<and> p_AWS r = p_AWS q))"
proof -
  have ok: "phase_ok (ps_rotated s) (set (ps_log s)) (ps_file s) (Finished c p)"
    using personal_reachable_agree[OF assms(1)] assms(2) by (metis agree_inv_def)
  have rot: "\<forall>i u p. ps_proc s i = Finished (Rotate u) p \<longrightarrow> ps_private s"
    using assms(1)
  proof (induction rule: personal_reachable.induct)
    case (personal_next s s')
    then show ?case using rotated_private_step by blast
  qed (simp add: personal_start_def)
  have same: "same_fields q p \<and> (\<forall>r. ps_file s = Some (Doc r) \<longrightarrow> same_fields q r)" if "f = Some (Doc q) \<and> \<not> ps_cut s" for q
  proof -
    have inv: "fields_inv q s" using personal_reachable_fields[of True q prv s] that assms(1) by simp
    with fields_phase[OF inv assms(2)] show ?thesis by (auto simp: fields_inv_def split: if_splits)
  qed
  show ?thesis
  proof (intro conjI allI impI)
    show "p_Token p \<noteq> ''''" "p_Token p \<in> set (ps_log s)" using ok by simp_all
    show "ps_file s = Some (Doc p)" if "\<not> ps_rotated s" using ok that by simp
    show "ps_private s" if "c = Rotate u" for u using rot assms(2) that by blast
  next
    fix q assume "f = Some (Doc q) \<and> \<not> ps_cut s"
    note s = same[OF this, unfolded same_fields_def]
    then show "p_User p = p_User q" "p_AWS p = p_AWS q" by blast+
    fix r assume "ps_file s = Some (Doc r)"
    with s show "p_User r = p_User q" "p_AWS r = p_AWS q" by blast+
  qed
qed

definition amy_personal :: Personal where
  "amy_personal = \<lparr>p_User = ''amy'', p_Token = ''old'', p_AWS = zero_aws\<rparr>"

definition amy_ensured :: pstate where
  "amy_ensured = goto 0 (Finished (Ensure ''bob'') amy_personal) (goto 0 (Reading (Ensure ''bob'') 0) (personal_start (Some (Doc amy_personal)) True))"

lemma amy_ensured_reachable: "personal_reachable True (Some (Doc amy_personal)) True amy_ensured"
proof -
  let ?s0 = "personal_start (Some (Doc amy_personal)) True" and ?s1 = "goto 0 (Reading (Ensure ''bob'') 0) (personal_start (Some (Doc amy_personal)) True)"
  have "personal_step True ?s0 ?s1" by (rule personal_step.begins) (simp add: personal_start_def)
  then have "personal_reachable True (Some (Doc amy_personal)) True ?s1"
    by (rule personal_next[OF personal_init])
  moreover have "personal_step True ?s1 (goto 0 (resume (Ensure ''bob'') amy_personal) ?s1)"
    by (rule personal_step.reads_token[where n = 0])
       (simp_all add: personal_start_def decodeExisting_def amy_personal_def)
  ultimately show ?thesis unfolding amy_ensured_def by (simp add: personal_next)
qed

theorem personal_file_agreement_witness:
  "ps_file amy_ensured = Some (Doc amy_personal) \<and> p_Token amy_personal \<in> set (ps_log amy_ensured)"
proof -
  have r: "ps_proc amy_ensured 0 = Finished (Ensure ''bob'') amy_personal" and n: "\<not> ps_rotated amy_ensured"
    by (simp_all add: amy_ensured_def personal_start_def)
  from personal_file_agreement[OF amy_ensured_reachable r] n show ?thesis by blast
qed

text \<open>
  A rotation is visible half done: between its truncation and its write the file decodes to a document without
  user and token. \<^verbatim>\<open>EnsurePersonal\<close> waits such a moment out under the lock, but \<^verbatim>\<open>Load\<close>, which
  \<^verbatim>\<open>applyConfig\<close> calls next, takes no lock and does not retry; and a process that dies there leaves the file
  so.
\<close>

lemma rotation_shows_an_empty_file:
  "\<exists>s s'. personal_reachable True (Some (Doc amy_personal)) True s \<and> decode (ps_file s) = Decoded zero_personal \<and>
     personal_step True s s' \<and> ps_file s' = Some Blank \<and> ps_lock s' = None"
proof -
  let ?f = "Some (Doc amy_personal)" and ?c = "Rotate ''amy''"
  let ?s0 = "personal_start ?f True"
  let ?s1 = "goto 0 (Reading ?c 0) ?s0"
  let ?s2 = "goto 0 (resume ?c amy_personal) ?s1"
  let ?s3 = "goto 0 (Locked ?c Replace) (?s2\<lparr>ps_lock := Some 0\<rparr>)"
  let ?p = "amy_personal\<lparr>p_Token := ''new''\<rparr>"
  let ?s4 = "goto 0 (Truncating ?c Replace ?p) ?s3"
  let ?s5 = "goto 0 (Writing ?c Replace ?p) (?s4\<lparr>ps_file := Some Blank, ps_rotated := ps_rotated ?s4 \<or> Replace = Replace\<rparr>)"
  let ?s6 = "goto 0 CallFailed (release 0 (?s5\<lparr>ps_cut := True\<rparr>))"
  have "personal_reachable True ?f True ?s1"
    by (intro personal_next[OF personal_init] personal_step.begins) (simp add: personal_start_def)
  then have "personal_reachable True ?f True ?s2"
    by (rule personal_next) (rule personal_step.reads_token[where n = 0], simp_all add: personal_start_def decodeExisting_def amy_personal_def)
  then have "personal_reachable True ?f True ?s3"
    by (rule personal_next) (rule personal_step.locks, simp_all add: personal_start_def)
  then have "personal_reachable True ?f True ?s4"
    by (rule personal_next) (rule personal_step.mints[where token = "''new''"], simp_all add: personal_start_def RotateToken_def)
  then have "personal_reachable True ?f True ?s5"
    by (rule personal_next) (rule personal_step.truncates, simp)
  moreover have "personal_step True ?s5 ?s6" by (rule personal_step.is_cut) simp
  ultimately show ?thesis by (intro exI[of _ ?s5] exI[of _ ?s6]) (simp add: personal_start_def)
qed

end
