(* ===== verification/CliConfig.thy ===== *)
theory CliConfig
  imports RunFlow PersonalFile AgentEnv "HOL-Library.Monad_Syntax"
begin

text \<open>
  The command tree (\<^verbatim>\<open>internal/cli/root.go\<close>, \<^verbatim>\<open>cmd/tetherd/main.go\<close>) and how its flags meet the two
  configuration files (\<^verbatim>\<open>internal/cli/config.go\<close>), \<^verbatim>\<open>tetherd token rotate\<close>
  (\<^verbatim>\<open>token.go\<close>), and the setgid shim the child is started through (\<^verbatim>\<open>cmd/tetherd-exec/main.go\<close>).
  A guard on a flag a command does not register panics, which is \<open>None\<close> of the option monad.
\<close>

section \<open>Commands and their flags\<close>

record command =
  cm_flags :: "string list" \<comment> \<open>registered\<close>
  cm_set :: "string list" \<comment> \<open>given on the command line\<close>

definition changed :: "command \<Rightarrow> string \<Rightarrow> bool option" where
  "changed cmd name = (if name \<notin> set (cm_flags cmd) then None else Some (name \<in> set (cm_set cmd)))"

definition addTargetFlags :: "string list" where
  "addTargetFlags = [''transport'', ''profile'', ''region'', ''cluster'', ''service'', ''task'', ''env'', ''agent-addr'',
     ''user'', ''config'']"

definition newRunCommand :: "string list \<Rightarrow> command" where
  "newRunCommand given = \<lparr>cm_flags = addTargetFlags @ [''remote-cidr'', ''helper-socket'', ''exec-path'', ''no-network'',
     ''no-env'', ''no-incoming'', ''local-port'', ''as''], cm_set = given\<rparr>"

definition newEnvCommand :: "string list \<Rightarrow> command" where
  "newEnvCommand given = \<lparr>cm_flags = addTargetFlags @ [''format'', ''reveal''], cm_set = given\<rparr>"

definition newDoctorCommand :: "string list \<Rightarrow> command" where
  "newDoctorCommand given = \<lparr>cm_flags = addTargetFlags @ [''remote-cidr'', ''helper-socket'', ''exec-path'', ''skip-agent'',
     ''timeout'', ''budget''], cm_set = given\<rparr>"

definition newStatusCommand :: "string list \<Rightarrow> command" where
  "newStatusCommand given = \<lparr>cm_flags = addTargetFlags, cm_set = given\<rparr>"

section \<open>Applying the configuration\<close>

text \<open>Both loops of \<^verbatim>\<open>unionStrings\<close>, over the set of values seen.\<close>

fun add_unseen :: "string list \<Rightarrow> string list \<times> string list \<Rightarrow> string list \<times> string list" where
  "add_unseen [] acc = acc"
| "add_unseen (v # vs) (seen, out) = (if v \<notin> set seen then add_unseen vs (v # seen, out @ [v]) else add_unseen vs (seen, out))"

definition unionStrings :: "string list \<Rightarrow> string list \<Rightarrow> string list" where
  "unionStrings base extra =
     (if length base = 0 \<and> length extra = 0 then [] else snd (add_unseen extra (add_unseen base ([], []))))"

text \<open>The local function \<^verbatim>\<open>set\<close>: a flag that was given keeps its value, otherwise the first value that is not empty.\<close>

definition set_unless :: "command \<Rightarrow> string \<Rightarrow> string \<Rightarrow> string list \<Rightarrow> string option" where
  "set_unless cmd flag dst values =
     do { given \<leftarrow> changed cmd flag;
          Some (if given then dst else case find (\<lambda>v. v \<noteq> '''') values of Some v \<Rightarrow> v | None \<Rightarrow> dst) }"

definition merge_config :: "command \<Rightarrow> string \<Rightarrow> Config \<Rightarrow> RunOptions \<Rightarrow> RunOptions option" where
  "merge_config cmd envUser cfg opts =
     (let s = cf_Shared cfg; p = cf_Personal cfg in
      do { given \<leftarrow> changed cmd ''user'';
           let user = (if given then o_User opts else if p_User p = '''' then envUser else p_User p);
           profile \<leftarrow> set_unless cmd ''profile'' (o_Profile opts) [aws_Profile (p_AWS p), aws_Profile (sh_AWS s)];
           region \<leftarrow> set_unless cmd ''region'' (o_Region opts) [aws_Region (p_AWS p), aws_Region (sh_AWS s)];
           cluster \<leftarrow> set_unless cmd ''cluster'' (o_Cluster opts) [tc_Cluster (sh_Target s)];
           service \<leftarrow> set_unless cmd ''service'' (o_Service opts) [tc_Service (sh_Target s)];
           target \<leftarrow> set_unless cmd ''env'' (o_TargetEnv opts) [tc_Env (sh_Target s)];
           Some (opts\<lparr>o_User := user, o_Profile := profile, o_Region := region, o_Cluster := cluster, o_Service := service,
             o_TargetEnv := target, o_RemoteCIDRs := unionStrings (nw_RemoteCIDRs (sh_Network s)) (o_RemoteCIDRs opts),
             o_AgentContainer := tc_AgentContainer (sh_Target s), o_LocalCIDRs := nw_LocalCIDRs (sh_Network s),
             o_RemoteServices := nw_RemoteServices (sh_Network s), o_RemoteDomains := nw_RemoteDomains (sh_Network s),
             o_PinCredentialRoute := nw_PinCredentialRoute (sh_Network s), o_EnvOverride := ec_Override (sh_Env s),
             o_EnvExclude := ec_Exclude (sh_Env s),
             o_ConfigPath := (if cf_SharedPath cfg \<noteq> '''' then cf_SharedPath cfg else o_ConfigPath opts)\<rparr>) })"

text \<open>
  What \<^verbatim>\<open>applyConfig\<close> meets: the working directory, what exists on the way up, \<^verbatim>\<open>os.Stat\<close> of an
  explicit \<^verbatim>\<open>--config\<close>, the home directory, the files, \<^verbatim>\<open>$USER\<close>, the token it would mint and
  what \<^verbatim>\<open>Load\<close> reads of the personal file afterwards.
\<close>

record config_world =
  cw_wd :: "string + string list option"
  cw_exists :: "string list \<Rightarrow> bool"
  cw_stat_config :: "string option"
  cw_personal_path :: "string + string"
  cw_yaml :: yaml_lib
  cw_read :: "string \<Rightarrow> file_read"
  cw_USER :: string
  cw_token :: string
  cw_links :: bool

datatype 'a outcome = Panics | Fails config_error | Returns 'a

definition path_text :: "string list \<Rightarrow> string" where
  "path_text p = concat (map (\<lambda>c. CHR ''/'' # c) p)"

text \<open>\<^verbatim>\<open>EnsurePersonal\<close> when nothing else touches the file: its answer and the file afterwards.\<close>

definition EnsurePersonal :: "bool \<Rightarrow> content option \<Rightarrow> string \<Rightarrow> string \<Rightarrow> (config_error + Personal \<times> bool) \<times> content option" where
  "EnsurePersonal links file user token =
     (case decode file of
        DecodeFails e \<Rightarrow> (Inl e, file)
      | Decoded p \<Rightarrow>
          if p_Token p \<noteq> '''' then (Inr (p, False), file)
          else (case ensureToken (decode file) token of
                  Keep q \<Rightarrow> (Inr (q, False), file)
                | Rewrite q \<Rightarrow> (Inr (q, False), Some (Doc q))
                | LockedFails \<Rightarrow> (Inl (ReadFailed ''cannot read the locked file''), file))
      | NotExist \<Rightarrow>
          let p = \<lparr>p_User = user, p_Token = token, p_AWS = zero_aws\<rparr> in
          (case publish links file p of
             (f, Won) \<Rightarrow> (Inr (p, True), f)
           | (f, FallbackOpened) \<Rightarrow> (Inr (p, True), Some (Doc p))
           | (f, Lost _) \<Rightarrow> (Inl (ReadFailed ''lost to a concurrent run''), f)))"

text \<open>\<^verbatim>\<open>Load\<close> with what the personal file decodes to.\<close>

definition load_with :: "yaml_lib \<Rightarrow> (string \<Rightarrow> file_read) \<Rightarrow> string \<Rightarrow> Personal decoded_file \<Rightarrow> config_error + Config" where
  "load_with y read sharedPath personal =
     (case Load y read sharedPath '''' of
        Inl e \<Rightarrow> Inl e
      | Inr cfg \<Rightarrow>
          (case personal of
             DecodeFails e \<Rightarrow> Inl e
           | NotExist \<Rightarrow> Inr cfg
           | Decoded p \<Rightarrow> Inr (cfg\<lparr>cf_Personal := p\<rparr>)))"

definition shared_path :: "config_world \<Rightarrow> string \<Rightarrow> config_error + string" where
  "shared_path w configPath =
     (if configPath = '''' then
        (case cw_wd w of
           Inl e \<Rightarrow> Inl (ReadFailed e)
         | Inr wd \<Rightarrow> Inr (case Find (cw_exists w) wd of Some p \<Rightarrow> path_text p | None \<Rightarrow> ''''))
      else case cw_stat_config w of
        Some e \<Rightarrow> Inl (ReadFailed e)
      | None \<Rightarrow> Inr configPath)"

definition applyConfig ::
  "config_world \<Rightarrow> command \<Rightarrow> string \<Rightarrow> content option \<Rightarrow> RunOptions \<Rightarrow> (Config \<times> RunOptions) outcome \<times> content option" where
  "applyConfig w cmd configPath file opts =
     (case shared_path w configPath of
        Inl e \<Rightarrow> (Fails e, file)
      | Inr shared \<Rightarrow>
          (case cw_personal_path w of
             Inl e \<Rightarrow> (Fails (ReadFailed e), file)
           | Inr _ \<Rightarrow>
               (case changed cmd ''user'' of
                  None \<Rightarrow> (Panics, file)
                | Some given \<Rightarrow>
                    let seedUser = (if given then o_User opts else cw_USER w) in
                    (case EnsurePersonal (cw_links w) file seedUser (cw_token w) of
                       (Inl e, file') \<Rightarrow> (Fails e, file')
                     | (Inr _, file') \<Rightarrow>
                         (case load_with (cw_yaml w) (cw_read w) shared (decode file') of
                            Inl e \<Rightarrow> (Fails e, file')
                          | Inr cfg \<Rightarrow>
                              (case merge_config cmd (cw_USER w) cfg opts of
                                 None \<Rightarrow> (Panics, file')
                               | Some opts' \<Rightarrow> (Returns (cfg, opts'), file')))))))"

definition applySharedIncoming :: "Config \<Rightarrow> RunOptions \<Rightarrow> RunOptions" where
  "applySharedIncoming cfg opts =
     opts\<lparr>o_MatchHeader := mc_Header (ic_Match (sh_Incoming (cf_Shared cfg))),
          o_MatchTokenHeader := mc_TokenHeader (ic_Match (sh_Incoming (cf_Shared cfg))),
          o_Token := p_Token (cf_Personal cfg)\<rparr>"

definition applyIncomingPort :: "command \<Rightarrow> Config \<Rightarrow> RunOptions \<Rightarrow> RunOptions option" where
  "applyIncomingPort cmd cfg opts =
     (if ''local-port'' \<in> set (cm_flags cmd) then None
      else Some (opts\<lparr>o_LocalPort := ic_LocalPort (sh_Incoming (cf_Shared cfg))\<rparr>))"

definition applyIncoming :: "command \<Rightarrow> Config \<Rightarrow> RunOptions \<Rightarrow> RunOptions option" where
  "applyIncoming cmd cfg opts0 =
     (let opts = applySharedIncoming cfg opts0 in
      do { port \<leftarrow> changed cmd ''local-port'';
           let opts1 = (if port then opts else opts\<lparr>o_LocalPort := ic_LocalPort (sh_Incoming (cf_Shared cfg))\<rparr>);
           as \<leftarrow> changed cmd ''as'';
           Some (if as then opts1\<lparr>o_User := o_As opts1\<rparr> else opts1) })"

section \<open>Running a command\<close>

datatype exit_error =
    ExitError int "cli_error option" bool \<comment> \<open>code, error, whether the code is already explained (\<^verbatim>\<open>child\<close>)\<close>
  | OtherError config_error

definition ExitCode :: "exit_error option \<Rightarrow> int" where
  "ExitCode e = (case e of None \<Rightarrow> 0 | Some (ExitError code _ _) \<Rightarrow> code | Some (OtherError _) \<Rightarrow> 2)"

definition IsChildExit :: "exit_error option \<Rightarrow> bool" where
  "IsChildExit e = (case e of Some (ExitError _ _ child) \<Rightarrow> child | _ \<Rightarrow> False)"

definition command_error :: "int \<times> cli_error option \<Rightarrow> exit_error option" where
  "command_error r =
     (case r of
        (code, Some e) \<Rightarrow> Some (ExitError (if code = 0 then 1 else code) (Some e) False)
      | (code, None) \<Rightarrow> if code \<noteq> 0 then Some (ExitError code None True) else None)"

text \<open>
  \<^verbatim>\<open>tetherd run\<close>: the error its \<^verbatim>\<open>RunE\<close> returns (\<open>Panics\<close> for a panic) and what it did to the machine.
\<close>

definition run_RunE ::
  "config_world \<Rightarrow> run_world \<Rightarrow> string list \<Rightarrow> string \<Rightarrow> content option \<Rightarrow> string list \<Rightarrow> RunOptions \<Rightarrow>
   exit_error option outcome \<times> effect list" where
  "run_RunE w rw given configPath file args opts =
     (case fst (applyConfig w (newRunCommand given) configPath file (opts\<lparr>o_Command := args\<rparr>)) of
        Panics \<Rightarrow> (Panics, [])
      | Fails e \<Rightarrow> (Returns (Some (OtherError e)), [])
      | Returns (cfg, opts1) \<Rightarrow>
          (case applyIncoming (newRunCommand given) cfg opts1 of
             None \<Rightarrow> (Panics, [])
           | Some opts2 \<Rightarrow>
               (case RunWithDeps rw opts2 of (r, trace) \<Rightarrow> (Returns (command_error r), trace))))"

text \<open>
  The other commands, over what \<^verbatim>\<open>envFn\<close>, \<^verbatim>\<open>doctorFn\<close> and \<^verbatim>\<open>statusFn\<close> answer. Doctor's two
  bounds reach it as zero unless they were given.
\<close>

definition env_RunE ::
  "config_world \<Rightarrow> (RunOptions \<Rightarrow> int \<times> cli_error option) \<Rightarrow> string list \<Rightarrow> string \<Rightarrow> content option \<Rightarrow> RunOptions \<Rightarrow>
   exit_error option outcome" where
  "env_RunE w envFn given configPath file opts =
     (case fst (applyConfig w (newEnvCommand given) configPath file opts) of
        Panics \<Rightarrow> Panics
      | Fails e \<Rightarrow> Returns (Some (OtherError e))
      | Returns (_, opts1) \<Rightarrow>
          (case envFn opts1 of
             (code, Some e) \<Rightarrow> Returns (Some (ExitError (if code = 0 then 1 else code) (Some e) False))
           | (_, None) \<Rightarrow> Returns None))"

definition doctor_RunE ::
  "config_world \<Rightarrow> (RunOptions \<Rightarrow> int \<Rightarrow> int \<Rightarrow> int \<times> cli_error option) \<Rightarrow> string list \<Rightarrow> string \<Rightarrow> content option \<Rightarrow> RunOptions \<Rightarrow>
   int \<Rightarrow> int \<Rightarrow> exit_error option outcome" where
  "doctor_RunE w doctorFn given configPath file opts timeout budget =
     (let cmd = newDoctorCommand given in
      case fst (applyConfig w cmd configPath file opts) of
        Panics \<Rightarrow> Panics
      | Fails e \<Rightarrow> Returns (Some (OtherError e))
      | Returns (cfg, opts1) \<Rightarrow>
          (case do { opts2 \<leftarrow> applyIncomingPort cmd cfg (applySharedIncoming cfg opts1);
                     t \<leftarrow> changed cmd ''timeout'';
                     b \<leftarrow> changed cmd ''budget'';
                     Some (doctorFn opts2 (if t then timeout else 0) (if b then budget else 0)) } of
             None \<Rightarrow> Panics
           | Some (code, Some e) \<Rightarrow> Returns (Some (ExitError (if code = 0 then 1 else code) (Some e) False))
           | Some (code, None) \<Rightarrow> Returns (if code \<noteq> 0 then Some (ExitError 1 None True) else None)))"

definition status_RunE ::
  "config_world \<Rightarrow> (RunOptions \<Rightarrow> int \<times> cli_error option) \<Rightarrow> string list \<Rightarrow> string \<Rightarrow> content option \<Rightarrow> RunOptions \<Rightarrow>
   exit_error option outcome" where
  "status_RunE w statusFn given configPath file opts =
     (case fst (applyConfig w (newStatusCommand given) configPath file opts) of
        Panics \<Rightarrow> Panics
      | Fails e \<Rightarrow> Returns (Some (OtherError e))
      | Returns (_, opts1) \<Rightarrow> Returns (command_error (statusFn opts1)))"

text \<open>\<^verbatim>\<open>main\<close> of \<^verbatim>\<open>tetherd\<close>: the exit status and whether it prints the error.\<close>

definition tetherd_main :: "exit_error option \<Rightarrow> int \<times> bool" where
  "tetherd_main err = (if err = None then (0, False) else (ExitCode err, \<not> IsChildExit err))"

section \<open>Rotating the token\<close>

text \<open>
  \<^verbatim>\<open>TokenRotate\<close> when nothing else touches the file: the user and the token it reports, and the file.
\<close>

definition TokenRotate ::
  "bool \<Rightarrow> content option \<Rightarrow> string \<Rightarrow> string \<Rightarrow> string \<Rightarrow> (config_error + string \<times> string) \<times> content option" where
  "TokenRotate links file user token1 token2 =
     (case EnsurePersonal links file user token1 of
        (Inl e, f) \<Rightarrow> (Inl e, f)
      | (Inr _, f) \<Rightarrow>
          (case RotateToken (decode f) token2 of
             Rewrite p \<Rightarrow> (Inr (p_User p, p_Token p), Some (Doc p))
           | _ \<Rightarrow> (Inl (ReadFailed ''cannot read the locked file''), f)))"

section \<open>The setgid shim\<close>

datatype shim = ShimVersion | ShimExits int | ShimExecs string "string list" \<comment> \<open>path and arguments\<close>

definition tetherd_exec ::
  "nat \<Rightarrow> nat \<Rightarrow> string option \<Rightarrow> (string \<Rightarrow> string option) \<Rightarrow> (string \<Rightarrow> string option) \<Rightarrow> string list \<Rightarrow> shim" where
  "tetherd_exec egid gid setregid lookPath execErr args0 =
     (if 0 < length args0 \<and> hd args0 = ''version'' then ShimVersion
      else
        let args = (if 0 < length args0 \<and> hd args0 = ''--'' then tl args0 else args0) in
        if length args = 0 then ShimExits 2
        else if egid = gid then ShimExits 3
        else if setregid \<noteq> None then ShimExits 3
        else (case lookPath (hd args) of
                None \<Rightarrow> ShimExits 127
              | Some path \<Rightarrow> if execErr path \<noteq> None then ShimExits 126 else ShimExecs path args))"

section \<open>Lemmas\<close>

lemma shim_runs_the_command:
  assumes "\<not> o_NoNetwork opts" and "o_Command opts = c # cs" and "egid \<noteq> gid" and "lookPath c = Some path" and "execErr path = None"
  shows "tetherd_exec egid gid None lookPath execErr (tl (child_argv opts)) = ShimExecs path (o_Command opts)"
  using assms by (simp add: tetherd_exec_def child_argv_def)

lemma add_unseen_firsts:
  assumes "set seen = set (firsts xs)" and "out = firsts xs"
  shows "snd (add_unseen vs (seen, out)) = firsts (xs @ vs) \<and> set (fst (add_unseen vs (seen, out))) = set (xs @ vs)"
  using assms
proof (induction vs arbitrary: seen out xs)
  case (Cons v vs)
  show ?case
  proof (cases "v \<in> set xs")
    case True
    then have "firsts (xs @ [v]) = firsts xs" by (simp add: firsts_snoc)
    with True Cons.prems Cons.IH[of seen "xs @ [v]" out] show ?thesis by simp
  next
    case False
    then have "firsts (xs @ [v]) = firsts xs @ [v]" by (simp add: firsts_snoc)
    with False Cons.prems Cons.IH[of "v # seen" "xs @ [v]" "out @ [v]"] show ?thesis by simp
  qed
qed simp

lemma unionStrings_firsts: "unionStrings base extra = firsts (base @ extra)"
proof -
  obtain seen out where b: "add_unseen base ([], []) = (seen, out)" by fastforce
  have "out = firsts base" "set seen = set base"
    using add_unseen_firsts[of "[]" "[]" "[]" base] b by (simp_all add: firsts_def)
  then have "snd (add_unseen extra (seen, out)) = firsts (base @ extra)"
    using add_unseen_firsts[of seen base out extra] by simp
  with b show ?thesis by (auto simp: unionStrings_def firsts_def)
qed

lemma changed_target:
  "n \<in> set addTargetFlags \<Longrightarrow> set addTargetFlags \<subseteq> set (cm_flags cmd) \<Longrightarrow> changed cmd n = Some (n \<in> set (cm_set cmd))"
  by (auto simp: changed_def)

lemma target_flag_names:
  "''user'' \<in> set addTargetFlags" "''profile'' \<in> set addTargetFlags" "''region'' \<in> set addTargetFlags"
  "''cluster'' \<in> set addTargetFlags" "''service'' \<in> set addTargetFlags" "''env'' \<in> set addTargetFlags"
  by (simp_all add: addTargetFlags_def)

lemma applyConfig_never_panics:
  assumes "set addTargetFlags \<subseteq> set (cm_flags cmd)"
  shows "fst (applyConfig w cmd configPath file opts) \<noteq> Panics"
proof -
  have m: "merge_config cmd u cfg opts = None \<longleftrightarrow> False" for u cfg
    using target_flag_names[THEN changed_target[OF _ assms]] by (simp add: merge_config_def set_unless_def Let_def)
  show ?thesis
    using changed_target[OF target_flag_names(1) assms]
    by (auto simp: applyConfig_def Let_def m split: sum.splits option.splits prod.splits)
qed

lemma commands_never_panic:
  "env_RunE w envFn given configPath file opts \<noteq> Panics"
  "doctor_RunE w doctorFn given configPath file opts timeout budget \<noteq> Panics"
  "status_RunE w statusFn given configPath file opts \<noteq> Panics"
proof -
  have "set addTargetFlags \<subseteq> set (cm_flags (newEnvCommand given))" "set addTargetFlags \<subseteq> set (cm_flags (newDoctorCommand given))"
    "set addTargetFlags \<subseteq> set (cm_flags (newStatusCommand given))"
    by (auto simp: newEnvCommand_def newDoctorCommand_def newStatusCommand_def)
  note np = this[THEN applyConfig_never_panics]
  show "env_RunE w envFn given configPath file opts \<noteq> Panics"
    using np(1) by (auto simp: env_RunE_def split: outcome.splits prod.splits option.splits)
  show "status_RunE w statusFn given configPath file opts \<noteq> Panics"
    using np(3) by (auto simp: status_RunE_def split: outcome.splits prod.splits)
  have flags: "''timeout'' \<in> set (cm_flags (newDoctorCommand given))" "''budget'' \<in> set (cm_flags (newDoctorCommand given))"
    "''local-port'' \<notin> set (cm_flags (newDoctorCommand given))"
    by (simp_all add: newDoctorCommand_def addTargetFlags_def)
  show "doctor_RunE w doctorFn given configPath file opts timeout budget \<noteq> Panics"
    using np(2) flags
    by (auto simp: doctor_RunE_def applyIncomingPort_def changed_def Let_def split: outcome.splits prod.splits option.splits)
qed

lemma EnsurePersonal_Inr:
  assumes "EnsurePersonal links file user token = (Inr (p, created), f)" and "token \<noteq> ''''"
  shows "f = Some (Doc p) \<and> p_Token p \<noteq> ''''"
proof (cases "decode file")
  case NotExist
  then have "file = None" by (rule decode_NotExist)
  with NotExist assms show ?thesis
    by (cases links) (auto simp: EnsurePersonal_def publish_def publishFallback_def Let_def)
next
  case (DecodeFails e)
  with assms show ?thesis by (simp add: EnsurePersonal_def)
next
  case (Decoded q)
  with assms show ?thesis
    using decode_Decoded[of "file" q] by (auto simp: EnsurePersonal_def ensureToken_def split: if_splits)
qed

lemma applyConfig_Returns:
  assumes "applyConfig w cmd configPath file opts = (Returns (cfg, opts'), f)" and "cw_token w \<noteq> ''''"
  shows "\<exists>p. f = Some (Doc p) \<and> cf_Personal cfg = p \<and> p_Token p \<noteq> '''' \<and> merge_config cmd (cw_USER w) cfg opts = Some opts'"
proof -
  from assms(1) obtain shared given p created where e: "EnsurePersonal (cw_links w) file (if given then o_User opts else cw_USER w) (cw_token w) = (Inr (p, created), f)"
    and l: "load_with (cw_yaml w) (cw_read w) shared (decode f) = Inr cfg" and m: "merge_config cmd (cw_USER w) cfg opts = Some opts'"
    by (auto simp: applyConfig_def Let_def split: sum.splits option.splits prod.splits)
  from EnsurePersonal_Inr[OF e assms(2)] l m show ?thesis by (auto simp: load_with_def split: sum.splits)
qed

definition first_given :: "string list \<Rightarrow> string \<Rightarrow> string" where
  "first_given values dflt = (case find (\<lambda>v. v \<noteq> '''') values of Some v \<Rightarrow> v | None \<Rightarrow> dflt)"

section \<open>Properties\<close>


definition empty_yaml :: yaml_lib where
  "empty_yaml = \<lparr>y_probe = (\<lambda>_. Inr (None, None)), y_shared = (\<lambda>_. Inr None), y_personal = (\<lambda>_. Inr None)\<rparr>"

definition bob_world :: config_world where
  "bob_world = \<lparr>cw_wd = Inr (Some [''repo'']), cw_exists = (\<lambda>_. False), cw_stat_config = None,
     cw_personal_path = Inr ''/home/bob/.tetherd/config.yml'', cw_yaml = empty_yaml, cw_read = (\<lambda>_. FileMissing),
     cw_USER = ''bob'', cw_token = ''fresh'', cw_links = True\<rparr>"

lemma bob_shared: "shared_path bob_world '''' = Inr ''''"
  by (simp add: shared_path_def bob_world_def Find_def find_up_find candidates_def)

lemma bob_config:
  assumes "set addTargetFlags \<subseteq> set (cm_flags cmd)" and "EnsurePersonal True file (if ''user'' \<in> set (cm_set cmd) then o_User opts else ''bob'') ''fresh'' = (Inr (p, b), Some (Doc p))"
  shows "\<exists>cfg opts1. applyConfig bob_world cmd '''' file opts = (Returns (cfg, opts1), Some (Doc p))"
proof -
  let ?cfg = "\<lparr>cf_Shared = zero_shared, cf_Personal = p, cf_SharedPath = ''''\<rparr>"
  have l: "load_with (cw_yaml bob_world) (cw_read bob_world) '''' (decode (Some (Doc p))) = Inr ?cfg"
    by (simp add: load_with_def Load_def)
  have w: "cw_personal_path bob_world = Inr ''/home/bob/.tetherd/config.yml''" "cw_USER bob_world = ''bob''"
    "cw_token bob_world = ''fresh''" "cw_links bob_world"
    by (simp_all add: bob_world_def)
  obtain o1 where "merge_config cmd ''bob'' ?cfg opts = Some o1"
    using target_flag_names[THEN changed_target[OF _ assms(1)]] by (simp add: merge_config_def set_unless_def Let_def)
  then show ?thesis
    using assms(2) l changed_target[OF target_flag_names(1) assms(1)]
    unfolding applyConfig_def bob_shared w Let_def by (simp add: w split del: if_split)
qed


text \<open>
  A first run under \<^verbatim>\<open>--as\<close> records the local user in the new personal file, not the name the run goes by.
\<close>

lemma as_is_not_seeded:
  "snd (applyConfig bob_world (newRunCommand [''as'']) '''' None (zero_options\<lparr>o_As := ''carol''\<rparr>)) =
     Some (Doc \<lparr>p_User = ''bob'', p_Token = ''fresh'', p_AWS = zero_aws\<rparr>)"
proof -
  let ?p = "\<lparr>p_User = ''bob'', p_Token = ''fresh'', p_AWS = zero_aws\<rparr>"
  have "EnsurePersonal True None ''bob'' ''fresh'' = (Inr (?p, True), Some (Doc ?p))"
    by (simp add: EnsurePersonal_def publish_def Let_def)
  moreover have "set addTargetFlags \<subseteq> set (cm_flags (newRunCommand [''as'']))" "''user'' \<notin> set (cm_set (newRunCommand [''as'']))"
    by (auto simp: newRunCommand_def)
  ultimately show ?thesis
    using bob_config[of "newRunCommand [''as'']" None "zero_options\<lparr>o_As := ''carol''\<rparr>" ?p True] by auto
qed

text \<open>C33: \<^verbatim>\<open>tetherd run\<close> never panics on its own flags, and what it passes to \<^verbatim>\<open>os.Exit\<close> is the
  child's exit code when the child ran to its end, without a line of its own, and 1 with the reason printed when
  the sessions were lost under the child. A run that never started the child prints why and exits with 1 or 2,
  with 2 only when nothing was done to the machine.\<close>

theorem process_exit_code:
  "case run_RunE w rw given configPath file args opts of (res, trace) \<Rightarrow>
     \<exists>err. res = Returns err \<and>
       (if list_ex is_child_start trace then
          (case rw_child rw of
             ChildExits c \<Rightarrow> tetherd_main err = (c, False)
           | _ \<Rightarrow> tetherd_main err = (1, True))
        else tetherd_main err = (1, True) \<or> tetherd_main err = (2, True) \<and> trace = [])"
proof -
  have sub: "set addTargetFlags \<subseteq> set (cm_flags (newRunCommand given))" by (auto simp: newRunCommand_def)
  have inc: "applyIncoming (newRunCommand given) cfg o1 \<noteq> None" for cfg o1
    by (simp add: applyIncoming_def changed_def newRunCommand_def Let_def)
  show ?thesis
  proof (cases "fst (applyConfig w (newRunCommand given) configPath file (opts\<lparr>o_Command := args\<rparr>))")
    case Panics
    with applyConfig_never_panics[OF sub] show ?thesis by simp
  next
    case (Fails e)
    then show ?thesis by (simp add: run_RunE_def tetherd_main_def ExitCode_def IsChildExit_def)
  next
    case (Returns x)
    obtain cfg o1 where x: "x = (cfg, o1)" by fastforce
    from inc obtain o2 where o2: "applyIncoming (newRunCommand given) cfg o1 = Some o2" by blast
    obtain code err trace where r: "RunWithDeps rw o2 = ((code, err), trace)" by (metis surj_pair)
    from run_exit_code[of rw o2, unfolded r] show ?thesis
      by (cases err; cases "rw_child rw")
         (auto simp: run_RunE_def Returns x o2 r command_error_def tetherd_main_def ExitCode_def IsChildExit_def split: if_splits)
  qed
qed

end
