(* ===== verification/HelperInstall.thy ===== *)
theory HelperInstall
  imports EnvPrint "HOL-Library.Word"
begin

unbundle bit_operations_syntax

text \<open>
  Installing and removing the helper (\<^verbatim>\<open>internal/helper/install.go\<close>,
  \<^verbatim>\<open>internal/helper/daemon.go\<close>). The machine is its files, with owner, mode and content, and the
  state of whatever the \<^verbatim>\<open>dscl\<close> and \<^verbatim>\<open>launchctl\<close> commands act on. A path is the list of its
  components below the root and names one file: there are no symbolic links. Every system call may fail;
  \<open>sy_fault\<close> says which do, by their number.
\<close>

section \<open>Modes and paths\<close>

type_synonym FileMode = "32 word" \<comment> \<open>\<^verbatim>\<open>fs.FileMode\<close>\<close>

definition ModeDir :: FileMode where "ModeDir = push_bit 31 1"
definition ModeSetgid :: FileMode where "ModeSetgid = push_bit 22 1"
definition Perm :: "FileMode \<Rightarrow> FileMode" where "Perm m = m AND 511"
definition IsDir :: "FileMode \<Rightarrow> bool" where "IsDir m = (m AND ModeDir \<noteq> 0)"

type_synonym path = "string list"

text \<open>\<^verbatim>\<open>filepath.Clean\<close> of an absolute path.\<close>

fun clean_parts :: "path \<Rightarrow> string list \<Rightarrow> path" where
  "clean_parts acc [] = acc"
| "clean_parts acc (s # ss) =
     clean_parts (if s = '''' \<or> s = ''.'' then acc else if s = ''..'' then butlast acc else acc @ [s]) ss"

definition clean_path :: "string \<Rightarrow> path" where
  "clean_path s = clean_parts [] (split_on CHR ''/'' s)"

definition is_abs :: "string \<Rightarrow> bool" where
  "is_abs s = has_prefix s ''/''"

definition path_str :: "path \<Rightarrow> string" where
  "path_str p = ''/'' @ join_with ''/'' p"

fun up_from :: "path \<Rightarrow> path list" where
  "up_from dir = dir # (if dir = [] then [] else up_from (butlast dir))"

declare up_from.simps [simp del]

definition pathComponents :: "path \<Rightarrow> path list" where
  "pathComponents dir = rev (up_from dir)"

section \<open>Names and the layout\<close>

definition DaemonLabel :: string where "DaemonLabel = ''dev.tetherd.helper''"
definition LaunchDaemonDir :: string where "LaunchDaemonDir = ''/Library/LaunchDaemons''"
definition DaemonLogPath :: string where "DaemonLogPath = ''/var/log/tetherd-helper.log''"
definition HelperName :: string where "HelperName = ''tetherd-helper''"
definition daemonThrottleInterval :: nat where "daemonThrottleInterval = 10"
definition ExecInstallDir :: string where "ExecInstallDir = ''/usr/local/libexec/tetherd''"
definition ExecName :: string where "ExecName = ''tetherd-exec''"
definition GroupName :: string where "GroupName = ''tetherd''"
definition DefaultSocket :: string where "DefaultSocket = ''/var/run/tetherd.sock''"
definition ActivationSocketName :: string where "ActivationSocketName = ''Listeners''"
definition socketMode :: nat where "socketMode = 438"

record Paths =
  pa_Root :: string
  pa_LaunchDir :: string
  pa_InstallDir :: string
  pa_Socket :: string
  pa_LogPath :: string

definition DefaultPaths :: Paths where
  "DefaultPaths = \<lparr>pa_Root = ''/'', pa_LaunchDir = LaunchDaemonDir, pa_InstallDir = ExecInstallDir,
                   pa_Socket = DefaultSocket, pa_LogPath = DaemonLogPath\<rparr>"

definition LaunchDirPath :: "Paths \<Rightarrow> path" where
  "LaunchDirPath p = clean_path (pa_Root p @ ''/'' @ pa_LaunchDir p)"

definition InstallDirPath :: "Paths \<Rightarrow> path" where
  "InstallDirPath p = clean_path (pa_Root p @ ''/'' @ pa_InstallDir p)"

definition PlistPath :: "Paths \<Rightarrow> path" where
  "PlistPath p = LaunchDirPath p @ [DaemonLabel @ ''.plist'']"

section \<open>The property list\<close>

text \<open>\<^verbatim>\<open>xml.EscapeText\<close>, rune by rune: what XML cannot carry becomes U+FFFD.\<close>

definition xml_char :: "string \<Rightarrow> string" where
  "xml_char r =
     (if r = [CHR 0x22] then ''&#34;''
      else if r = [CHR 0x27] then ''&#39;''
      else if r = ''&'' then ''&amp;''
      else if r = ''<'' then ''&lt;''
      else if r = ''>'' then ''&gt;''
      else if r = [CHR 0x09] then ''&#x9;''
      else if r = [CHR 0x0A] then ''&#xA;''
      else if r = [CHR 0x0D] then ''&#xD;''
      else if (length r = 1 \<and> (of_char (hd r) :: nat) < 0x20) \<or>
              r = [CHR 0xEF, CHR 0xBF, CHR 0xBE] \<or> r = [CHR 0xEF, CHR 0xBF, CHR 0xBF] then replacementChar
      else r)"

definition EscapeText :: "string \<Rightarrow> string" where
  "EscapeText s = concat (map xml_char (rune_texts s))"

definition plistText :: "nat \<Rightarrow> string \<Rightarrow> string \<Rightarrow> string" where
  "plistText depth tag text =
     replicate depth (CHR 0x09) @ ''<'' @ tag @ ''>'' @ EscapeText text @ ''</'' @ tag @ ''>'' @ [lf]"

definition tabbed :: "nat \<Rightarrow> string \<Rightarrow> string" where
  "tabbed depth s = replicate depth (CHR 0x09) @ s @ [lf]"

definition plist_head :: string where
  \<open>plist_head =
     ''<?xml version="1.0" encoding="UTF-8"?>'' @ [lf] @
     ''<!DOCTYPE plist PUBLIC "-//Apple//DTD PLIST 1.0//EN" "http://www.apple.com/DTDs/PropertyList-1.0.dtd">'' @ [lf] @
     ''<plist version="1.0">'' @ [lf] @ ''<dict>'' @ [lf]\<close>

definition Plist :: "string \<Rightarrow> string \<Rightarrow> string \<Rightarrow> string \<Rightarrow> string \<Rightarrow> string \<Rightarrow> string" where
  "Plist label helperPath socket execSrc installDir logPath =
     plist_head @
     plistText 1 ''key'' ''Label'' @ plistText 1 ''string'' label @
     plistText 1 ''key'' ''ProgramArguments'' @ tabbed 1 ''<array>'' @
     concat (map (plistText 2 ''string'')
       [helperPath, ''--socket'', socket, ''--exec-src'', execSrc, ''--install-dir'', installDir]) @
     tabbed 1 ''</array>'' @
     plistText 1 ''key'' ''Sockets'' @ tabbed 1 ''<dict>'' @
     plistText 2 ''key'' ActivationSocketName @ tabbed 2 ''<dict>'' @
     plistText 3 ''key'' ''SockPathName'' @ plistText 3 ''string'' socket @
     plistText 3 ''key'' ''SockPathMode'' @ plistText 3 ''integer'' (itoa socketMode) @
     plistText 3 ''key'' ''SockType'' @ plistText 3 ''string'' ''stream'' @
     plistText 3 ''key'' ''SockPassive'' @ tabbed 3 ''<true/>'' @
     tabbed 2 ''</dict>'' @ tabbed 1 ''</dict>'' @
     plistText 1 ''key'' ''KeepAlive'' @ tabbed 1 ''<dict>'' @
     plistText 2 ''key'' ''SuccessfulExit'' @ tabbed 2 ''<false/>'' @ tabbed 1 ''</dict>'' @
     plistText 1 ''key'' ''ThrottleInterval'' @ plistText 1 ''integer'' (itoa daemonThrottleInterval) @
     plistText 1 ''key'' ''StandardOutPath'' @ plistText 1 ''string'' logPath @
     plistText 1 ''key'' ''StandardErrorPath'' @ plistText 1 ''string'' logPath @
     ''</dict>'' @ [lf] @ ''</plist>'' @ [lf]"

section \<open>System calls\<close>

record node =
  nd_uid :: nat
  nd_gid :: nat
  nd_mode :: FileMode
  nd_data :: string

type_synonym files = "(path, node) gomap"

record 's machine =
  m_fs :: files
  m_ext :: 's \<comment> \<open>what \<^verbatim>\<open>dscl\<close> and \<^verbatim>\<open>launchctl\<close> act on\<close>
  m_ops :: nat \<comment> \<open>system calls made so far\<close>

record 's sys =
  sy_uid :: nat
  sy_umask :: FileMode
  sy_fault :: "nat \<Rightarrow> string option"
  sy_run :: "string list \<Rightarrow> 's \<Rightarrow> (string \<times> string option) \<times> 's"

datatype install_error =
    NotAbsolute string
  | NotRoot path nat
  | OthersWrite path FileMode
  | NotADirectory path FileMode
  | ErrExist
  | ErrNotExist
  | OSError string
  | CommandFails string
  | NoFreeGid string
  | Saying string install_error \<comment> \<open>\<^verbatim>\<open>fmt.Errorf\<close> with \<^verbatim>\<open>%w\<close>\<close>
  | Joined "install_error list"

type_synonym ('s, 'a) io = "'s machine \<Rightarrow> (install_error + 'a) \<times> 's machine"

definition andThen :: "('s, 'a) io \<Rightarrow> ('a \<Rightarrow> ('s, 'b) io) \<Rightarrow> ('s, 'b) io" where
  "andThen a f m = (case a m of (Inl e, m') \<Rightarrow> (Inl e, m') | (Inr x, m') \<Rightarrow> f x m')"

definition done_with :: "'a \<Rightarrow> ('s, 'a) io" where
  "done_with x m = (Inr x, m)"

definition saying :: "string \<Rightarrow> ('s, 'a) io \<Rightarrow> ('s, 'a) io" where
  "saying w a m = (case a m of (Inl e, m') \<Rightarrow> (Inl (Saying w e), m') | (Inr x, m') \<Rightarrow> (Inr x, m'))"

text \<open>A call that works on the files: it fails when the system says so, or for its own reason.\<close>

definition syscall :: "'s sys \<Rightarrow> (files \<Rightarrow> install_error + files) \<Rightarrow> ('s, unit) io" where
  "syscall sy f m =
     (let m' = m\<lparr>m_ops := m_ops m + 1\<rparr> in
      case sy_fault sy (m_ops m) of
        Some e \<Rightarrow> (Inl (OSError e), m')
      | None \<Rightarrow> (case f (m_fs m) of Inl e \<Rightarrow> (Inl e, m') | Inr fs \<Rightarrow> (Inr (), m'\<lparr>m_fs := fs\<rparr>)))"

definition is_dir :: "files \<Rightarrow> path \<Rightarrow> bool" where
  "is_dir fs p = (case mget fs p of None \<Rightarrow> False | Some n \<Rightarrow> IsDir (nd_mode n))"

text \<open>A new file takes its group from its directory, as on macOS.\<close>

definition parent_gid :: "files \<Rightarrow> path \<Rightarrow> nat" where
  "parent_gid fs p = (case mget fs (butlast p) of None \<Rightarrow> 0 | Some n \<Rightarrow> nd_gid n)"

definition mkdir_fs :: "'s sys \<Rightarrow> path \<Rightarrow> FileMode \<Rightarrow> files \<Rightarrow> install_error + files" where
  "mkdir_fs sy p mode fs =
     (if mget fs p \<noteq> None then Inl ErrExist
      else if p = [] \<or> \<not> is_dir fs (butlast p) then Inl (OSError ''not a directory'')
      else Inr (mput p \<lparr>nd_uid = sy_uid sy, nd_gid = parent_gid fs p,
                         nd_mode = (mode AND NOT (sy_umask sy)) OR ModeDir, nd_data = ''''\<rparr> fs))"

definition chmod_fs :: "path \<Rightarrow> FileMode \<Rightarrow> files \<Rightarrow> install_error + files" where
  "chmod_fs p mode fs =
     (case mget fs p of
        None \<Rightarrow> Inl ErrNotExist
      | Some n \<Rightarrow> Inr (mput p (n\<lparr>nd_mode := (nd_mode n AND ModeDir) OR mode\<rparr>) fs))"

definition chown_fs :: "path \<Rightarrow> nat \<Rightarrow> nat \<Rightarrow> files \<Rightarrow> install_error + files" where
  "chown_fs p uid gid fs =
     (case mget fs p of
        None \<Rightarrow> Inl ErrNotExist
      | Some n \<Rightarrow> Inr (mput p (n\<lparr>nd_uid := uid, nd_gid := gid\<rparr>) fs))"

definition create_fs :: "'s sys \<Rightarrow> path \<Rightarrow> FileMode \<Rightarrow> files \<Rightarrow> install_error + files" where
  "create_fs sy p mode fs =
     (case mget fs p of
        Some n \<Rightarrow> if IsDir (nd_mode n) then Inl (OSError ''is a directory'') else Inr (mput p (n\<lparr>nd_data := ''''\<rparr>) fs)
      | None \<Rightarrow>
          if p = [] \<or> \<not> is_dir fs (butlast p) then Inl (OSError ''not a directory'')
          else Inr (mput p \<lparr>nd_uid = sy_uid sy, nd_gid = parent_gid fs p,
                             nd_mode = mode AND NOT (sy_umask sy), nd_data = ''''\<rparr> fs))"

definition write_fs :: "path \<Rightarrow> string \<Rightarrow> files \<Rightarrow> install_error + files" where
  "write_fs p d fs =
     (case mget fs p of None \<Rightarrow> Inl ErrNotExist | Some n \<Rightarrow> Inr (mput p (n\<lparr>nd_data := d\<rparr>) fs))"

definition rename_fs :: "path \<Rightarrow> path \<Rightarrow> files \<Rightarrow> install_error + files" where
  "rename_fs a b fs =
     (case mget fs a of
        None \<Rightarrow> Inl ErrNotExist
      | Some n \<Rightarrow> if is_dir fs b then Inl (OSError ''is a directory'') else Inr (mdel a (mput b n fs)))"

definition below :: "path \<Rightarrow> path \<Rightarrow> bool" where
  "below p q = (take (length p) q = p)"

definition remove_fs :: "path \<Rightarrow> files \<Rightarrow> install_error + files" where
  "remove_fs p fs =
     (if mget fs p = None then Inl ErrNotExist
      else if list_ex (\<lambda>(q, _). below p q \<and> q \<noteq> p) fs then Inl (OSError ''directory not empty'')
      else Inr (mdel p fs))"

definition removeAll_fs :: "path \<Rightarrow> files \<Rightarrow> install_error + files" where
  "removeAll_fs p fs = Inr (filter (\<lambda>(q, _). \<not> below p q) fs)"

text \<open>Opening a file for reading and reading it to the end.\<close>

definition open_file :: "'s sys \<Rightarrow> path \<Rightarrow> ('s, string) io" where
  "open_file sy p m =
     (let m' = m\<lparr>m_ops := m_ops m + 1\<rparr> in
      case sy_fault sy (m_ops m) of
        Some e \<Rightarrow> (Inl (OSError e), m')
      | None \<Rightarrow>
          (case mget (m_fs m) p of
             None \<Rightarrow> (Inl ErrNotExist, m')
           | Some n \<Rightarrow> if IsDir (nd_mode n) then (Inl (OSError ''is a directory''), m') else (Inr (nd_data n), m')))"

definition run_cmd :: "'s sys \<Rightarrow> string list \<Rightarrow> 's machine \<Rightarrow> (string \<times> string option) \<times> 's machine" where
  "run_cmd sy args m = (case sy_run sy args (m_ext m) of (r, s) \<Rightarrow> (r, m\<lparr>m_ext := s\<rparr>))"

section \<open>The group\<close>

text \<open>The leftmost match of \<^verbatim>\<open>PrimaryGroupID:\s*(\d+)\<close>.\<close>

definition re_space :: "char \<Rightarrow> bool" where
  "re_space c = (c \<in> {CHR 0x09, CHR 0x0A, CHR 0x0C, CHR 0x0D, CHR '' ''})"

definition pgid_here :: "string \<Rightarrow> string option" where
  "pgid_here s =
     (if has_prefix s ''PrimaryGroupID:'' then
        (let ds = takeWhile is_digit (dropWhile re_space (drop (length ''PrimaryGroupID:'') s)) in
         if ds = '''' then None else Some ds)
      else None)"

fun pgid_match :: "string \<Rightarrow> string option" where
  "pgid_match [] = None"
| "pgid_match (c # s) = (case pgid_here (c # s) of Some ds \<Rightarrow> Some ds | None \<Rightarrow> pgid_match s)"

text \<open>\<^verbatim>\<open>strconv.Atoi\<close> of digits with its error dropped: out of range, it is the largest \<^verbatim>\<open>int\<close>.\<close>

definition atoi_digits :: "string \<Rightarrow> nat" where
  "atoi_digits ds = (case parse_digits ds of None \<Rightarrow> 0 | Some n \<Rightarrow> min n (2 ^ 63 - 1))"

definition groups_path :: "string \<Rightarrow> string" where "groups_path name = ''/Groups/'' @ name"

definition GroupGID :: "'s sys \<Rightarrow> string \<Rightarrow> ('s, nat option) io" where
  "GroupGID sy name m =
     (case run_cmd sy [''dscl'', ''.'', ''-read'', groups_path name, ''PrimaryGroupID''] m of
        ((out, Some e), m') \<Rightarrow>
          if contains e ''eDSRecordNotFound'' \<or> contains out ''eDSRecordNotFound'' then (Inr None, m')
          else (Inl (CommandFails e), m')
      | ((out, None), m') \<Rightarrow>
          (case pgid_match out of
             None \<Rightarrow> (Inl (CommandFails (''dscl: cannot parse '' @ quoted out)), m')
           | Some ds \<Rightarrow> (Inr (Some (atoi_digits ds)), m')))"

fun free_gid :: "'s sys \<Rightarrow> string \<Rightarrow> nat list \<Rightarrow> ('s, nat) io" where
  "free_gid sy name [] m = (Inl (NoFreeGid name), m)"
| "free_gid sy name (gid # gids) m =
     (case run_cmd sy [''dscl'', ''.'', ''-search'', ''/Groups'', ''PrimaryGroupID'', itoa gid] m of
        ((_, Some e), m') \<Rightarrow> (Inl (CommandFails e), m')
      | ((out, None), m') \<Rightarrow>
          if trim_space out \<noteq> '''' then free_gid sy name gids m'
          else
            (case run_cmd sy [''dscl'', ''.'', ''-create'', groups_path name, ''PrimaryGroupID'', itoa gid] m' of
               ((_, Some e), m'') \<Rightarrow> (Inl (CommandFails e), m'')
             | ((_, None), m'') \<Rightarrow> (Inr gid, m'')))"

definition EnsureGroup :: "'s sys \<Rightarrow> string \<Rightarrow> ('s, nat) io" where
  "EnsureGroup sy name =
     andThen (GroupGID sy name) (\<lambda>r. case r of Some gid \<Rightarrow> done_with gid | None \<Rightarrow> free_gid sy name [300..<400])"

section \<open>Files\<close>

definition installDirMode :: FileMode where "installDirMode = 493" \<comment> \<open>\<^verbatim>\<open>0o755\<close>\<close>

fun mkdirs :: "'s sys \<Rightarrow> FileMode \<Rightarrow> path list \<Rightarrow> ('s, unit) io" where
  "mkdirs sy mode [] m = (Inr (), m)"
| "mkdirs sy mode (p # ps) m =
     (case syscall sy (mkdir_fs sy p mode) m of
        (Inl ErrExist, m') \<Rightarrow> mkdirs sy mode ps m'
      | (Inl e, m') \<Rightarrow> (Inl e, m')
      | (Inr _, m') \<Rightarrow> andThen (syscall sy (chmod_fs p mode)) (\<lambda>_. mkdirs sy mode ps) m')"

definition mkdirAllMode :: "'s sys \<Rightarrow> path \<Rightarrow> FileMode \<Rightarrow> ('s, unit) io" where
  "mkdirAllMode sy dir mode = mkdirs sy mode (pathComponents dir)"

definition tmp_of :: "path \<Rightarrow> path" where
  "tmp_of p = butlast p @ [last p @ ''.tmp'']"

definition copyExecutable :: "'s sys \<Rightarrow> path \<Rightarrow> path \<Rightarrow> ('s, unit) io" where
  "copyExecutable sy src dst =
     andThen (open_file sy src) (\<lambda>d.
     andThen (syscall sy (create_fs sy (tmp_of dst) 493)) (\<lambda>_.
     andThen (syscall sy (write_fs (tmp_of dst) d)) (\<lambda>_.
     andThen (syscall sy (chmod_fs (tmp_of dst) 493)) (\<lambda>_.
     syscall sy (rename_fs (tmp_of dst) dst)))))"

definition InstallExec :: "'s sys \<Rightarrow> path \<Rightarrow> path \<Rightarrow> nat \<Rightarrow> ('s, path) io" where
  "InstallExec sy src dir gid =
     (let dst = dir @ [ExecName]; tmp = tmp_of dst in
      andThen (mkdirAllMode sy dir installDirMode) (\<lambda>_.
      andThen (open_file sy src) (\<lambda>d.
      andThen (syscall sy (create_fs sy tmp 493)) (\<lambda>_.
      andThen (syscall sy (write_fs tmp d)) (\<lambda>_.
      andThen (syscall sy (chown_fs tmp (sy_uid sy) gid)) (\<lambda>_.
      andThen (syscall sy (chmod_fs tmp (493 OR ModeSetgid))) (\<lambda>_.
      andThen (syscall sy (rename_fs tmp dst)) (\<lambda>_. done_with dst))))))))"

definition writeFileAtomic :: "'s sys \<Rightarrow> path \<Rightarrow> string \<Rightarrow> FileMode \<Rightarrow> ('s, unit) io" where
  "writeFileAtomic sy p b mode =
     andThen (syscall sy (create_fs sy (tmp_of p) mode)) (\<lambda>_.
     andThen (syscall sy (write_fs (tmp_of p) b)) (\<lambda>_.
     andThen (syscall sy (chmod_fs (tmp_of p) mode)) (\<lambda>_.
     syscall sy (rename_fs (tmp_of p) p))))"

section \<open>Ownership\<close>

definition OSStatOwner :: "'s sys \<Rightarrow> path \<Rightarrow> ('s, nat \<times> FileMode) io" where
  "OSStatOwner sy p m =
     (let m' = m\<lparr>m_ops := m_ops m + 1\<rparr> in
      case sy_fault sy (m_ops m) of
        Some e \<Rightarrow> (Inl (OSError e), m')
      | None \<Rightarrow> (case mget (m_fs m) p of None \<Rightarrow> (Inl ErrNotExist, m') | Some n \<Rightarrow> (Inr (nd_uid n, nd_mode n), m')))"

fun own_check :: "'s sys \<Rightarrow> path list \<Rightarrow> ('s, unit) io" where
  "own_check sy [] m = (Inr (), m)"
| "own_check sy (p # ps) m =
     (case OSStatOwner sy p m of
        (Inl ErrNotExist, m') \<Rightarrow> (Inr (), m')
      | (Inl e, m') \<Rightarrow> (Inl e, m')
      | (Inr (uid, mode), m') \<Rightarrow>
          if uid \<noteq> 0 then (Inl (NotRoot p uid), m')
          else if Perm mode AND 18 \<noteq> 0 then (Inl (OthersWrite p mode), m')
          else if \<not> IsDir mode then (Inl (NotADirectory p mode), m')
          else own_check sy ps m')"

definition CheckOwnership :: "'s sys \<Rightarrow> string \<Rightarrow> ('s, unit) io" where
  "CheckOwnership sy dir m =
     (if \<not> is_abs dir then (Inl (NotAbsolute dir), m) else own_check sy (pathComponents (clean_path dir)) m)"

section \<open>Install and uninstall\<close>

record InstallResult =
  ir_GID :: nat
  ir_HelperPath :: path
  ir_ExecPath :: path
  ir_PlistPath :: path

definition notLoadedErr :: "string \<Rightarrow> string option \<Rightarrow> bool" where
  "notLoadedErr out err =
     (case err of None \<Rightarrow> False | Some e \<Rightarrow> contains out ''No such process'' \<or> contains e ''No such process'')"

definition bootout :: "'s sys \<Rightarrow> ('s, unit) io" where
  "bootout sy m =
     (case run_cmd sy [''launchctl'', ''bootout'', ''system/'' @ DaemonLabel] m of
        ((out, err), m') \<Rightarrow>
          (case err of
             None \<Rightarrow> (Inr (), m')
           | Some e \<Rightarrow> if \<not> notLoadedErr out err then (Inl (CommandFails e), m') else (Inr (), m')))"

definition bootstrap :: "'s sys \<Rightarrow> path \<Rightarrow> ('s, unit) io" where
  "bootstrap sy plist m =
     (case run_cmd sy [''launchctl'', ''bootstrap'', ''system'', path_str plist] m of
        ((_, None), m') \<Rightarrow> (Inr (), m')
      | ((_, Some e), m') \<Rightarrow> (Inl (CommandFails e), m'))"

text \<open>\<^verbatim>\<open>filepath.Dir\<close>; a path that is not absolute is left as it is, and refused.\<close>

definition dir_str :: "string \<Rightarrow> string" where
  "dir_str s = (if is_abs s then path_str (butlast (clean_path s)) else s)"

fun checkAll :: "'s sys \<Rightarrow> string list \<Rightarrow> ('s, unit) io" where
  "checkAll sy [] = done_with ()"
| "checkAll sy (d # ds) = andThen (saying ''refusing to install'' (CheckOwnership sy d)) (\<lambda>_. checkAll sy ds)"

definition Install :: "Paths \<Rightarrow> 's sys \<Rightarrow> path \<Rightarrow> ('s, InstallResult) io" where
  "Install p sy srcDir =
     (let installDir = InstallDirPath p; helper = installDir @ [HelperName]; plist = PlistPath p in
      andThen (checkAll sy [path_str installDir, path_str (LaunchDirPath p), dir_str (pa_LogPath p)]) (\<lambda>_.
      andThen (saying (''group '' @ GroupName) (EnsureGroup sy GroupName)) (\<lambda>gid.
      andThen (mkdirAllMode sy installDir installDirMode) (\<lambda>_.
      andThen (syscall sy (chmod_fs installDir installDirMode)) (\<lambda>_.
      andThen (saying (''install '' @ HelperName) (copyExecutable sy (srcDir @ [HelperName]) helper)) (\<lambda>_.
      andThen (saying (''install '' @ ExecName) (InstallExec sy (srcDir @ [ExecName]) installDir gid)) (\<lambda>execPath.
      andThen (mkdirAllMode sy (LaunchDirPath p) installDirMode) (\<lambda>_.
      andThen (saying (''write '' @ path_str plist)
        (writeFileAtomic sy plist
           (Plist DaemonLabel (path_str helper) (pa_Socket p) (path_str execPath) (path_str installDir) (pa_LogPath p))
           420)) (\<lambda>_.
      andThen (saying (''launchctl bootout system/'' @ DaemonLabel) (bootout sy)) (\<lambda>_.
      andThen (saying (''launchctl bootstrap system '' @ path_str plist) (bootstrap sy plist)) (\<lambda>_.
      done_with \<lparr>ir_GID = gid, ir_HelperPath = helper, ir_ExecPath = execPath, ir_PlistPath = plist\<rparr>)))))))))))"

text \<open>The four steps of \<^verbatim>\<open>Uninstall\<close>; each leaves its error, if any, and the next is taken all the same.\<close>

definition delete_group :: "'s sys \<Rightarrow> ('s, unit) io" where
  "delete_group sy m =
     (case GroupGID sy GroupName m of
        (Inl e, m') \<Rightarrow> (Inl (Saying (''group '' @ GroupName) e), m')
      | (Inr None, m') \<Rightarrow> (Inr (), m')
      | (Inr (Some gid), m') \<Rightarrow>
          (case run_cmd sy [''dscl'', ''.'', ''-delete'', groups_path GroupName] m' of
             ((_, None), m'') \<Rightarrow> (Inr (), m'')
           | ((_, Some e), m'') \<Rightarrow>
               (Inl (Saying (''delete group '' @ GroupName @ '' (gid '' @ itoa gid @ '')'') (CommandFails e)), m'')))"

definition ignore_missing :: "('s, unit) io \<Rightarrow> ('s, unit) io" where
  "ignore_missing a m = (case a m of (Inl ErrNotExist, m') \<Rightarrow> (Inr (), m') | (r, m') \<Rightarrow> (r, m'))"

fun all_steps :: "('s, unit) io list \<Rightarrow> 's machine \<Rightarrow> install_error list \<times> 's machine" where
  "all_steps [] m = ([], m)"
| "all_steps (a # as) m =
     (case a m of
        (Inl e, m') \<Rightarrow> (case all_steps as m' of (es, m'') \<Rightarrow> (e # es, m''))
      | (Inr _, m') \<Rightarrow> all_steps as m')"

definition Uninstall :: "Paths \<Rightarrow> 's sys \<Rightarrow> ('s, unit) io" where
  "Uninstall p sy m =
     (case all_steps
        [saying (''launchctl bootout system/'' @ DaemonLabel) (bootout sy),
         saying (''remove '' @ path_str (PlistPath p)) (ignore_missing (syscall sy (remove_fs (PlistPath p)))),
         delete_group sy,
         saying (''remove '' @ path_str (InstallDirPath p)) (syscall sy (removeAll_fs (InstallDirPath p)))] m of
        ([], m') \<Rightarrow> (Inr (), m')
      | (es, m') \<Rightarrow> (Inl (Joined es), m'))"

section \<open>Paths\<close>

lemma pathComponents_Nil [simp]: "pathComponents [] = [[]]"
  by (simp add: pathComponents_def up_from.simps)

lemma pathComponents_snoc [simp]: "pathComponents (d @ [x]) = pathComponents d @ [d @ [x]]"
  by (simp add: pathComponents_def up_from.simps[of "d @ [x]"])

lemma pathComponents_take: "pathComponents d = map (\<lambda>n. take n d) [0..<Suc (length d)]"
  by (induction d rule: rev_induct) auto

lemma in_pathComponents: "q \<in> set (pathComponents d) \<longleftrightarrow> below q d"
proof -
  have "q \<in> set (pathComponents d) \<longleftrightarrow> (\<exists>n \<le> length d. q = take n d)"
    by (auto simp: pathComponents_take image_iff less_Suc_eq_le Bex_def conj_commute simp del: upt_Suc)
  also have "\<dots> \<longleftrightarrow> below q d"
    unfolding below_def by (metis length_take min.absorb2 nat_le_linear take_all)
  finally show ?thesis .
qed

lemma clean_parts_plain:
  assumes "\<And>s. s \<in> set ss \<Longrightarrow> s \<noteq> '''' \<and> s \<noteq> ''.'' \<and> s \<noteq> ''..''"
  shows "clean_parts acc ss = acc @ ss"
  using assms by (induction ss arbitrary: acc) auto

definition good_path :: "path \<Rightarrow> bool" where
  "good_path d = list_all (\<lambda>s. s \<noteq> '''' \<and> s \<noteq> ''.'' \<and> s \<noteq> ''..'' \<and> CHR ''/'' \<notin> set s) d"

lemma clean_parts_good:
  assumes "good_path acc" and "\<And>s. s \<in> set ss \<Longrightarrow> CHR ''/'' \<notin> set s"
  shows "good_path (clean_parts acc ss)"
  using assms
proof (induction ss arbitrary: acc)
  case (Cons s ss)
  have "good_path (butlast acc)" using Cons.prems(1) by (auto simp: good_path_def list_all_iff dest: in_set_butlastD)
  then show ?case using Cons by (auto simp: good_path_def)
qed simp

lemma clean_path_good: "good_path (clean_path s)"
  unfolding clean_path_def by (rule clean_parts_good) (auto simp: good_path_def dest: split_on_set)

lemma clean_path_str: "good_path d \<Longrightarrow> clean_path (path_str d) = d"
proof (cases "d = []")
  case True
  then show ?thesis by (simp add: clean_path_def path_str_def)
next
  case False
  assume d: "good_path d"
  have "split_on CHR ''/'' (path_str d) = '''' # d"
    using split_join_with[OF False, of "CHR ''/''"] d by (auto simp: path_str_def good_path_def list_all_iff)
  then show ?thesis
    using clean_parts_plain[of d "[]"] d by (auto simp: clean_path_def good_path_def list_all_iff)
qed

lemma is_abs_path_str [simp]: "is_abs (path_str d)"
  by (simp add: is_abs_def path_str_def)

section \<open>Running the steps\<close>

lemma andThen_Inr:
  assumes "andThen a f m = (Inr y, m'')"
  obtains x m' where "a m = (Inr x, m')" and "f x m' = (Inr y, m'')"
  using assms by (auto simp: andThen_def split: prod.splits sum.splits)

lemma saying_Inr: "saying w a m = (Inr x, m') \<longleftrightarrow> a m = (Inr x, m')"
  by (auto simp: saying_def split: prod.splits sum.splits)

lemma done_with_iff [simp]: "done_with x m = (r, m') \<longleftrightarrow> r = Inr x \<and> m' = m"
  by (auto simp: done_with_def)

lemma syscall_Inr:
  assumes "syscall sy f m = (Inr u, m')"
  shows "f (m_fs m) = Inr (m_fs m')"
  using assms by (auto simp: syscall_def Let_def split: option.splits sum.splits)

lemma syscall_Inl: "syscall sy f m = (Inl e, m') \<Longrightarrow> m_fs m' = m_fs m"
  by (auto simp: syscall_def Let_def split: option.splits sum.splits)

lemma open_Inr:
  assumes "open_file sy p m = (Inr d, m')"
  shows "\<exists>n. mget (m_fs m) p = Some n \<and> \<not> IsDir (nd_mode n) \<and> d = nd_data n" and "m_fs m' = m_fs m"
  using assms by (auto simp: open_file_def Let_def split: option.splits if_splits)

lemma run_cmd_fs: "run_cmd sy args m = (r, m') \<Longrightarrow> m_fs m' = m_fs m"
  by (auto simp: run_cmd_def split: prod.splits)

lemma GroupGID_fs: "GroupGID sy name m = (r, m') \<Longrightarrow> m_fs m' = m_fs m"
  by (auto simp: GroupGID_def dest: run_cmd_fs split: prod.splits option.splits if_splits)

lemma free_gid_fs: "free_gid sy name gids m = (r, m') \<Longrightarrow> m_fs m' = m_fs m"
proof (induction sy name gids m rule: free_gid.induct)
  case (2 sy name gid gids m)
  then show ?case by (auto split: prod.splits option.splits if_splits) (metis run_cmd_fs)+
qed simp

lemma EnsureGroup_fs:
  assumes "EnsureGroup sy name m = (r, m')"
  shows "m_fs m' = m_fs m"
proof -
  obtain q m1 where q: "GroupGID sy name m = (q, m1)" by fastforce
  show ?thesis
  proof (cases q)
    case (Inr o')
    then show ?thesis
      using assms q GroupGID_fs[OF q]
      by (cases o') (auto simp: EnsureGroup_def andThen_def simp del: free_gid.simps upt_rec_numeral dest: free_gid_fs)
  qed (use assms q GroupGID_fs[OF q] in \<open>simp add: EnsureGroup_def andThen_def\<close>)
qed

lemma bootout_fs: "bootout sy m = (r, m') \<Longrightarrow> m_fs m' = m_fs m"
  by (auto simp: bootout_def dest: run_cmd_fs split: prod.splits option.splits if_splits)

lemma bootstrap_fs: "bootstrap sy p m = (r, m') \<Longrightarrow> m_fs m' = m_fs m"
  by (auto simp: bootstrap_def dest: run_cmd_fs split: prod.splits option.splits)

section \<open>What ownership promises\<close>

definition root_safe :: "node \<Rightarrow> bool" where
  "root_safe n = (nd_uid n = 0 \<and> Perm (nd_mode n) AND 18 = 0)"

definition wf_files :: "files \<Rightarrow> bool" where
  "wf_files fs = (\<forall>p n. mget fs p = Some n \<longrightarrow> p \<noteq> [] \<longrightarrow> is_dir fs (butlast p))"

definition chain_safe :: "files \<Rightarrow> path \<Rightarrow> bool" where
  "chain_safe fs d = (\<forall>q n. below q d \<longrightarrow> mget fs q = Some n \<longrightarrow> root_safe n)"

lemma OSStatOwner_machine:
  "OSStatOwner sy p m = (r, m') \<Longrightarrow> m_fs m' = m_fs m \<and> m_ext m' = m_ext m"
  by (auto simp: OSStatOwner_def Let_def split: option.splits)

lemma own_check_machine: "own_check sy ps m = (r, m') \<Longrightarrow> m_fs m' = m_fs m \<and> m_ext m' = m_ext m"
proof (induction sy ps m rule: own_check.induct)
  case (2 sy p ps m)
  then show ?case
    by (auto dest!: OSStatOwner_machine split: prod.splits sum.splits install_error.splits if_splits)
qed simp

lemma OSStatOwner_cases:
  obtains e m' where "OSStatOwner sy p m = (Inl (OSError e), m')"
  | m' where "OSStatOwner sy p m = (Inl ErrNotExist, m')" and "mget (m_fs m) p = None" and "m_fs m' = m_fs m"
  | n m' where "OSStatOwner sy p m = (Inr (nd_uid n, nd_mode n), m')" and "mget (m_fs m) p = Some n" and "m_fs m' = m_fs m"
  by (cases "sy_fault sy (m_ops m)"; cases "mget (m_fs m) p") (auto simp: OSStatOwner_def Let_def)

text \<open>The walk passes only over root-owned directories and stops at the first that is missing.\<close>

lemma own_check_prefix:
  assumes "own_check sy ps m = (Inr u, m')"
  shows "\<exists>k \<le> length ps. (\<forall>i < k. \<exists>n. mget (m_fs m) (ps ! i) = Some n \<and> root_safe n \<and> IsDir (nd_mode n)) \<and>
           (k < length ps \<longrightarrow> mget (m_fs m) (ps ! k) = None)"
  using assms
proof (induction sy ps m rule: own_check.induct)
  case (2 sy p ps m)
  show ?case
  proof (cases rule: OSStatOwner_cases[of sy p m])
    case (1 e m1)
    then show ?thesis using 2(2) by simp
  next
    case (2 m1)
    then show ?thesis by (intro exI[of _ 0]) simp
  next
    case (3 n m1)
    then have n: "root_safe n" "IsDir (nd_mode n)" and rest: "own_check sy ps m1 = (Inr u, m')"
      using 2(2) by (auto simp: root_safe_def split: if_splits)
    from 2(1)[OF 3(1)[symmetric] refl refl _ _ _ rest] n 3
    obtain k where k: "k \<le> length ps" "\<forall>i < k. \<exists>n. mget (m_fs m) (ps ! i) = Some n \<and> root_safe n \<and> IsDir (nd_mode n)"
      "k < length ps \<longrightarrow> mget (m_fs m) (ps ! k) = None"
      by (auto simp: root_safe_def)
    then show ?thesis
      using n 3(2) by (intro exI[of _ "Suc k"]) (auto simp: nth_Cons' less_Suc_eq_0_disj)
  qed
qed simp

lemma missing_below:
  assumes "wf_files fs" and "mget fs p = None" and "below p q"
  shows "mget fs q = None"
  using assms(3)
proof (induction q rule: rev_induct)
  case Nil
  then show ?case using assms(2) by (simp add: below_def)
next
  case (snoc x q)
  show ?case
  proof (cases "p = q @ [x]")
    case False
    then have "below p q" using snoc.prems by (auto simp: below_def take_Cons' split: if_splits)
    then show ?thesis using snoc.IH assms(1) by (fastforce simp: wf_files_def is_dir_def)
  qed (use assms(2) in simp)
qed

lemma own_check_chain:
  assumes "own_check sy (pathComponents d) m = (Inr u, m')" and "wf_files (m_fs m)" and "below q d"
    and "mget (m_fs m) q = Some n"
  shows "root_safe n \<and> IsDir (nd_mode n)"
proof -
  have len: "length (pathComponents d) = Suc (length d)" and nth: "\<And>i. i \<le> length d \<Longrightarrow> pathComponents d ! i = take i d"
    by (simp_all add: pathComponents_take del: upt_Suc)
  obtain k where k: "\<forall>i < k. \<exists>n. mget (m_fs m) (pathComponents d ! i) = Some n \<and> root_safe n \<and> IsDir (nd_mode n)"
    and stop: "k \<le> Suc (length d)" "k \<le> length d \<longrightarrow> mget (m_fs m) (pathComponents d ! k) = None"
    using own_check_prefix[OF assms(1)] len by (auto simp: less_Suc_eq_le)
  have q: "q = take (length q) d" "length q \<le> length d"
    using assms(3) by (auto simp: below_def) (metis length_take min.bounded_iff order_refl)
  have "length q < k"
  proof (rule ccontr)
    assume "\<not> length q < k"
    then have kq: "k \<le> length q" and kd: "k \<le> length d" using q(2) by auto
    have "below (take k d) q"
      unfolding below_def using q kq kd by (metis length_take min.absorb1 min.absorb2 take_take)
    then show False
      using missing_below[OF assms(2)] stop(2) kd nth[OF kd] assms(4) by auto
  qed
  then show ?thesis using k nth[OF q(2)] q(1) assms(4) by auto
qed

lemma CheckOwnership_chain:
  assumes "CheckOwnership sy (path_str d) m = (Inr u, m')" and "good_path d" and "wf_files (m_fs m)"
  shows "chain_safe (m_fs m) d" and "m_fs m' = m_fs m"
proof -
  have c: "own_check sy (pathComponents d) m = (Inr u, m')"
    using assms(1,2) by (simp add: CheckOwnership_def clean_path_str)
  show "chain_safe (m_fs m) d" using own_check_chain[OF c assms(3)] by (simp add: chain_safe_def)
  show "m_fs m' = m_fs m" using own_check_machine[OF c] by simp
qed

lemma checkAll_machine: "checkAll sy ds m = (r, m') \<Longrightarrow> m_fs m' = m_fs m \<and> m_ext m' = m_ext m"
proof (induction ds arbitrary: m)
  case (Cons d ds)
  have "m_fs m1 = m_fs m \<and> m_ext m1 = m_ext m" if "CheckOwnership sy d m = (x, m1)" for x m1
    using that by (auto simp: CheckOwnership_def dest: own_check_machine split: if_splits)
  then show ?case
    using Cons by (fastforce simp: andThen_def saying_def split: prod.splits sum.splits)
qed simp

section \<open>What the file operations do\<close>

lemma IsDir_bit: "IsDir m \<longleftrightarrow> bit m 31"
  by (simp add: IsDir_def ModeDir_def bit_iff_and_push_bit_not_eq_0)

lemma IsDir_simps [simp]:
  "IsDir (m OR ModeDir)" "IsDir (ModeDir OR m)" "\<not> IsDir 493" "\<not> IsDir 420" "\<not> IsDir (493 OR ModeSetgid)"
  by (simp_all add: IsDir_bit ModeDir_def ModeSetgid_def bit_simps)

lemma bit_ModeDir: "bit ModeDir n \<longleftrightarrow> n = 31"
  unfolding ModeDir_def bit_push_bit_iff by (auto simp: bit_1_iff)

lemma chmod_file: "\<not> IsDir m \<Longrightarrow> (m AND ModeDir) OR x = x"
  by (simp add: IsDir_def)

lemma chmod_dir: "IsDir m \<Longrightarrow> (m AND ModeDir) OR x = ModeDir OR x"
  by (rule bit_word_eqI) (auto simp: IsDir_bit bit_ModeDir bit_and_iff bit_or_iff)

lemma wf_files_put:
  assumes "wf_files fs" and "p \<noteq> [] \<Longrightarrow> is_dir fs (butlast p)" and "is_dir fs p \<Longrightarrow> IsDir (nd_mode n)"
  shows "wf_files (mput p n fs)"
  unfolding wf_files_def
proof (intro allI impI)
  fix q k
  assume q: "mget (mput p n fs) q = Some k" "q \<noteq> []"
  have "is_dir fs (butlast q)"
    using q assms(1,2) by (cases "q = p") (auto simp: wf_files_def)
  then show "is_dir (mput p n fs) (butlast q)"
    using assms(3) by (cases "butlast q = p") (auto simp: is_dir_def)
qed

lemma wf_files_del:
  assumes "wf_files fs" and "\<not> is_dir fs p"
  shows "wf_files (mdel p fs)"
  unfolding wf_files_def
proof (intro allI impI)
  fix q k
  assume "mget (mdel p fs) q = Some k" "q \<noteq> []"
  then have "is_dir fs (butlast q)" using assms(1) by (auto simp: wf_files_def split: if_splits)
  moreover have "butlast q \<noteq> p" using calculation assms(2) by auto
  ultimately show "is_dir (mdel p fs) (butlast q)" by (simp add: is_dir_def)
qed

text \<open>Making directories only adds them, with the mode asked for whatever the umask.\<close>

definition adds_dirs :: "'s sys \<Rightarrow> FileMode \<Rightarrow> files \<Rightarrow> files \<Rightarrow> bool" where
  "adds_dirs sy mode fs fs' =
     (\<forall>q. mget fs' q = mget fs q \<or>
        (mget fs q = None \<and> (\<exists>n. mget fs' q = Some n \<and> nd_uid n = sy_uid sy \<and> nd_mode n = ModeDir OR mode)))"

lemma adds_dirs_trans: "adds_dirs sy mode a b \<Longrightarrow> adds_dirs sy mode b c \<Longrightarrow> adds_dirs sy mode a c"
  unfolding adds_dirs_def by metis

lemma adds_dirs_keeps: "adds_dirs sy mode fs fs' \<Longrightarrow> mget fs q = Some n \<Longrightarrow> mget fs' q = Some n"
  unfolding adds_dirs_def by (metis option.distinct(1))

lemma mkdir_chmod:
  assumes "mkdir_fs sy p mode fs = Inr fs1" and "chmod_fs p mode fs1 = Inr fs2" and "wf_files fs"
  shows "adds_dirs sy mode fs fs2" and "mget fs2 p \<noteq> None" and "wf_files fs2"
proof -
  have new: "mget fs p = None" "p \<noteq> []" "is_dir fs (butlast p)"
    and fs2: "fs2 = mput p \<lparr>nd_uid = sy_uid sy, nd_gid = parent_gid fs p, nd_mode = ModeDir OR mode, nd_data = ''''\<rparr> fs1"
    and fs1: "fs1 = mput p \<lparr>nd_uid = sy_uid sy, nd_gid = parent_gid fs p,
                 nd_mode = (mode AND NOT (sy_umask sy)) OR ModeDir, nd_data = ''''\<rparr> fs"
    using assms(1,2) by (auto simp: mkdir_fs_def chmod_fs_def chmod_dir split: if_splits)
  show "mget fs2 p \<noteq> None" by (simp add: fs2)
  show "adds_dirs sy mode fs fs2" using new by (auto simp: adds_dirs_def fs1 fs2)
  have "wf_files fs1" unfolding fs1 using new assms(3) by (intro wf_files_put) auto
  moreover have "is_dir fs1 (butlast p)" using new by (auto simp: fs1 is_dir_def)
  ultimately show "wf_files fs2" unfolding fs2 by (intro wf_files_put) auto
qed

lemma mkdirs_effect:
  assumes "mkdirs sy mode ps m = (Inr u, m')" and "wf_files (m_fs m)"
  shows "adds_dirs sy mode (m_fs m) (m_fs m') \<and> wf_files (m_fs m') \<and> (\<forall>q \<in> set ps. mget (m_fs m') q \<noteq> None)"
  using assms
proof (induction sy mode ps m rule: mkdirs.induct)
  case (1 sy mode m)
  then show ?case by (simp add: adds_dirs_def)
next
  case (2 sy mode p ps m)
  obtain r m1 where r: "syscall sy (mkdir_fs sy p mode) m = (r, m1)" by fastforce
  show ?case
  proof (cases r)
    case (Inl e)
    have e: "e = ErrExist" and rest: "mkdirs sy mode ps m1 = (Inr u, m')"
      using 2(3) r Inl by (auto split: install_error.splits)
    have fs: "m_fs m1 = m_fs m" using syscall_Inl r Inl by blast
    have "mget (m_fs m) p \<noteq> None"
      using r Inl e by (auto simp: syscall_def mkdir_fs_def Let_def split: option.splits sum.splits if_splits)
    then show ?thesis
      using 2(1)[OF r[symmetric] Inl e rest] 2(4) fs by (auto dest: adds_dirs_keeps)
  next
    case (Inr x)
    then obtain m2 where c: "syscall sy (chmod_fs p mode) m1 = (Inr (), m2)" and rest: "mkdirs sy mode ps m2 = (Inr u, m')"
      using 2(3) r by (auto elim!: andThen_Inr)
    note made = mkdir_chmod[OF syscall_Inr[OF r[unfolded Inr]] syscall_Inr[OF c] 2(4)]
    have "adds_dirs sy mode (m_fs m2) (m_fs m') \<and> wf_files (m_fs m') \<and> (\<forall>q \<in> set ps. mget (m_fs m') q \<noteq> None)"
      using 2(2)[OF r[symmetric] Inr rest made(3)] .
    then show ?thesis
      using made(1,2) adds_dirs_trans adds_dirs_keeps by fastforce
  qed
qed

text \<open>
  Writing beside a file and renaming over it: afterwards the name holds the new file and the temporary one
  is gone. An existing temporary file is truncated but keeps its owner.
\<close>

definition replaced :: "path \<Rightarrow> node \<Rightarrow> files \<Rightarrow> files \<Rightarrow> bool" where
  "replaced dst k fs fs' =
     (\<forall>q. mget fs' q = (if q = dst then Some k else if q = tmp_of dst then None else mget fs q))"

lemma tmp_of_neq: "dst \<noteq> [] \<Longrightarrow> tmp_of dst \<noteq> dst" "butlast (tmp_of dst) = butlast dst" "tmp_of dst \<noteq> []"
  by (auto simp: tmp_of_def) (metis append_butlast_last_id last_snoc append_self_conv list.distinct(1))

lemma create_effect:
  assumes "create_fs sy p mode fs = Inr fs1" and "wf_files fs" and "\<not> IsDir mode"
  obtains n where "mget fs1 = (mget fs)(p \<mapsto> n)" and "\<not> IsDir (nd_mode n)" and "p \<noteq> [] \<Longrightarrow> is_dir fs (butlast p)"
    and "\<not> is_dir fs p" and "nd_uid n = (case mget fs p of None \<Rightarrow> sy_uid sy | Some k \<Rightarrow> nd_uid k)"
proof (cases "mget fs p")
  case None
  have "\<not> IsDir (mode AND NOT (sy_umask sy))" using assms(3) by (simp add: IsDir_bit bit_and_iff)
  then show ?thesis
    using that assms None by (auto simp: create_fs_def is_dir_def fun_eq_iff split: if_splits)
next
  case (Some k)
  then show ?thesis
    using that assms by (auto simp: create_fs_def is_dir_def wf_files_def fun_eq_iff split: if_splits)
qed

lemma rename_effect:
  assumes "rename_fs (tmp_of dst) dst c = Inr e" and "mget c = (mget fs)(tmp_of dst \<mapsto> k)"
    and "wf_files fs" and "\<not> is_dir fs (tmp_of dst)" and "is_dir fs (butlast dst)" and "\<not> IsDir (nd_mode k)" and "dst \<noteq> []"
  shows "replaced dst k fs e" and "wf_files e"
proof -
  have c: "\<not> is_dir c dst" and e: "e = mdel (tmp_of dst) (mput dst k c)"
    using assms(1,2) by (auto simp: rename_fs_def split: if_splits)
  show r: "replaced dst k fs e"
    using tmp_of_neq[of dst] assms(2,7) by (auto simp: replaced_def e)
  have old: "\<not> is_dir fs dst" using c assms(2) tmp_of_neq(1)[OF assms(7)] by (auto simp: is_dir_def)
  show "wf_files e"
    unfolding wf_files_def
  proof (intro allI impI)
    fix q n
    assume q: "mget e q = Some n" "q \<noteq> []"
    have "is_dir fs (butlast q)"
      using q r assms(3,5) by (cases "q = dst") (auto simp: replaced_def wf_files_def split: if_splits)
    moreover have "butlast q \<noteq> dst" "butlast q \<noteq> tmp_of dst" using calculation old assms(4) by auto
    ultimately show "is_dir e (butlast q)" using r by (auto simp: replaced_def is_dir_def)
  qed
qed

lemma replace_effect:
  assumes "create_fs sy (tmp_of dst) mode0 fs = Inr a" and "write_fs (tmp_of dst) d a = Inr b"
    and "chmod_fs (tmp_of dst) mode b = Inr c" and "rename_fs (tmp_of dst) dst c = Inr e"
    and "wf_files fs" and "\<not> IsDir mode0" and "\<not> IsDir mode" and "dst \<noteq> []"
  obtains k where "replaced dst k fs e" and "wf_files e" and "nd_mode k = mode" and "nd_data k = d"
    and "nd_uid k = (case mget fs (tmp_of dst) of None \<Rightarrow> sy_uid sy | Some t \<Rightarrow> nd_uid t)" and "is_dir fs (butlast dst)"
proof -
  from create_effect[OF assms(1,5,6)] obtain n where n: "mget a = (mget fs)(tmp_of dst \<mapsto> n)" "\<not> IsDir (nd_mode n)"
    "is_dir fs (butlast dst)" "\<not> is_dir fs (tmp_of dst)"
    "nd_uid n = (case mget fs (tmp_of dst) of None \<Rightarrow> sy_uid sy | Some k \<Rightarrow> nd_uid k)"
    using tmp_of_neq(2,3) by metis
  let ?k = "n\<lparr>nd_data := d, nd_mode := mode\<rparr>"
  have "mget c = (mget fs)(tmp_of dst \<mapsto> ?k)"
    using assms(2,3) n(1,2) by (auto simp: write_fs_def chmod_fs_def chmod_file fun_eq_iff)
  from rename_effect[OF assms(4) this assms(5) n(4,3) _ assms(8)] assms(7) n(5,3)
  show ?thesis by (intro that[of ?k]) auto
qed

lemma copyExecutable_effect:
  assumes "copyExecutable sy src dst m = (Inr u, m')" and "wf_files (m_fs m)" and "dst \<noteq> []"
  obtains n k where "mget (m_fs m) src = Some n" and "\<not> IsDir (nd_mode n)" and "replaced dst k (m_fs m) (m_fs m')"
    and "wf_files (m_fs m')" and "nd_mode k = 493" and "nd_data k = nd_data n"
    and "nd_uid k = (case mget (m_fs m) (tmp_of dst) of None \<Rightarrow> sy_uid sy | Some t \<Rightarrow> nd_uid t)"
proof -
  from assms(1) obtain d m0 m1 m2 m3 where o: "open_file sy src m = (Inr d, m0)"
    and s: "syscall sy (create_fs sy (tmp_of dst) 493) m0 = (Inr (), m1)" "syscall sy (write_fs (tmp_of dst) d) m1 = (Inr (), m2)"
      "syscall sy (chmod_fs (tmp_of dst) 493) m2 = (Inr (), m3)" "syscall sy (rename_fs (tmp_of dst) dst) m3 = (Inr u, m')"
    unfolding copyExecutable_def by (auto elim!: andThen_Inr)
  from replace_effect[OF s[THEN syscall_Inr] _ _ _ assms(3)] open_Inr[OF o] assms(2)
  show ?thesis using that by auto
qed

lemma writeFileAtomic_effect:
  assumes "writeFileAtomic sy dst d mode m = (Inr u, m')" and "wf_files (m_fs m)" and "dst \<noteq> []" and "\<not> IsDir mode"
  obtains k where "replaced dst k (m_fs m) (m_fs m')" and "wf_files (m_fs m')" and "nd_mode k = mode" and "nd_data k = d"
    and "nd_uid k = (case mget (m_fs m) (tmp_of dst) of None \<Rightarrow> sy_uid sy | Some t \<Rightarrow> nd_uid t)"
proof -
  from assms(1) obtain m1 m2 m3 where
    s: "syscall sy (create_fs sy (tmp_of dst) mode) m = (Inr (), m1)" "syscall sy (write_fs (tmp_of dst) d) m1 = (Inr (), m2)"
      "syscall sy (chmod_fs (tmp_of dst) mode) m2 = (Inr (), m3)" "syscall sy (rename_fs (tmp_of dst) dst) m3 = (Inr u, m')"
    unfolding writeFileAtomic_def by (auto elim!: andThen_Inr)
  from replace_effect[OF s[THEN syscall_Inr] assms(2,4,4,3)] show ?thesis using that by metis
qed

lemma write_at: "write_fs p d fs = Inr fs' \<Longrightarrow> mget fs = f(p \<mapsto> t) \<Longrightarrow> mget fs' = f(p \<mapsto> t\<lparr>nd_data := d\<rparr>)"
  by (auto simp: write_fs_def fun_eq_iff)

lemma chown_at: "chown_fs p u g fs = Inr fs' \<Longrightarrow> mget fs = f(p \<mapsto> t) \<Longrightarrow> mget fs' = f(p \<mapsto> t\<lparr>nd_uid := u, nd_gid := g\<rparr>)"
  by (auto simp: chown_fs_def fun_eq_iff)

lemma chmod_at:
  "chmod_fs p mode fs = Inr fs' \<Longrightarrow> mget fs = f(p \<mapsto> t) \<Longrightarrow> \<not> IsDir (nd_mode t) \<Longrightarrow> mget fs' = f(p \<mapsto> t\<lparr>nd_mode := mode\<rparr>)"
  by (auto simp: chmod_fs_def chmod_file fun_eq_iff)

lemma InstallExec_effect:
  assumes "InstallExec sy src dir gid m = (Inr dst, m')" and "wf_files (m_fs m)"
  obtains m1 n k where "mkdirAllMode sy dir installDirMode m = (Inr (), m1)" and "dst = dir @ [ExecName]"
    and "mget (m_fs m1) src = Some n" and "replaced dst k (m_fs m1) (m_fs m')" and "wf_files (m_fs m')"
    and "k = \<lparr>nd_uid = sy_uid sy, nd_gid = gid, nd_mode = 493 OR ModeSetgid, nd_data = nd_data n\<rparr>"
proof -
  let ?dst = "dir @ [ExecName]"
  from assms(1) obtain d m1 m2 m3 m4 m5 m6 where mk: "mkdirAllMode sy dir installDirMode m = (Inr (), m1)"
    and o: "open_file sy src m1 = (Inr d, m2)"
    and s: "syscall sy (create_fs sy (tmp_of ?dst) 493) m2 = (Inr (), m3)" "syscall sy (write_fs (tmp_of ?dst) d) m3 = (Inr (), m4)"
      "syscall sy (chown_fs (tmp_of ?dst) (sy_uid sy) gid) m4 = (Inr (), m5)"
      "syscall sy (chmod_fs (tmp_of ?dst) (493 OR ModeSetgid)) m5 = (Inr (), m6)"
      "syscall sy (rename_fs (tmp_of ?dst) ?dst) m6 = (Inr (), m')" and dst: "dst = ?dst"
    unfolding InstallExec_def Let_def by (auto elim!: andThen_Inr)
  have wf: "wf_files (m_fs m1)" using mkdirs_effect[OF mk[unfolded mkdirAllMode_def] assms(2)] by simp
  from open_Inr[OF o] obtain n where n: "mget (m_fs m1) src = Some n" "d = nd_data n" and fs: "m_fs m2 = m_fs m1" by auto
  from create_effect[OF syscall_Inr[OF s(1)] wf[folded fs]] obtain t where t: "mget (m_fs m3) = (mget (m_fs m1))(tmp_of ?dst \<mapsto> t)"
    "\<not> IsDir (nd_mode t)" "is_dir (m_fs m1) dir" "\<not> is_dir (m_fs m1) (tmp_of ?dst)"
    using tmp_of_neq(2,3)[of ?dst] fs by (metis IsDir_simps(3) butlast_snoc)
  let ?k = "\<lparr>nd_uid = sy_uid sy, nd_gid = gid, nd_mode = 493 OR ModeSetgid, nd_data = nd_data n\<rparr>"
  have "mget (m_fs m6) = (mget (m_fs m1))(tmp_of ?dst \<mapsto> ?k)"
    using chmod_at[OF syscall_Inr[OF s(4)] chown_at[OF syscall_Inr[OF s(3)] write_at[OF syscall_Inr[OF s(2)] t(1)]]] t(2) n(2)
    by (cases t) (simp add: fun_upd_def)
  from rename_effect[OF syscall_Inr[OF s(5)] this wf t(4)] t(3)
  show ?thesis using mk n(1) dst by (intro that[of m1 n ?k]) simp_all
qed

text \<open>The stages of a successful installation.\<close>

lemma Install_stages:
  assumes "Install p sy src m = (Inr res, m')"
  obtains m1 m2 m3 m4 m5 m6 m7 where
    "checkAll sy [path_str (InstallDirPath p), path_str (LaunchDirPath p), dir_str (pa_LogPath p)] m = (Inr (), m1)"
    and "EnsureGroup sy GroupName m1 = (Inr (ir_GID res), m2)"
    and "mkdirAllMode sy (InstallDirPath p) installDirMode m2 = (Inr (), m3)"
    and "chmod_fs (InstallDirPath p) installDirMode (m_fs m3) = Inr (m_fs m4)"
    and "copyExecutable sy (src @ [HelperName]) (InstallDirPath p @ [HelperName]) m4 = (Inr (), m5)"
    and "InstallExec sy (src @ [ExecName]) (InstallDirPath p) (ir_GID res) m5 = (Inr (ir_ExecPath res), m6)"
    and "mkdirAllMode sy (LaunchDirPath p) installDirMode m6 = (Inr (), m7)"
    and "\<exists>m8. writeFileAtomic sy (PlistPath p)
           (Plist DaemonLabel (path_str (InstallDirPath p @ [HelperName])) (pa_Socket p) (path_str (ir_ExecPath res))
              (path_str (InstallDirPath p)) (pa_LogPath p)) 420 m7 = (Inr (), m8) \<and> m_fs m8 = m_fs m'"
    and "ir_HelperPath res = InstallDirPath p @ [HelperName]" and "ir_PlistPath res = PlistPath p"
proof -
  from assms obtain m1 gid m2 m3 m4 m5 x m6 m7 m8 m9 m10 where
    s: "checkAll sy [path_str (InstallDirPath p), path_str (LaunchDirPath p), dir_str (pa_LogPath p)] m = (Inr (), m1)"
    "EnsureGroup sy GroupName m1 = (Inr gid, m2)"
    "mkdirAllMode sy (InstallDirPath p) installDirMode m2 = (Inr (), m3)"
    "syscall sy (chmod_fs (InstallDirPath p) installDirMode) m3 = (Inr (), m4)"
    "copyExecutable sy (src @ [HelperName]) (InstallDirPath p @ [HelperName]) m4 = (Inr (), m5)"
    "InstallExec sy (src @ [ExecName]) (InstallDirPath p) gid m5 = (Inr x, m6)"
    "mkdirAllMode sy (LaunchDirPath p) installDirMode m6 = (Inr (), m7)"
    "writeFileAtomic sy (PlistPath p)
           (Plist DaemonLabel (path_str (InstallDirPath p @ [HelperName])) (pa_Socket p) (path_str x)
              (path_str (InstallDirPath p)) (pa_LogPath p)) 420 m7 = (Inr (), m8)"
    "bootout sy m8 = (Inr (), m9)" "bootstrap sy (PlistPath p) m9 = (Inr (), m10)"
    and r: "res = \<lparr>ir_GID = gid, ir_HelperPath = InstallDirPath p @ [HelperName], ir_ExecPath = x, ir_PlistPath = PlistPath p\<rparr>" "m' = m10"
    unfolding Install_def Let_def by (auto elim!: andThen_Inr simp: saying_Inr simp del: checkAll.simps)
  have "m_fs m8 = m_fs m'" using bootout_fs[OF s(9)] bootstrap_fs[OF s(10)] r(2) by simp
  then show ?thesis using that s syscall_Inr[OF s(4)] r(1) by auto
qed

section \<open>What an installation leaves\<close>

lemma root_safe_modes [simp]:
  "Perm (ModeDir OR 493) AND 18 = 0" "Perm 493 AND 18 = 0" "Perm 420 AND 18 = 0" "Perm (493 OR ModeSetgid) AND 18 = 0"
  by (simp_all add: Perm_def ModeDir_def ModeSetgid_def bit.conj_disj_distrib2)

lemma chain_safe_adds:
  assumes "adds_dirs sy 493 fs fs'" and "sy_uid sy = 0" and "chain_safe fs d"
  shows "chain_safe fs' d"
  unfolding chain_safe_def
proof (intro allI impI)
  fix q n
  assume q: "below q d" "mget fs' q = Some n"
  then show "root_safe n"
    using assms unfolding adds_dirs_def chain_safe_def
    by (metis (no_types, lifting) option.inject root_safe_def root_safe_modes(1))
qed

lemma chain_safe_replaced: "replaced dst k fs fs' \<Longrightarrow> root_safe k \<Longrightarrow> chain_safe fs d \<Longrightarrow> chain_safe fs' d"
  by (auto simp: replaced_def chain_safe_def split: if_splits)

definition root_owned :: "files \<Rightarrow> path \<Rightarrow> bool" where
  "root_owned fs p = (case mget fs p of None \<Rightarrow> True | Some n \<Rightarrow> nd_uid n = 0)"

lemma checkAll_Inr:
  assumes "checkAll sy (path_str d # ds) m = (Inr u, m')" and "good_path d" and "wf_files (m_fs m)"
  obtains m1 where "chain_safe (m_fs m) d" and "checkAll sy ds m1 = (Inr u, m')" and "m_fs m1 = m_fs m"
  using assms CheckOwnership_chain[OF _ assms(2,3)] by (auto simp: saying_Inr elim!: andThen_Inr)

lemma wf_files_chain:
  assumes "wf_files fs" and "is_dir fs d" and "below q d"
  shows "is_dir fs q"
  using assms(2,3)
proof (induction d rule: rev_induct)
  case (snoc x d)
  show ?case
  proof (cases "q = d @ [x]")
    case False
    then have "below q d" using snoc.prems(2) by (auto simp: below_def take_Cons' split: if_splits)
    moreover have "is_dir fs d"
    proof (cases "mget fs (d @ [x])")
      case (Some n)
      then have "is_dir fs (butlast (d @ [x]))" using assms(1) unfolding wf_files_def by blast
      then show ?thesis by simp
    qed (use snoc.prems(1) in \<open>simp add: is_dir_def\<close>)
    ultimately show ?thesis using snoc.IH by blast
  qed (use snoc.prems in simp)
qed (simp add: below_def)

lemma adds_dirs_owned:
  assumes "adds_dirs sy 493 fs fs'" and "sy_uid sy = 0" and "root_owned fs p"
  shows "root_owned fs' p"
proof -
  from assms(1) consider "mget fs' p = mget fs p" | n where "mget fs' p = Some n" "nd_uid n = sy_uid sy"
    unfolding adds_dirs_def by blast
  then show ?thesis using assms(2,3) by cases (auto simp: root_owned_def)
qed

lemma names_differ:
  "x \<noteq> y \<Longrightarrow> a @ [x] \<noteq> b @ [y]" "tmp_of (a @ [x]) = a @ [x @ ''.tmp'']"
  by (auto simp: tmp_of_def)

lemma installed_names:
  "HelperName \<noteq> ExecName" "HelperName \<noteq> ExecName @ ''.tmp''" "HelperName \<noteq> DaemonLabel @ ''.plist''"
  "HelperName \<noteq> (DaemonLabel @ ''.plist'') @ ''.tmp''" "ExecName \<noteq> HelperName @ ''.tmp''"
  "ExecName \<noteq> DaemonLabel @ ''.plist''" "ExecName \<noteq> (DaemonLabel @ ''.plist'') @ ''.tmp''"
  "DaemonLabel @ ''.plist'' \<noteq> HelperName @ ''.tmp''" "DaemonLabel @ ''.plist'' \<noteq> ExecName @ ''.tmp''"
  "HelperName @ ''.tmp'' \<noteq> ExecName @ ''.tmp''"
  "(DaemonLabel @ ''.plist'') @ ''.tmp'' \<noteq> HelperName @ ''.tmp''" "(DaemonLabel @ ''.plist'') @ ''.tmp'' \<noteq> ExecName @ ''.tmp''"
  by (simp_all add: HelperName_def ExecName_def DaemonLabel_def)

text \<open>The invariant of the stages: both directory chains hold nothing a non-root user could change.\<close>

definition guarded :: "Paths \<Rightarrow> files \<Rightarrow> bool" where
  "guarded p fs = (wf_files fs \<and> chain_safe fs (InstallDirPath p) \<and> chain_safe fs (LaunchDirPath p))"

lemma mkdirAllMode_guarded:
  assumes "mkdirAllMode sy d installDirMode m = (Inr u, m')" and "sy_uid sy = 0" and "guarded p (m_fs m)"
  shows "guarded p (m_fs m')" and "adds_dirs sy 493 (m_fs m) (m_fs m')"
proof -
  note e = mkdirs_effect[OF assms(1)[unfolded mkdirAllMode_def installDirMode_def]]
  show a: "adds_dirs sy 493 (m_fs m) (m_fs m')" using e assms(3) by (simp add: guarded_def)
  show "guarded p (m_fs m')" using e assms(3) chain_safe_adds[OF a assms(2)] by (simp add: guarded_def)
qed

lemma chmod_guarded:
  assumes "chmod_fs d installDirMode fs = Inr fs'" and "guarded p fs"
  shows "guarded p fs'" and "\<And>q n. mget fs q = Some n \<Longrightarrow> \<exists>n'. mget fs' q = Some n' \<and> nd_data n' = nd_data n \<and> nd_uid n' = nd_uid n"
    and "\<And>q. mget fs q = None \<Longrightarrow> mget fs' q = None"
proof -
  from assms(1) obtain n where n: "mget fs d = Some n" and fs': "fs' = mput d (n\<lparr>nd_mode := (nd_mode n AND ModeDir) OR 493\<rparr>) fs"
    by (auto simp: chmod_fs_def installDirMode_def split: option.splits)
  show "\<exists>n'. mget fs' q = Some n' \<and> nd_data n' = nd_data k \<and> nd_uid n' = nd_uid k" if "mget fs q = Some k" for q k
    using that n by (auto simp: fs')
  show "mget fs q = None \<Longrightarrow> mget fs' q = None" for q using n by (auto simp: fs')
  have safe: "root_safe (n\<lparr>nd_mode := (nd_mode n AND ModeDir) OR 493\<rparr>)" if "root_safe n"
    using that chmod_file[of "nd_mode n" 493] chmod_dir[of "nd_mode n" 493] by (cases "IsDir (nd_mode n)") (auto simp: root_safe_def)
  have "wf_files fs'"
    unfolding fs' using assms(2) n by (intro wf_files_put) (auto simp: guarded_def wf_files_def is_dir_def chmod_dir)
  moreover have "chain_safe fs' c" if "chain_safe fs c" for c
    using that n safe by (auto simp: chain_safe_def fs')
  ultimately show "guarded p fs'" using assms(2) by (simp add: guarded_def)
qed

lemma replaced_guarded: "replaced dst k fs fs' \<Longrightarrow> wf_files fs' \<Longrightarrow> root_safe k \<Longrightarrow> guarded p fs \<Longrightarrow> guarded p fs'"
  using chain_safe_replaced by (auto simp: guarded_def)

lemma guarded_dirs:
  assumes "guarded p fs" and "d = InstallDirPath p \<or> d = LaunchDirPath p" and "mget fs (d @ [x]) \<noteq> None" and "q \<in> set (pathComponents d)"
  shows "\<exists>n. mget fs q = Some n \<and> root_safe n \<and> IsDir (nd_mode n)"
proof -
  have "is_dir fs d"
  proof -
    have "is_dir fs (butlast (d @ [x]))" using assms(1,3) unfolding guarded_def wf_files_def by blast
    then show ?thesis by simp
  qed
  then have "is_dir fs q" using assms(1,4) wf_files_chain by (auto simp: guarded_def in_pathComponents)
  then show ?thesis
    using assms(1,2,4) by (auto simp: is_dir_def guarded_def chain_safe_def in_pathComponents split: option.splits)
qed

lemma replaced_at: "replaced dst k fs fs' \<Longrightarrow> mget fs' dst = Some k"
  by (simp add: replaced_def)

lemma replaced_other: "replaced dst k fs fs' \<Longrightarrow> q \<noteq> dst \<Longrightarrow> q \<noteq> tmp_of dst \<Longrightarrow> mget fs' q = mget fs q"
  by (simp add: replaced_def)

lemma chmod_owned:
  assumes "chmod_fs d installDirMode fs = Inr fs'" and "guarded p fs" and "root_owned fs q"
  shows "root_owned fs' q"
  using chmod_guarded(2,3)[OF assms(1,2)] assms(3) unfolding root_owned_def
  by (cases "mget fs q") (fastforce split: option.splits)+

lemma owned_uid: "root_owned fs p \<Longrightarrow> sy_uid sy = 0 \<Longrightarrow> (case mget fs p of None \<Rightarrow> sy_uid sy | Some t \<Rightarrow> nd_uid t) = 0"
  by (auto simp: root_owned_def split: option.splits)

text \<open>Up to the binaries: what the stages before the property list have established.\<close>

lemma install_helper:
  assumes "guarded p (m_fs m2)" and "sy_uid sy = 0"
    and "mkdirAllMode sy (InstallDirPath p) installDirMode m2 = (Inr (), m3)"
    and "chmod_fs (InstallDirPath p) installDirMode (m_fs m3) = Inr (m_fs m4)"
    and "copyExecutable sy (src @ [HelperName]) (InstallDirPath p @ [HelperName]) m4 = (Inr (), m5)"
    and "mget (m_fs m2) (src @ [HelperName]) = Some h" and "mget (m_fs m2) (src @ [ExecName]) = Some x"
    and "root_owned (m_fs m2) (tmp_of (InstallDirPath p @ [HelperName]))" and "root_owned (m_fs m2) (tmp_of (PlistPath p))"
  obtains k x' where "guarded p (m_fs m5)" and "mget (m_fs m5) (InstallDirPath p @ [HelperName]) = Some k"
    and "nd_uid k = 0" and "nd_mode k = 493" and "nd_data k = nd_data h"
    and "mget (m_fs m5) (src @ [ExecName]) = Some x'" and "nd_data x' = nd_data x"
    and "root_owned (m_fs m5) (tmp_of (PlistPath p))"
proof -
  note neq = names_differ installed_names installed_names[symmetric]
  note G3 = mkdirAllMode_guarded[OF assms(3,2,1)]
  note G4 = chmod_guarded[OF assms(4) G3(1)]
  have own4: "root_owned (m_fs m4) q" if "root_owned (m_fs m2) q" for q
    using chmod_owned[OF assms(4) G3(1)] adds_dirs_owned[OF G3(2) assms(2)] that by simp
  have src4: "\<exists>n'. mget (m_fs m4) q = Some n' \<and> nd_data n' = nd_data n" if "mget (m_fs m2) q = Some n" for q n
    using G4(2)[OF adds_dirs_keeps[OF G3(2) that]] by blast
  have wf: "wf_files (m_fs m4)" using G4(1) by (simp add: guarded_def)
  obtain n k where n: "mget (m_fs m4) (src @ [HelperName]) = Some n"
    and k: "replaced (InstallDirPath p @ [HelperName]) k (m_fs m4) (m_fs m5)" "wf_files (m_fs m5)" "nd_mode k = 493" "nd_data k = nd_data n"
    "nd_uid k = (case mget (m_fs m4) (tmp_of (InstallDirPath p @ [HelperName])) of None \<Rightarrow> sy_uid sy | Some t \<Rightarrow> nd_uid t)"
    by (rule copyExecutable_effect[OF assms(5) wf]) simp_all
  have uid: "nd_uid k = 0" using k(5) owned_uid[OF own4[OF assms(8)] assms(2)] by simp
  have "guarded p (m_fs m5)" using replaced_guarded[OF k(1,2) _ G4(1)] k(3) uid by (simp add: root_safe_def)
  moreover obtain x' where "mget (m_fs m5) (src @ [ExecName]) = Some x'" "nd_data x' = nd_data x"
    using src4[OF assms(7)] replaced_other[OF k(1), of "src @ [ExecName]"] neq by auto
  moreover have "root_owned (m_fs m5) (tmp_of (PlistPath p))"
    using own4[OF assms(9)] replaced_other[OF k(1), of "tmp_of (PlistPath p)"] neq by (simp add: root_owned_def PlistPath_def)
  ultimately show ?thesis
    using that replaced_at[OF k(1)] uid k(3,4) src4[OF assms(6)] n by auto
qed

lemma install_exec:
  assumes "guarded p (m_fs m5)" and "sy_uid sy = 0"
    and "InstallExec sy (src @ [ExecName]) (InstallDirPath p) gid m5 = (Inr dst, m6)"
    and "mget (m_fs m5) (src @ [ExecName]) = Some x" and "root_owned (m_fs m5) (tmp_of (PlistPath p))"
  shows "guarded p (m_fs m6)" and "dst = InstallDirPath p @ [ExecName]"
    and "mget (m_fs m6) dst = Some \<lparr>nd_uid = 0, nd_gid = gid, nd_mode = 493 OR ModeSetgid, nd_data = nd_data x\<rparr>"
    and "mget (m_fs m5) (InstallDirPath p @ [HelperName]) = Some k \<Longrightarrow> mget (m_fs m6) (InstallDirPath p @ [HelperName]) = Some k"
    and "root_owned (m_fs m6) (tmp_of (PlistPath p))"
proof -
  note neq = names_differ installed_names installed_names[symmetric]
  have wf: "wf_files (m_fs m5)" using assms(1) by (simp add: guarded_def)
  obtain m1 n k where e: "mkdirAllMode sy (InstallDirPath p) installDirMode m5 = (Inr (), m1)" "dst = InstallDirPath p @ [ExecName]"
    "mget (m_fs m1) (src @ [ExecName]) = Some n" "replaced dst k (m_fs m1) (m_fs m6)" "wf_files (m_fs m6)"
    "k = \<lparr>nd_uid = sy_uid sy, nd_gid = gid, nd_mode = 493 OR ModeSetgid, nd_data = nd_data n\<rparr>"
    by (rule InstallExec_effect[OF assms(3) wf])
  note G1 = mkdirAllMode_guarded[OF e(1) assms(2,1)]
  show "guarded p (m_fs m6)" using replaced_guarded[OF e(4,5) _ G1(1)] e(6) assms(2) by (simp add: root_safe_def)
  show "dst = InstallDirPath p @ [ExecName]" by (rule e(2))
  show "mget (m_fs m6) dst = Some \<lparr>nd_uid = 0, nd_gid = gid, nd_mode = 493 OR ModeSetgid, nd_data = nd_data x\<rparr>"
    using replaced_at[OF e(4)] e(6) adds_dirs_keeps[OF G1(2) assms(4)] e(3) assms(2) by simp
  show "mget (m_fs m6) (InstallDirPath p @ [HelperName]) = Some k'" if "mget (m_fs m5) (InstallDirPath p @ [HelperName]) = Some k'" for k'
    using replaced_other[OF e(4), of "InstallDirPath p @ [HelperName]"] adds_dirs_keeps[OF G1(2) that] e(2) neq by simp
  have "root_owned (m_fs m1) (tmp_of (PlistPath p))" by (rule adds_dirs_owned[OF G1(2) assms(2,5)])
  then show "root_owned (m_fs m6) (tmp_of (PlistPath p))"
    using replaced_other[OF e(4), of "tmp_of (PlistPath p)"] e(2) neq by (simp add: root_owned_def PlistPath_def)
qed

lemma install_plist:
  assumes "guarded p (m_fs m6)" and "sy_uid sy = 0" and "mkdirAllMode sy (LaunchDirPath p) installDirMode m6 = (Inr (), m7)"
    and "writeFileAtomic sy (PlistPath p) d 420 m7 = (Inr (), m8)" and "root_owned (m_fs m6) (tmp_of (PlistPath p))"
  shows "guarded p (m_fs m8)" and "\<exists>n. mget (m_fs m8) (PlistPath p) = Some n \<and> nd_uid n = 0 \<and> nd_mode n = 420 \<and> nd_data n = d"
    and "mget (m_fs m6) (c @ [y]) = Some k \<Longrightarrow> y \<noteq> DaemonLabel @ ''.plist'' \<Longrightarrow> y \<noteq> (DaemonLabel @ ''.plist'') @ ''.tmp'' \<Longrightarrow>
         mget (m_fs m8) (c @ [y]) = Some k"
proof -
  note G7 = mkdirAllMode_guarded[OF assms(3,2,1)]
  have ne: "PlistPath p \<noteq> []" and wf: "wf_files (m_fs m7)" using G7(1) by (simp_all add: PlistPath_def guarded_def)
  obtain l where l: "replaced (PlistPath p) l (m_fs m7) (m_fs m8)" "wf_files (m_fs m8)" "nd_mode l = 420" "nd_data l = d"
    "nd_uid l = (case mget (m_fs m7) (tmp_of (PlistPath p)) of None \<Rightarrow> sy_uid sy | Some t \<Rightarrow> nd_uid t)"
    by (rule writeFileAtomic_effect[OF assms(4) wf ne]) simp_all
  have uid: "nd_uid l = 0" using l(5) owned_uid[OF adds_dirs_owned[OF G7(2) assms(2,5)] assms(2)] by simp
  show "guarded p (m_fs m8)" using replaced_guarded[OF l(1,2) _ G7(1)] l(3) uid by (simp add: root_safe_def)
  show "\<exists>n. mget (m_fs m8) (PlistPath p) = Some n \<and> nd_uid n = 0 \<and> nd_mode n = 420 \<and> nd_data n = d"
    using replaced_at[OF l(1)] l(3,4) uid by simp
  show "mget (m_fs m8) (c @ [y]) = Some k"
    if "mget (m_fs m6) (c @ [y]) = Some k" "y \<noteq> DaemonLabel @ ''.plist''" "y \<noteq> (DaemonLabel @ ''.plist'') @ ''.tmp''"
    using replaced_other[OF l(1), of "c @ [y]"] adds_dirs_keeps[OF G7(2) that(1)] that(2,3) names_differ
    by (simp add: PlistPath_def)
qed

lemma checkAll_guarded:
  assumes "checkAll sy [path_str (InstallDirPath p), path_str (LaunchDirPath p), l] m = (Inr u, m')" and "wf_files (m_fs m)"
  shows "guarded p (m_fs m)"
proof -
  have good: "good_path (InstallDirPath p)" "good_path (LaunchDirPath p)"
    by (simp_all add: InstallDirPath_def LaunchDirPath_def clean_path_good)
  obtain m1 where i: "chain_safe (m_fs m) (InstallDirPath p)" "checkAll sy [path_str (LaunchDirPath p), l] m1 = (Inr u, m')" "m_fs m1 = m_fs m"
    by (rule checkAll_Inr[OF assms(1) good(1) assms(2)])
  have "wf_files (m_fs m1)" using i(3) assms(2) by simp
  then have "chain_safe (m_fs m1) (LaunchDirPath p)" by (rule checkAll_Inr[OF i(2) good(2)])
  then show ?thesis using i assms(2) by (simp add: guarded_def)
qed

lemma installed_files:
  assumes "Install p sy src m = (Inr res, m')" and "wf_files (m_fs m)" and "sy_uid sy = 0"
    and "mget (m_fs m) (src @ [HelperName]) = Some h" and "mget (m_fs m) (src @ [ExecName]) = Some x"
    and "root_owned (m_fs m) (tmp_of (InstallDirPath p @ [HelperName]))" and "root_owned (m_fs m) (tmp_of (PlistPath p))"
  shows "\<forall>q \<in> set (pathComponents (InstallDirPath p)) \<union> set (pathComponents (LaunchDirPath p)).
           \<exists>n. mget (m_fs m') q = Some n \<and> root_safe n \<and> IsDir (nd_mode n)"
    and "\<exists>n. mget (m_fs m') (ir_HelperPath res) = Some n \<and> nd_uid n = 0 \<and> nd_mode n = 493 \<and> nd_data n = nd_data h"
    and "mget (m_fs m') (ir_ExecPath res) =
           Some \<lparr>nd_uid = 0, nd_gid = ir_GID res, nd_mode = 493 OR ModeSetgid, nd_data = nd_data x\<rparr>"
    and "\<exists>n. mget (m_fs m') (ir_PlistPath res) = Some n \<and> nd_uid n = 0 \<and> nd_mode n = 420 \<and>
           nd_data n = Plist DaemonLabel (path_str (ir_HelperPath res)) (pa_Socket p) (path_str (ir_ExecPath res))
             (path_str (InstallDirPath p)) (pa_LogPath p)"
proof -
  let ?I = "InstallDirPath p"
  obtain m1 m2 m3 m4 m5 m6 m7 where c: "checkAll sy [path_str ?I, path_str (LaunchDirPath p), dir_str (pa_LogPath p)] m = (Inr (), m1)"
    and g: "EnsureGroup sy GroupName m1 = (Inr (ir_GID res), m2)"
    and mk: "mkdirAllMode sy ?I installDirMode m2 = (Inr (), m3)" and ch: "chmod_fs ?I installDirMode (m_fs m3) = Inr (m_fs m4)"
    and cp: "copyExecutable sy (src @ [HelperName]) (?I @ [HelperName]) m4 = (Inr (), m5)"
    and ie: "InstallExec sy (src @ [ExecName]) ?I (ir_GID res) m5 = (Inr (ir_ExecPath res), m6)"
    and ml: "mkdirAllMode sy (LaunchDirPath p) installDirMode m6 = (Inr (), m7)"
    and wr: "\<exists>m8. writeFileAtomic sy (PlistPath p) (Plist DaemonLabel (path_str (?I @ [HelperName])) (pa_Socket p)
          (path_str (ir_ExecPath res)) (path_str ?I) (pa_LogPath p)) 420 m7 = (Inr (), m8) \<and> m_fs m8 = m_fs m'"
    and res: "ir_HelperPath res = ?I @ [HelperName]" "ir_PlistPath res = PlistPath p"
    by (rule Install_stages[OF assms(1)])
  have fs: "m_fs m2 = m_fs m" using EnsureGroup_fs[OF g] checkAll_machine[OF c] by simp
  note early = assms(4-7)[folded fs]
  have G2: "guarded p (m_fs m2)" using checkAll_guarded[OF c assms(2)] fs by simp
  obtain k x' where G5: "guarded p (m_fs m5)" and k: "mget (m_fs m5) (?I @ [HelperName]) = Some k" "nd_uid k = 0" "nd_mode k = 493"
    "nd_data k = nd_data h" and x': "mget (m_fs m5) (src @ [ExecName]) = Some x'" "nd_data x' = nd_data x"
    and own5: "root_owned (m_fs m5) (tmp_of (PlistPath p))"
    by (rule install_helper[OF G2 assms(3) mk ch cp early])
  note e = install_exec[OF G5 assms(3) ie x'(1) own5]
  from wr obtain m8 where w: "writeFileAtomic sy (PlistPath p) (Plist DaemonLabel (path_str (?I @ [HelperName])) (pa_Socket p)
          (path_str (ir_ExecPath res)) (path_str ?I) (pa_LogPath p)) 420 m7 = (Inr (), m8)" and fs8: "m_fs m8 = m_fs m'" by blast
  note l = install_plist[OF e(1) assms(3) ml w e(5), unfolded fs8]
  have H: "mget (m_fs m') (?I @ [HelperName]) = Some k" using l(3)[OF e(4)[OF k(1)]] installed_names by simp
  show "mget (m_fs m') (ir_ExecPath res) = Some \<lparr>nd_uid = 0, nd_gid = ir_GID res, nd_mode = 493 OR ModeSetgid, nd_data = nd_data x\<rparr>"
    using l(3)[of ?I ExecName] e(2,3) x'(2) installed_names by simp
  show "\<exists>n. mget (m_fs m') (ir_HelperPath res) = Some n \<and> nd_uid n = 0 \<and> nd_mode n = 493 \<and> nd_data n = nd_data h"
    using H k res(1) by simp
  show "\<exists>n. mget (m_fs m') (ir_PlistPath res) = Some n \<and> nd_uid n = 0 \<and> nd_mode n = 420 \<and>
           nd_data n = Plist DaemonLabel (path_str (ir_HelperPath res)) (pa_Socket p) (path_str (ir_ExecPath res))
             (path_str ?I) (pa_LogPath p)"
    using l(2) res by simp
  have "mget (m_fs m') (LaunchDirPath p @ [DaemonLabel @ ''.plist'']) \<noteq> None" using l(2) by (auto simp: PlistPath_def)
  then show "\<forall>q \<in> set (pathComponents ?I) \<union> set (pathComponents (LaunchDirPath p)).
           \<exists>n. mget (m_fs m') q = Some n \<and> root_safe n \<and> IsDir (nd_mode n)"
    using guarded_dirs[OF l(1), of ?I HelperName] guarded_dirs[OF l(1), of "LaunchDirPath p"] H by blast
qed


text \<open>A successful check speaks for every directory it was given.\<close>

lemma checkAll_safe:
  assumes "checkAll sy ds m = (Inr u, m')" and "wf_files (m_fs m)" and "path_str d \<in> set ds" and "good_path d"
    and "below q d" and "mget (m_fs m) q = Some n"
  shows "root_safe n \<and> IsDir (nd_mode n)"
  using assms(1-3,6)
proof (induction ds arbitrary: m)
  case (Cons e ds)
  obtain v m1 where m1: "CheckOwnership sy e m = (Inr v, m1)" "checkAll sy ds m1 = (Inr u, m')"
    using Cons.prems(1) by (auto simp: saying_Inr elim!: andThen_Inr)
  show ?case
  proof (cases "e = path_str d")
    case True
    then have "own_check sy (pathComponents d) m = (Inr v, m1)"
      using m1(1) assms(4) by (simp add: CheckOwnership_def clean_path_str)
    then show ?thesis using own_check_chain Cons.prems(2,4) assms(5) by blast
  next
    case False
    have "m_fs m1 = m_fs m"
      using m1(1) own_check_machine by (fastforce simp: CheckOwnership_def split: if_splits)
    then show ?thesis using Cons.IH[OF m1(2)] Cons.prems(2-4) False by simp
  qed
qed simp

text \<open>C14: The helper is not installed below a directory that somebody else can write: if any component of the
  install directory, the launchd directory or the log directory belongs to another user, is writable by its group
  or the world, or is not a directory, \<^verbatim>\<open>Install\<close> fails before it changes a file or runs a command.\<close>

theorem install_refuses_foreign_directories:
  assumes "wf_files (m_fs m)" and "d \<in> {InstallDirPath p, LaunchDirPath p, butlast (clean_path (pa_LogPath p))}"
    and "is_abs (pa_LogPath p)" and "q \<in> set (pathComponents d)" and "mget (m_fs m) q = Some n"
    and "nd_uid n \<noteq> 0 \<or> Perm (nd_mode n) AND 18 \<noteq> 0 \<or> \<not> IsDir (nd_mode n)"
  shows "\<exists>e m'. Install p sy src m = (Inl e, m') \<and> m_fs m' = m_fs m \<and> m_ext m' = m_ext m"
proof -
  let ?ds = "[path_str (InstallDirPath p), path_str (LaunchDirPath p), dir_str (pa_LogPath p)]"
  obtain r m1 where c: "checkAll sy ?ds m = (r, m1)" by fastforce
  have "good_path (butlast (clean_path (pa_LogPath p)))"
    using clean_path_good[of "pa_LogPath p"] by (auto simp: good_path_def list_all_iff dest: in_set_butlastD)
  then have good: "good_path d" using assms(2) by (auto simp: InstallDirPath_def LaunchDirPath_def clean_path_good)
  have "path_str d \<in> set ?ds" using assms(2,3) by (auto simp: dir_str_def)
  then have "r \<noteq> Inr ()"
    using checkAll_safe[OF _ assms(1) _ good _ assms(5), of sy ?ds "()" m1] c assms(4,6)
    unfolding in_pathComponents root_safe_def by blast
  then obtain e where "r = Inl e" by (cases r) auto
  then show ?thesis
    using c checkAll_machine[OF c] by (simp add: Install_def Let_def andThen_def[of "checkAll sy ?ds"] del: checkAll.simps)
qed

section \<open>An installation\<close>

definition demo_run :: "string list \<Rightarrow> nat option \<Rightarrow> (string \<times> string option) \<times> nat option" where
  "demo_run args s =
     (if args ! 0 = ''launchctl'' then (('''', None), s)
      else if args ! 2 = ''-read'' then
        (case s of Some g \<Rightarrow> ((''PrimaryGroupID: '' @ itoa g, None), s) | None \<Rightarrow> (('''', Some ''eDSRecordNotFound''), s))
      else if args ! 2 = ''-search'' then (('''', None), s)
      else if args ! 2 = ''-create'' then (('''', None), parse_digits (args ! 5))
      else (('''', None), None))"

definition demo_sys :: "nat option sys" where
  "demo_sys = \<lparr>sy_uid = 0, sy_umask = 63, sy_fault = (\<lambda>_. None), sy_run = demo_run\<rparr>"

definition root_dir :: node where
  "root_dir = \<lparr>nd_uid = 0, nd_gid = 0, nd_mode = ModeDir OR 493, nd_data = ''''\<rparr>"

definition user_file :: "string \<Rightarrow> node" where
  "user_file d = \<lparr>nd_uid = 501, nd_gid = 20, nd_mode = 493, nd_data = d\<rparr>"

definition demo_paths :: Paths where
  "demo_paths = \<lparr>pa_Root = ''/'', pa_LaunchDir = ''/l'', pa_InstallDir = ''/i'', pa_Socket = ''/s'', pa_LogPath = ''/v/g''\<rparr>"

definition demo_machine :: "nat option machine" where
  "demo_machine = \<lparr>m_fs = [([], root_dir), ([''i''], root_dir), ([''l''], root_dir), ([''v''], root_dir), ([''b''], root_dir),
     ([''b'', HelperName], user_file ''h''), ([''b'', ExecName], user_file ''x'')], m_ext = None, m_ops = 0\<rparr>"

definition succeeds :: "(install_error + 'a) \<times> 's machine \<Rightarrow> bool" where
  "succeeds r = (case fst r of Inl _ \<Rightarrow> False | Inr _ \<Rightarrow> True)"

lemma succeeds_iff: "succeeds r \<longleftrightarrow> (\<exists>x m. r = (Inr x, m))"
  by (cases r) (auto simp: succeeds_def split: sum.splits)

lemma demo_wf: "wf_files (m_fs demo_machine)"
  by (auto simp: wf_files_def demo_machine_def is_dir_def root_dir_def split: if_splits)

text \<open>The evaluation of the example leaves the text of the property list alone.\<close>

declare Plist_def [code del]


declare Plist_def [code]

theorem install_refuses_foreign_directories_witness:
  "\<exists>e m'. Install (demo_paths\<lparr>pa_InstallDir := ''/b/tetherd-exec''\<rparr>) demo_sys [''b''] demo_machine = (Inl e, m') \<and>
     m_fs m' = m_fs demo_machine \<and> m_ext m' = m_ext demo_machine"
  by (rule install_refuses_foreign_directories[OF demo_wf,
        where q = "[''b'', ExecName]" and n = "user_file ''x''" and d = "InstallDirPath (demo_paths\<lparr>pa_InstallDir := ''/b/tetherd-exec''\<rparr>)"])
     (simp, code_simp, code_simp, simp_all add: demo_machine_def HelperName_def ExecName_def user_file_def)

text \<open>
  The proviso is needed: a temporary file another user left in the install directory is truncated and renamed with
  its owner, and that user then owns the binary root runs.
\<close>

definition planted_machine :: "nat option machine" where
  "planted_machine = demo_machine\<lparr>m_fs := m_fs demo_machine @ [([''i'', HelperName @ ''.tmp''], user_file ''evil'')]\<rparr>"

lemma planted_owner_survives:
  "case copyExecutable demo_sys [''b'', HelperName] [''i'', HelperName] planted_machine of
     (Inr _, m') \<Rightarrow> map_option nd_uid (mget (m_fs m') [''i'', HelperName]) = Some 501
   | (Inl _, _) \<Rightarrow> False"
  by code_simp

section \<open>Uninstalling\<close>

lemma step_machines:
  "snd (saying w a m) = snd (a m)" "snd (ignore_missing a m) = snd (a m)"
  "snd (all_steps (a # as) m) = snd (all_steps as (snd (a m)))"
  by (auto simp: saying_def ignore_missing_def split: prod.splits sum.splits install_error.splits)

lemma Uninstall_machine:
  "snd (Uninstall p sy m) =
     snd (syscall sy (removeAll_fs (InstallDirPath p)) (snd (delete_group sy (snd (syscall sy (remove_fs (PlistPath p)) (snd (bootout sy m)))))))"
proof -
  have "snd (Uninstall p sy m) = snd (all_steps
        [saying (''launchctl bootout system/'' @ DaemonLabel) (bootout sy),
         saying (''remove '' @ path_str (PlistPath p)) (ignore_missing (syscall sy (remove_fs (PlistPath p)))),
         delete_group sy,
         saying (''remove '' @ path_str (InstallDirPath p)) (syscall sy (removeAll_fs (InstallDirPath p)))] m)"
    unfolding Uninstall_def by (auto split: prod.splits list.splits)
  also have "\<dots> = snd (syscall sy (removeAll_fs (InstallDirPath p)) (snd (delete_group sy (snd (syscall sy (remove_fs (PlistPath p)) (snd (bootout sy m)))))))"
    unfolding step_machines by simp
  finally show ?thesis .
qed

lemma command_ops:
  "bootout sy m = (r, m') \<Longrightarrow> m_ops m' = m_ops m" "delete_group sy m = (r, m') \<Longrightarrow> m_ops m' = m_ops m \<and> m_fs m' = m_fs m"
proof -
  have run: "m_ops m' = m_ops m \<and> m_fs m' = m_fs m" if "run_cmd sy args m = (r, m')" for args m r m'
    using that by (auto simp: run_cmd_def split: prod.splits)
  show "bootout sy m = (r, m') \<Longrightarrow> m_ops m' = m_ops m"
    using run by (fastforce simp: bootout_def split: prod.splits option.splits if_splits)
  have g: "m_ops m' = m_ops m \<and> m_fs m' = m_fs m" if "GroupGID sy n m = (r, m')" for n m r m'
    using that run by (fastforce simp: GroupGID_def split: prod.splits option.splits if_splits)
  show "delete_group sy m = (r, m') \<Longrightarrow> m_ops m' = m_ops m \<and> m_fs m' = m_fs m"
    by (auto simp: delete_group_def split: prod.splits sum.splits option.splits dest!: g run)
qed

text \<open>
  Whatever the other steps did, the last one is taken: once its own system call works, nothing is left below the
  install directory and no other file has changed except the property list.
\<close>

lemma uninstall_reaches_the_end:
  assumes "Uninstall p sy m = (r, m')" and "sy_fault sy (m_ops m + 1) = None"
  shows "below (InstallDirPath p) q \<Longrightarrow> mget (m_fs m') q = None"
    and "\<not> below (InstallDirPath p) q \<Longrightarrow> q \<noteq> PlistPath p \<Longrightarrow> mget (m_fs m') q = mget (m_fs m) q"
proof -
  obtain r1 m1 where 1: "bootout sy m = (r1, m1)" by fastforce
  obtain r2 m2 where 2: "syscall sy (remove_fs (PlistPath p)) m1 = (r2, m2)" by fastforce
  obtain r3 m3 where 3: "delete_group sy m2 = (r3, m3)" by fastforce
  have ops: "m_ops m3 = m_ops m + 1" "m_fs m3 = m_fs m2" "m_fs m1 = m_fs m"
    using command_ops(1)[OF 1] command_ops(2)[OF 3] bootout_fs[OF 1] 2
    by (auto simp: syscall_def Let_def split: option.splits sum.splits)
  have m2: "m_fs m2 = m_fs m \<or> m_fs m2 = mdel (PlistPath p) (m_fs m)"
    using 2 ops(3) by (auto simp: syscall_def remove_fs_def Let_def split: option.splits sum.splits if_splits)
  obtain m4 where 4: "syscall sy (removeAll_fs (InstallDirPath p)) m3 = (Inr (), m4)"
    and m4: "m_fs m4 = filter (\<lambda>(q, _). \<not> below (InstallDirPath p) q) (m_fs m2)"
    using assms(2) ops by (simp add: syscall_def removeAll_fs_def Let_def)
  have "m' = m4"
    using Uninstall_machine[of p sy m] assms(1) 1 2 3 4 by simp
  moreover have f: "map_of (filter (\<lambda>(q, _). P q) xs) q = (if P q then map_of xs q else None)" for P q and xs :: files
    by (induction xs) auto
  ultimately show "below (InstallDirPath p) q \<Longrightarrow> mget (m_fs m') q = None"
    and "\<not> below (InstallDirPath p) q \<Longrightarrow> q \<noteq> PlistPath p \<Longrightarrow> mget (m_fs m') q = mget (m_fs m) q"
    using m2 by (auto simp: m4 f)
qed

end
