(* ===== verification/DoctorChecks.thy ===== *)
theory DoctorChecks
  imports Status StealServer HelperInstall
begin

text \<open>
  The judgements of \<^verbatim>\<open>tetherd doctor\<close> (\<^verbatim>\<open>internal/doctor\<close>): each is a function of the facts the
  caller gathered. An error is given as the text \<^verbatim>\<open>Error()\<close> returns, which is all a judgement reads of it.
  The facts about the target group are \<open>tg_facts\<close>.
\<close>

section \<open>Results and the report\<close>

datatype dstatus = OK | Warn | Fail | Unknown

record dresult =
  r_Name :: string
  r_Status :: dstatus
  r_Detail :: string
  r_Next :: string

definition mark :: "dstatus \<Rightarrow> string" where
  "mark s =
     (case s of
        OK \<Rightarrow> [CHR 0xE2, CHR 0x9C, CHR 0x93]
      | Warn \<Rightarrow> [CHR 0xE2, CHR 0x9A, CHR 0xA0]
      | Unknown \<Rightarrow> ''?''
      | Fail \<Rightarrow> [CHR 0xE2, CHR 0x9C, CHR 0x97])"

definition rune_count :: "string \<Rightarrow> nat" where
  "rune_count s = length (rune_texts s)"

definition pad :: "string \<Rightarrow> nat \<Rightarrow> string" where
  "pad s width = (let n = int width - int (rune_count s) in if 0 < n then s @ replicate (nat n) CHR '' '' else s)"

definition report_line :: "string \<Rightarrow> string" where
  "report_line s = trim_right_by (\<lambda>c. c = CHR '' '') s @ [lf]"

definition arrow :: string where "arrow = [CHR 0xE2, CHR 0x86, CHR 0x92]"
definition section_sign :: string where "section_sign = [CHR 0xC2, CHR 0xA7]"

definition name_width :: "dresult list \<Rightarrow> nat" where
  "name_width results = foldl (\<lambda>w r. if w < rune_count (r_Name r) then rune_count (r_Name r) else w) 0 results"

fun render_rows :: "nat \<Rightarrow> dresult list \<Rightarrow> string list \<times> nat" where
  "render_rows width [] = ([], 0)"
| "render_rows width (r # rs) =
     (let out = [report_line (mark (r_Status r) @ '' '' @ pad (r_Name r) width @ ''  '' @ r_Detail r)] @
                (if r_Status r \<noteq> OK \<and> r_Next r \<noteq> '''' then
                   [report_line (''  '' @ pad '''' width @ ''  '' @ arrow @ '' '' @ r_Next r)] else [])
      in case render_rows width rs of (ls, failed) \<Rightarrow> (out @ ls, (if r_Status r = Fail then 1 else 0) + failed))"

definition Render :: "dresult list \<Rightarrow> string list \<times> nat" where
  "Render results = render_rows (name_width results) results"

section \<open>The machine\<close>

definition green :: "string \<Rightarrow> string \<Rightarrow> dresult" where
  "green name detail = \<lparr>r_Name = name, r_Status = OK, r_Detail = detail, r_Next = ''''\<rparr>"

definition row :: "string \<Rightarrow> dstatus \<Rightarrow> string \<Rightarrow> string \<Rightarrow> dresult" where
  "row name st detail nxt = \<lparr>r_Name = name, r_Status = st, r_Detail = detail, r_Next = nxt\<rparr>"

definition CheckHelper :: "string \<Rightarrow> string option \<Rightarrow> dresult" where
  "CheckHelper protocol dialErr =
     (case dialErr of
        Some e \<Rightarrow> row ''helper'' Fail e
          (''sudo tetherd-helper install  (then: sudo launchctl kickstart -k system/'' @ DaemonLabel @ '')'')
      | None \<Rightarrow> green ''helper'' (''answered, protocol '' @ protocol))"

text \<open>\<^verbatim>\<open>%04o\<close>.\<close>

fun otoa :: "nat \<Rightarrow> string" where
  "otoa n = (if n < 8 then [char_of (48 + n)] else otoa (n div 8) @ [char_of (48 + n mod 8)])"

declare otoa.simps [simp del]

definition octal4 :: "FileMode \<Rightarrow> string" where
  "octal4 m = (let s = otoa (unat m) in replicate (4 - length s) CHR ''0'' @ s)"

definition CheckExecSetgid :: "string \<Rightarrow> FileMode \<Rightarrow> nat \<Rightarrow> nat \<Rightarrow> bool \<Rightarrow> string option \<Rightarrow> dresult" where
  "CheckExecSetgid path mode fileGID groupGID groupFound statErr =
     (let name = ''setgid tetherd-exec''; nxt = ''sudo tetherd-helper install'' in
      if \<not> groupFound then row name Fail ''the tetherd group does not exist'' nxt
      else case statErr of
        Some e \<Rightarrow> row name Fail (path @ '': '' @ e) nxt
      | None \<Rightarrow>
          if mode AND ModeSetgid = 0 then
            row name Fail (path @ '' is mode '' @ octal4 (Perm mode) @ '', not setgid'') nxt
          else if fileGID \<noteq> groupGID then
            row name Fail (path @ '' is setgid to gid '' @ itoa fileGID @ '', not the tetherd group (gid '' @ itoa groupGID @ '')'') nxt
          else green name (path @ '' is setgid to the tetherd group (gid '' @ itoa groupGID @ '')''))"

definition CheckPlugin :: "string \<Rightarrow> bool \<Rightarrow> dresult" where
  "CheckPlugin path lookErr =
     (if lookErr then row ''session-manager-plugin'' Fail ''not on PATH'' ''brew install --cask session-manager-plugin''
      else green ''session-manager-plugin'' path)"

definition CheckIdentity :: "string + string \<Rightarrow> dresult" where
  "CheckIdentity r =
     (case r of
        Inl e \<Rightarrow> row ''your AWS identity'' Fail e
          ''authenticate for the profile in .tetherd.yml (for example: aws sso login --profile <name>)''
      | Inr arn \<Rightarrow> green ''your AWS identity'' arn)"

section \<open>The service\<close>

text \<open>\<^verbatim>\<open>Format("2006-01-02 15:04")\<close> of a time in UTC: year 1 begins at 0.\<close>

definition leap :: "nat \<Rightarrow> bool" where
  "leap y = (y mod 4 = 0 \<and> (y mod 100 \<noteq> 0 \<or> y mod 400 = 0))"

definition year_day :: "nat \<Rightarrow> nat \<times> nat" where
  "year_day d =
     (let n400 = d div 146097; d = d mod 146097; n100 = min 3 (d div 36524); d = d - 36524 * n100;
          n4 = d div 1461; d = d mod 1461; n1 = min 3 (d div 365); d = d - 365 * n1
      in (400 * n400 + 100 * n100 + 4 * n4 + n1 + 1, d))"

definition month_lengths :: "bool \<Rightarrow> nat list" where
  "month_lengths l = [31, if l then 29 else 28, 31, 30, 31, 30, 31, 31, 30, 31, 30, 31]"

fun month_day :: "nat \<Rightarrow> nat list \<Rightarrow> nat \<Rightarrow> nat \<times> nat" where
  "month_day m [] d = (m, d + 1)"
| "month_day m (l # ls) d = (if d < l then (m, d + 1) else month_day (m + 1) ls (d - l))"

definition zeros :: "nat \<Rightarrow> nat \<Rightarrow> string" where
  "zeros w n = (let s = itoa n in replicate (w - length s) CHR ''0'' @ s)"

definition format_minute :: "time \<Rightarrow> string" where
  "format_minute t =
     (let s = nat (t div second); (y, yd) = year_day (s div 86400); (mo, d) = month_day 1 (month_lengths (leap y)) yd
      in zeros 4 y @ ''-'' @ zeros 2 mo @ ''-'' @ zeros 2 d @ '' '' @ zeros 2 (s div 3600 mod 24) @ '':'' @ zeros 2 (s div 60 mod 60))"

definition CheckTask :: "string + task \<Rightarrow> dresult" where
  "CheckTask r =
     (case r of
        Inl e \<Rightarrow> row ''attachable task'' Fail e
          ''grant ecs:ListTasks / ecs:DescribeTasks, or enable ECS Exec on the service and deploy the tetherd-agent sidecar (see deploy/dev-env)''
      | Inr tk \<Rightarrow> green ''attachable task'' (t_ID tk @ '' (started '' @ format_minute (t_StartedAt tk) @ '')''))"

definition CheckPIDMode :: "string + string \<Rightarrow> dresult" where
  \<open>CheckPIDMode r =
     (case r of
        Inl e \<Rightarrow> row ''pidMode'' Fail e ''grant ecs:DescribeTaskDefinition, or run with --no-env''
      | Inr mode \<Rightarrow>
          if mode \<noteq> ''task'' then
            row ''pidMode'' Fail (''the task definition sets pidMode '' @ quoted mode)
              ''set "pidMode": "task" on the task definition, or run with --no-env''
          else green ''pidMode'' ''task'')\<close>

section \<open>The target group\<close>

definition TargetGroupHTTP1 :: string where "TargetGroupHTTP1 = ''HTTP1''"

definition protocolName :: "string \<Rightarrow> string" where
  "protocolName protocol = (if protocol = '''' then ''a protocol it does not report'' else protocol)"

text \<open>\<^verbatim>\<open>net.SplitHostPort\<close>: the port, if the text is an address.\<close>

definition split_port :: "string \<Rightarrow> string option" where
  "split_port s =
     (case after_last CHR '':'' s of
        None \<Rightarrow> None
      | Some port \<Rightarrow>
          let i = length s - length port - 1 in
          if hd s = CHR ''['' then
            (case cut CHR '']'' s of
               None \<Rightarrow> None
             | Some (pre, _) \<Rightarrow>
                 let end' = length pre in
                 if end' + 1 \<noteq> i then None
                 else if CHR ''['' \<in> set (drop 1 s) then None
                 else if CHR '']'' \<in> set (drop (end' + 1) s) then None
                 else Some port)
          else if CHR '':'' \<in> set (take i s) then None
          else if CHR ''['' \<in> set s then None
          else if CHR '']'' \<in> set s then None
          else Some port)"

text \<open>\<^verbatim>\<open>strconv.Atoi\<close>.\<close>

definition atoi :: "string \<Rightarrow> int option" where
  "atoi s =
     (let (neg, ds) = (case s of c # r \<Rightarrow> if c = CHR ''-'' then (True, r) else if c = CHR ''+'' then (False, r) else (False, s)
                       | [] \<Rightarrow> (False, s))
      in case parse_digits ds of
           None \<Rightarrow> None
         | Some n \<Rightarrow> if neg then (if n \<le> 2 ^ 63 then Some (- int n) else None) else (if n < 2 ^ 63 then Some (int n) else None))"

definition proxyPort :: "string \<Rightarrow> int option" where
  "proxyPort proxy =
     (if proxy = '''' then Some (int DefaultProxyPort)
      else case split_port proxy of
        None \<Rightarrow> None
      | Some port \<Rightarrow> (case atoi port of None \<Rightarrow> None | Some n \<Rightarrow> if n \<le> 0 then None else Some n))"

definition proxySource :: "string \<Rightarrow> string" where
  "proxySource proxy =
     (if proxy = '''' then ''the agent's default proxy port; the agent container sets no TETHERD_PROXY''
      else ''TETHERD_PROXY='' @ proxy)"

definition CheckTargetGroup :: "string + tg_facts \<Rightarrow> dresult" where
  "CheckTargetGroup r =
     (case r of
        Inl e \<Rightarrow> row ''target group'' Unknown (''not checked: '' @ e)
          ''grant elasticloadbalancing:DescribeTargetGroups (it takes no resource ARN, so the statement's Resource is *) and ecs:DescribeServices; only this row reads them, and steal works or does not work either way''
      | Inr tg \<Rightarrow>
          let name = (if tf_Name tg = '''' then ''the target group'' else tf_Name tg); http1 = name @ '' is '' @ TargetGroupHTTP1 in
          if tf_ProtocolVersion tg = '''' then
            row ''target group'' Unknown
              (''not checked: '' @ name @ '' routes '' @ protocolName (tf_Protocol tg) @ '', and a protocol version is reported for HTTP and HTTPS target groups only'')
              (''nothing, if that is deliberate; spec '' @ section_sign @ ''5.1 describes steal behind an ALB's HTTP target group, and this row can only check one of those'')
          else if tf_ProtocolVersion tg \<noteq> TargetGroupHTTP1 then
            row ''target group'' Fail
              (name @ '' has protocol_version '' @ tf_ProtocolVersion tg @ ''; steal needs '' @ TargetGroupHTTP1)
              ''recreate the target group with protocol_version HTTP1 (ModifyTargetGroup cannot change it); the agent is an HTTP/1.1 server, so behind this group the ALB's health check fails and no request reaches it, stolen or not''
          else case proxyPort (tf_AgentProxy tg) of
            None \<Rightarrow>
              row ''target group'' Warn
                (http1 @ '' on port '' @ itoa_int (tf_Port tg) @ '', but the agent container's TETHERD_PROXY is '' @ quoted (tf_AgentProxy tg) @
                 '', which is not an address, so the two cannot be compared'')
                (''set TETHERD_PROXY on the agent container to an address the ALB can reach (host:port), or unset it to take the default 0.0.0.0:'' @ itoa DefaultProxyPort)
          | Some agentPort \<Rightarrow>
              if tf_Port tg = 0 then
                row ''target group'' Warn
                  (http1 @ '' but names no port, so where the ALB would deliver cannot be compared against the agent's '' @ itoa_int agentPort)
                  ''check the target group's port is the port the agent listens on''
              else if tf_Port tg \<noteq> agentPort then
                row ''target group'' Warn
                  (http1 @ '' on port '' @ itoa_int (tf_Port tg) @ '', but the agent serves the ALB on '' @ itoa_int agentPort @ '' ('' @ proxySource (tf_AgentProxy tg) @ '')'')
                  ''point the target group at the port the agent listens on, or set TETHERD_PROXY on the agent container to the target group's port; if the two are deliberately different this row cannot tell, and steal still works''
              else green ''target group''
                (http1 @ '' on port '' @ itoa_int (tf_Port tg) @ '', where the agent serves the ALB ('' @ proxySource (tf_AgentProxy tg) @ '')''))"

section \<open>The agent\<close>

definition CheckAgentSession :: "string \<Rightarrow> string \<Rightarrow> string \<Rightarrow> string option \<Rightarrow> dresult" where
  "CheckAgentSession protocol agentEnv wantEnv dialErr =
     (case dialErr of
        Some e \<Rightarrow> row ''agent session'' Fail e
          ''check the tetherd-agent sidecar is running in the task and listening on its control port (see deploy/dev-env)''
      | None \<Rightarrow>
          if agentEnv \<noteq> wantEnv then
            row ''agent session'' Fail (''the agent reports TETHERD_ENV='' @ quoted agentEnv @ '', expected '' @ quoted wantEnv)
              ''point tetherd at the environment the agent is in (--env / target.env in .tetherd.yml), or check --cluster''
          else green ''agent session'' (''handshake ok, protocol '' @ protocol @ '', TETHERD_ENV='' @ agentEnv))"

definition CheckTaskEnv :: "nat \<Rightarrow> string \<Rightarrow> dresult" where
  \<open>CheckTaskEnv vars envError =
     (if envError \<noteq> '''' then
        row ''task env'' Fail envError
          ''set "pidMode": "task" on the task definition (with SYS_PTRACE on the agent), and check the agent's TETHERD_APP_CONTAINER names the application container''
      else green ''task env'' (itoa vars @ '' variables read from the application container''))\<close>

definition via_task :: "string \<Rightarrow> string" where
  "via_task addr = ''(via '' @ addr @ '' '' @ arrow @ '' the task)''"

text \<open>\<open>creds\<close> is the error of the fetch, if it failed; \<open>identity\<close> is what \<^verbatim>\<open>sts:GetCallerIdentity\<close> answered.\<close>

definition CheckCredentialEndpoint :: "string \<Rightarrow> string \<Rightarrow> string option \<Rightarrow> string + string \<Rightarrow> dresult" where
  "CheckCredentialEndpoint addr credPath creds identity =
     (if credPath = '''' then
        green ''task role'' ''the task advertises no role to relay; the child would keep your own AWS credentials''
      else case creds of
        Some e \<Rightarrow> row ''task role'' Fail (e @ ''  '' @ via_task addr)
          ''check the task definition names a task role, and that the tetherd-agent sidecar can reach the task's credential endpoint; tetherd run would start the child with no AWS identity''
      | None \<Rightarrow>
          (case identity of
             Inl e \<Rightarrow> row ''task role'' Unknown
               (''not checked: the task's credentials reached tetherd '' @ via_task addr @ '' but sts:GetCallerIdentity could not confirm whose they are: '' @ e)
               ''check this machine can reach sts.<region>.amazonaws.com; the credentials themselves arrived, so the child would hold the task role whatever STS says''
           | Inr arn \<Rightarrow> green ''task role'' (arn @ ''  '' @ via_task addr)))"

section \<open>The captured set\<close>

definition overlap_text :: "prefix \<times> addr4 \<Rightarrow> string" where
  "overlap_text o' = prefix_string (fst o') @ '' '' @ [CHR 0xE2, CHR 0x9F, CHR 0xB7] @ '' local '' @ addr_string (snd o')"

definition CheckOverlap :: "string list \<Rightarrow> dresult" where
  "CheckOverlap found =
     (if found = [] then green ''local addresses'' ''no interface overlaps the captured set''
      else row ''local addresses'' Warn (join_with ''; '' found) ''add the overlapping range to local_cidrs in .tetherd.yml'')"

definition privateSupernets :: "prefix list" where
  "privateSupernets =
     [Prefix4 (of_octets 10 0 0 0) 8, Prefix4 (of_octets 172 16 0 0) 12, Prefix4 (of_octets 192 168 0 0) 16,
      Prefix6 (push_bit 120 0xFC) 7]"

text \<open>\<^verbatim>\<open>s.Contains(p.Addr())\<close>.\<close>

fun contains_base :: "prefix \<Rightarrow> prefix \<Rightarrow> bool" where
  "contains_base (Prefix4 b n) (Prefix4 a _) = (net4 a n = net4 b n)"
| "contains_base (Prefix6 b n) (Prefix6 a _) = (a AND NOT (mask (128 - n)) = b AND NOT (mask (128 - n)))"
| "contains_base _ _ = False"

definition whollyPrivate :: "prefix \<Rightarrow> bool" where
  "whollyPrivate p = list_ex (\<lambda>s. contains_base s p \<and> bits s \<le> bits p) privateSupernets"

definition maxListedPrefixes :: nat where "maxListedPrefixes = 8"
definition prefixesPreviewed :: nat where "prefixesPreviewed = 3"
definition noPrefixesCaptured :: string where "noPrefixesCaptured = ''none''"

definition prefixStrings :: "prefix list \<Rightarrow> string list" where
  "prefixStrings cidrs = map prefix_string cidrs"

definition FormatPrefixes :: "prefix list \<Rightarrow> string" where
  "FormatPrefixes cidrs =
     (if cidrs = [] then noPrefixesCaptured
      else if length cidrs \<le> maxListedPrefixes then join_with '', '' (prefixStrings cidrs)
      else itoa (length cidrs) @ '' prefixes ('' @ join_with '', '' (prefixStrings (take prefixesPreviewed cidrs)) @ '', '' @ ellipsis @ '')'')"

definition CheckRemoteCIDRs :: "prefix list \<Rightarrow> dresult" where
  "CheckRemoteCIDRs cidrs =
     (let wide = map prefix_string (filter (\<lambda>p. bits p \<le> 8 \<and> \<not> whollyPrivate p) cidrs) in
      if wide \<noteq> [] then
        row ''remote CIDRs'' Warn (join_with '', '' wide @ '' is captured: every connection goes through the dev task'')
          ''list only the ranges you need in remote_cidrs / remote_services''
      else green ''remote CIDRs'' (FormatPrefixes cidrs))"

section \<open>Steal and names\<close>

definition CheckSteal :: "incoming \<Rightarrow> int \<Rightarrow> bool \<Rightarrow> dresult" where
  "CheckSteal inc localPort listening =
     (if \<not> inc_Enabled inc then green ''steal'' ''not taking requests; every request stays with the application''
      else
        let target = ''127.0.0.1:'' @ itoa_int localPort in
        if \<not> listening then
          row ''steal'' Warn (''nothing is listening on '' @ target @ '', so a request matching '' @ inc_Header inc @ '' would come back 502'')
            (''start your own server on port '' @ itoa_int localPort @ '', or run with --no-incoming to leave every request with the application'')
        else green ''steal'' (inc_Header inc @ '' (+ '' @ inc_TokenHeader inc @ '') '' @ arrow @ '' '' @ target @ '', which has a listener''))"

record DomainProbe =
  dp_NotFound :: bool
  dp_Err :: "string option"

definition answered :: "DomainProbe \<Rightarrow> bool" where "answered p = (dp_Err p = None)"

definition CheckDomains :: "string list \<Rightarrow> (string, DomainProbe) gomap \<Rightarrow> dresult" where
  "CheckDomains domains probed =
     (if domains = [] then green ''remote domains'' ''none configured''
      else
        let bad = List.map_filter (\<lambda>d. case mget probed d of
                      None \<Rightarrow> None
                    | Some p \<Rightarrow> if \<not> answered p then Some (d @ '': '' @ the (dp_Err p)) else None) domains;
            unchecked = filter (\<lambda>d. mget probed d = None) domains in
        if bad \<noteq> [] then
          row ''remote domains'' Fail
            (join_with ''; '' bad @ (if unchecked \<noteq> [] then ''; not checked: '' @ join_with '', '' unchecked else ''''))
            (''check the agent can reach the VPC resolver, and that remote_domains names a domain the VPC serves (Cloud Map, or a private hosted zone associated with the VPC)'' @
             (if unchecked \<noteq> [] then ''; fix the rows above so the rest can be checked'' else ''''))
        else if unchecked \<noteq> [] then
          row ''remote domains'' Unknown (''not checked: '' @ join_with '', '' unchecked)
            ''fix the rows above, then run tetherd doctor again so these can be resolved through the agent''
        else green ''remote domains'' (join_with '', '' domains @
          '' reach the VPC resolver through the agent. If a name still fails locally: sudo dscacheutil -flushcache; sudo killall -HUP mDNSResponder''))"

section \<open>Lemmas\<close>

lemma row_sel [simp]:
  "r_Status (row n s d x) = s" "r_Name (row n s d x) = n" "r_Detail (row n s d x) = d" "r_Next (row n s d x) = x"
  "r_Status (green n d) = OK" "r_Name (green n d) = n" "r_Detail (green n d) = d" "r_Next (green n d) = ''''"
  by (simp_all add: row_def green_def)

lemmas judgement_defs = CheckHelper_def CheckExecSetgid_def CheckPlugin_def CheckIdentity_def CheckTask_def CheckPIDMode_def
  CheckTargetGroup_def CheckAgentSession_def CheckTaskEnv_def CheckCredentialEndpoint_def CheckOverlap_def CheckRemoteCIDRs_def
  CheckSteal_def CheckDomains_def

lemma names [simp]:
  "r_Name (CheckHelper v e) = ''helper''"
  "r_Name (CheckExecSetgid path mode fg gg found st) = ''setgid tetherd-exec''"
  "r_Name (CheckPlugin path lookErr) = ''session-manager-plugin''"
  "r_Name (CheckIdentity i) = ''your AWS identity''"
  "r_Name (CheckTask t) = ''attachable task''"
  "r_Name (CheckPIDMode pm) = ''pidMode''"
  "r_Name (CheckTargetGroup tg) = ''target group''"
  "r_Name (CheckAgentSession v' ae we de) = ''agent session''"
  "r_Name (CheckTaskEnv n ee) = ''task env''"
  "r_Name (CheckCredentialEndpoint a cp c ident) = ''task role''"
  "r_Name (CheckOverlap ov) = ''local addresses''"
  "r_Name (CheckRemoteCIDRs cs) = ''remote CIDRs''"
  "r_Name (CheckSteal inc port l) = ''steal''"
  "r_Name (CheckDomains ds probed) = ''remote domains''"
  by (simp_all add: judgement_defs Let_def split: option.splits sum.splits)

text \<open>The number a report returns is the number of its failing rows.\<close>

lemma render_rows_failed: "snd (render_rows w rs) = length (filter (\<lambda>r. r_Status r = Fail) rs)"
  by (induction w rs rule: render_rows.induct) (auto simp: Let_def split: prod.splits)

lemma Render_failed: "snd (Render rs) = length (filter (\<lambda>r. r_Status r = Fail) rs)"
  by (simp add: Render_def render_rows_failed)

lemma Render_lines:
  "length (fst (Render rs)) = length rs + length (filter (\<lambda>r. r_Status r \<noteq> OK \<and> r_Next r \<noteq> '''') rs)"
proof -
  have "length (fst (render_rows w rs)) = length rs + length (filter (\<lambda>r. r_Status r \<noteq> OK \<and> r_Next r \<noteq> '''') rs)" for w
    by (induction w rs rule: render_rows.induct) (auto simp: Let_def split: prod.splits)
  then show ?thesis by (simp add: Render_def)
qed

section \<open>Which capture is wide\<close>

text \<open>The private blocks of RFC 1918: the leading 8, 12 and 16 bits of 10/8, 172.16/12 and 192.168/16.\<close>

definition private4 :: "addr4 \<Rightarrow> bool" where
  "private4 a = (drop_bit 24 a = 10 \<or> drop_bit 20 a = 0xAC1 \<or> drop_bit 16 a = 0xC0A8)"

lemma net4_drop: "net4 a n = net4 b n \<longleftrightarrow> drop_bit (32 - n) a = drop_bit (32 - n) b"
proof -
  have "drop_bit k a = drop_bit k b \<longleftrightarrow> (\<forall>i. k \<le> i \<longrightarrow> bit a i = bit b i)" for k
  proof
    assume e: "drop_bit k a = drop_bit k b"
    show "\<forall>i. k \<le> i \<longrightarrow> bit a i = bit b i"
    proof (intro allI impI)
      fix i assume "k \<le> i"
      then show "bit a i = bit b i" using arg_cong[OF e, of "\<lambda>w. bit w (i - k)"] by (simp add: bit_drop_bit_eq)
    qed
  qed (auto intro: bit_eqI simp: bit_drop_bit_eq)
  moreover have "bit w i \<Longrightarrow> i < 32" for w :: addr4 and i using bit_imp_le_length[of w i] by simp
  ultimately show ?thesis unfolding net4_eq_iff by (metis)
qed

lemma drop_flip:
  fixes a :: addr4
  assumes "k < 32"
  shows "drop_bit k (a XOR push_bit k 1) = drop_bit k a XOR 1"
  by (rule bit_eqI) (use assms in \<open>auto simp: bit_drop_bit_eq bit_xor_iff bit_push_bit_iff bit_1_iff simp del: push_bit_of_1\<close>)

lemma flip_stays:
  assumes "k < 32 - n"
  shows "net4 (a XOR push_bit k 1) n = net4 a n"
  using assms unfolding net4_eq_iff by (auto simp: bit_xor_iff bit_push_bit_iff bit_1_iff simp del: push_bit_of_1)

lemma drop_more:
  fixes b :: addr4
  shows "drop_bit 20 b = v \<Longrightarrow> drop_bit 24 b = drop_bit 4 v" "drop_bit 16 b = v \<Longrightarrow> drop_bit 20 b = drop_bit 4 v"
    "drop_bit 16 b = v \<Longrightarrow> drop_bit 24 b = drop_bit 8 v"
  by auto

lemma flipped_not_private:
  "drop_bit 24 b = 11 \<Longrightarrow> \<not> private4 b"
  "drop_bit 20 b = 0xAC0 \<Longrightarrow> \<not> private4 b"
  "drop_bit 16 b = 0xC0A9 \<Longrightarrow> \<not> private4 b"
  unfolding private4_def by (auto dest: drop_more)

text \<open>An address of a private block whose prefix is shorter than the block has a public neighbour in the prefix.\<close>

lemma private_neighbour:
  assumes "private4 a" and "\<And>m v. (m, v) \<in> {(8, 10), (12, 0xAC1), (16, 0xC0A8)} \<Longrightarrow> drop_bit (32 - m) a = v \<Longrightarrow> n < m"
  shows "\<exists>b. net4 b n = net4 a n \<and> \<not> private4 b"
proof -
  have *: "\<exists>b. net4 b n = net4 a n \<and> \<not> private4 b"
    if "drop_bit (32 - m) a = v" "n < m" "m \<le> 32" "0 < m" "\<And>b. drop_bit (32 - m) b = v XOR 1 \<Longrightarrow> \<not> private4 b" for m v
    using drop_flip[of "32 - m" a] flip_stays[of "32 - m" n a] that
    by (intro exI[of _ "a XOR push_bit (32 - m) 1"]) (auto simp del: push_bit_of_1)
  from assms(1) consider "drop_bit 24 a = 10" | "drop_bit 20 a = 0xAC1" | "drop_bit 16 a = 0xC0A8" by (auto simp: private4_def)
  then show ?thesis
  proof cases
    case 1
    show ?thesis by (rule *[of 8 10]) (use 1 assms(2)[of 8 10] flipped_not_private(1) in auto)
  next
    case 2
    show ?thesis by (rule *[of 12 "0xAC1"]) (use 2 assms(2)[of 12 "0xAC1"] flipped_not_private(2) in auto)
  next
    case 3
    show ?thesis by (rule *[of 16 "0xC0A8"]) (use 3 assms(2)[of 16 "0xC0A8"] flipped_not_private(3) in auto)
  qed
qed
lemma whollyPrivate4:
  "whollyPrivate (Prefix4 a n) \<longleftrightarrow>
     (\<exists>(m, v) \<in> {(8, 10), (12, 0xAC1), (16, 0xC0A8)}. drop_bit (32 - m) a = v \<and> m \<le> n)"
  by (simp add: whollyPrivate_def privateSupernets_def net4_drop of_octets_def)

lemma private_capture:
  assumes "list_all wf_prefix cidrs"
  shows "\<forall>p \<in> set cidrs. whollyPrivate p \<longleftrightarrow> pset p \<subseteq> {a. private4 a}"
    and "r_Status (CheckRemoteCIDRs cidrs) = Warn \<longleftrightarrow> (\<exists>p \<in> set cidrs. bits p \<le> 8 \<and> (\<exists>a \<in> pset p. \<not> private4 a))"
proof -
  show exact: "\<forall>p \<in> set cidrs. whollyPrivate p \<longleftrightarrow> pset p \<subseteq> {a. private4 a}"
  proof
    fix p
    assume "p \<in> set cidrs"
    then have "is4 p" using assms by (auto simp: list_all_iff wf_prefix_def)
    then obtain a n where p: "p = Prefix4 a n" by (cases p) auto
    have mem: "b \<in> pset p \<longleftrightarrow> net4 b n = net4 a n" for b by (simp add: p pset_def prefix_contains_def)
    have shorter: "drop_bit (32 - m) b = drop_bit (32 - m) a" if "net4 b n = net4 a n" "m \<le> n" for b m
      using that unfolding net4_drop[symmetric] net4_eq_iff by auto
    show "whollyPrivate p \<longleftrightarrow> pset p \<subseteq> {a. private4 a}"
    proof
      assume "whollyPrivate p"
      then have w: "drop_bit 24 a = 10 \<and> 8 \<le> n \<or> drop_bit 20 a = 0xAC1 \<and> 12 \<le> n \<or> drop_bit 16 a = 0xC0A8 \<and> 16 \<le> n"
        by (auto simp: p whollyPrivate4)
      show "pset p \<subseteq> {a. private4 a}"
      proof
        fix b
        assume "b \<in> pset p"
        then have b: "net4 b n = net4 a n" by (simp add: mem)
        show "b \<in> {a. private4 a}"
          using w shorter[OF b, of 8] shorter[OF b, of 12] shorter[OF b, of 16] unfolding private4_def by auto
      qed
    next
      assume sub: "pset p \<subseteq> {a. private4 a}"
      then have "private4 a" using mem by auto
      show "whollyPrivate p"
      proof (rule ccontr)
        assume "\<not> whollyPrivate p"
        then have lt: "n < m" if "(m, v) \<in> {(8, 10), (12, 0xAC1), (16, 0xC0A8)}" "drop_bit (32 - m) a = v" for m v
          using that unfolding p whollyPrivate4 by (metis (mono_tags, lifting) case_prodI linorder_not_le)
        have "\<exists>b. net4 b n = net4 a n \<and> \<not> private4 b"
          by (rule private_neighbour[OF \<open>private4 a\<close>]) (rule lt)
        then obtain b where b: "net4 b n = net4 a n" "\<not> private4 b" by blast
        have "b \<in> pset p" unfolding mem by (rule b(1))
        then show False using sub b(2) by auto
      qed
    qed
  qed
  show "r_Status (CheckRemoteCIDRs cidrs) = Warn \<longleftrightarrow> (\<exists>p \<in> set cidrs. bits p \<le> 8 \<and> (\<exists>a \<in> pset p. \<not> private4 a))"
    using exact by (auto simp: CheckRemoteCIDRs_def Let_def filter_empty_conv)
qed

text \<open>C25: \<^verbatim>\<open>whollyPrivate\<close> decides its question exactly: a prefix passes if and only if every address it covers is
  private, so the remote CIDRs row warns if and only if some prefix of /8 or shorter covers a public address.\<close>

theorem wide_capture_is_exact:
  assumes "list_all wf_prefix cidrs"
  shows "(\<forall>p \<in> set cidrs. whollyPrivate p \<longleftrightarrow> pset p \<subseteq> {a. private4 a}) \<and>
    (r_Status (CheckRemoteCIDRs cidrs) = Warn \<longleftrightarrow> (\<exists>p \<in> set cidrs. bits p \<le> 8 \<and> (\<exists>a \<in> pset p. \<not> private4 a)))"
  using private_capture[OF assms] by (intro conjI)

theorem wide_capture_is_exact_witness:
  "r_Status (CheckRemoteCIDRs [Prefix4 (of_octets 10 0 0 0) 7]) = Warn \<and>
   (\<exists>a \<in> pset (Prefix4 (of_octets 10 0 0 0) 7). \<not> private4 a)"
proof -
  let ?p = "Prefix4 (of_octets 10 0 0 0) 7"
  have wf: "list_all wf_prefix [?p]" by (simp add: wf_prefix_def)
  have "drop_bit 24 (of_octets 11 0 0 0) = 11" by (simp add: of_octets_def)
  then have pub: "\<not> private4 (of_octets 11 0 0 0)" by (rule flipped_not_private)
  have mem: "of_octets 11 0 0 0 \<in> pset ?p" by (simp add: pset_def prefix_contains_def net4_drop of_octets_def)
  then show ?thesis using wide_capture_is_exact[OF wf] pub by auto
qed

end
