(* ===== verification/SsmTransport.thy ===== *)
theory SsmTransport
  imports Attach
begin

text \<open>
  The transports: \<^verbatim>\<open>internal/transport/ssm/ssm.go\<close>, which opens a port forwarding session and starts the
  session-manager-plugin, and \<^verbatim>\<open>internal/transport/direct\<close>. What AWS and the plugin do is the record
  \<open>ssm_world\<close>; what \<^verbatim>\<open>Dial\<close> does to them is a trace. Shown: no path of \<^verbatim>\<open>Dial\<close> leaves a session or a
  plugin behind, closing a connection ends both once, and the wait for the plugin's port is bounded.
\<close>

section \<open>Targets and arguments\<close>

definition document :: string where "document = ''AWS-StartPortForwardingSession''"

definition millisecond :: int where "millisecond = 1000000"

definition StartupWait :: int where "StartupWait = 20 * second"

definition controlPort :: string where "controlPort = itoa DefaultControlPort"

definition SessionTargets :: "task \<Rightarrow> string list" where
  "SessionTargets tk =
     (let ids = (if t_RuntimeIDs tk = [] then [t_RuntimeID tk] else t_RuntimeIDs tk) in
      map (\<lambda>rt. ''ecs:'' @ t_Cluster tk @ ''_'' @ t_ID tk @ ''_'' @ rt) ids)"

text \<open>An error of StartSession: of the API, with its code, or another one.\<close>

datatype aws_failure = ApiError string string | OtherError string

definition isTargetNotConnected :: "aws_failure \<Rightarrow> bool" where
  "isTargetNotConnected e = (case e of ApiError code _ \<Rightarrow> code = ''TargetNotConnected'' | OtherError _ \<Rightarrow> False)"

record start_input =
  si_Target :: string
  si_DocumentName :: string
  si_Parameters :: "(string, string list) gomap"

record start_output =
  so_SessionId :: string
  so_TokenValue :: string
  so_StreamUrl :: string

text \<open>The two documents \<^verbatim>\<open>json.Marshal\<close> is given, and the encoder's answers.\<close>

record json_encoder =
  je_session :: "(string, string) gomap \<Rightarrow> string + string"
  je_request :: "start_input \<Rightarrow> string + string"

definition PluginArgs :: "json_encoder \<Rightarrow> start_output \<Rightarrow> start_input \<Rightarrow> string \<Rightarrow> string \<Rightarrow> string + string list" where
  "PluginArgs je out inp region profile =
     (case je_session je [(''SessionId'', so_SessionId out), (''TokenValue'', so_TokenValue out), (''StreamUrl'', so_StreamUrl out)] of
        Inl e \<Rightarrow> Inl e
      | Inr sess \<Rightarrow>
          (case je_request je inp of
             Inl e \<Rightarrow> Inl e
           | Inr req \<Rightarrow> Inr [sess, region, ''StartSession'', profile, req, ''https://ssm.'' @ region @ ''.amazonaws.com'']))"

section \<open>Dial\<close>

datatype ssm_error =
    PluginNotFound string
  | NoFreePort string
  | NoRuntimeId
  | StartSessionFailed string aws_failure
  | NoneConnected string "string list" aws_failure
  | BadArguments string
  | PluginNotStarted string
  | ContextEnded
  | PluginExited nat
  | PortNeverOpened nat

text \<open>
  What AWS and the plugin do: the look-up of the plugin, the free port, StartSession by target, whether the plugin
  starts, and for the \<open>i\<close>-th look at its port: whether the context has ended before it, how long the attempt takes,
  whether it connects, and whether the plugin has exited after it.
\<close>

record ssm_world =
  sw_plugin :: "string option"
  sw_port :: "string + nat"
  sw_StartSession :: "start_input \<Rightarrow> aws_failure + start_output"
  sw_json :: json_encoder
  sw_start :: "string option"
  sw_done :: "nat \<Rightarrow> bool"
  sw_took :: "nat \<Rightarrow> nat"
  sw_connects :: "nat \<Rightarrow> bool"
  sw_exited :: "nat \<Rightarrow> bool"

record ssm_transport =
  tr_Region :: string
  tr_Profile :: string

datatype ssm_event = SessionStarted string | PluginStarted | PluginKilled | PluginReaped | SessionTerminated string

definition start_input_for :: "nat \<Rightarrow> string \<Rightarrow> start_input" where
  "start_input_for port target =
     \<lparr>si_Target = target, si_DocumentName = document,
      si_Parameters = [(''portNumber'', [controlPort]), (''localPortNumber'', [itoa port])]\<rparr>"

text \<open>The candidates in order: the first that is connected, or the error.\<close>

fun start_first :: "ssm_world \<Rightarrow> task \<Rightarrow> nat \<Rightarrow> string list \<Rightarrow> ssm_error + (start_input \<times> start_output)" where
  "start_first w tk port [] = Inl NoRuntimeId"
| "start_first w tk port (target # targets) =
     (let inp = start_input_for port target in
      case sw_StartSession w inp of
        Inr out \<Rightarrow> Inr (inp, out)
      | Inl e \<Rightarrow>
          if \<not> isTargetNotConnected e then Inl (StartSessionFailed target e)
          else if targets \<noteq> [] then start_first w tk port targets
          else Inl (NoneConnected (t_ID tk) (SessionTargets tk) e))"

text \<open>The wait for the plugin's port, from the time \<open>now\<close>; the last component is when it ends.\<close>

function await_port :: "ssm_world \<Rightarrow> nat \<Rightarrow> int \<Rightarrow> nat \<Rightarrow> int \<Rightarrow> (ssm_error option \<times> ssm_event list) \<times> nat \<times> int" where
  "await_port w port deadline i now =
     (if sw_done w i then ((Some ContextEnded, [PluginKilled, PluginReaped]), i, now)
      else
        let now' = now + int (sw_took w i) in
        if sw_connects w i then ((None, []), Suc i, now')
        else if sw_exited w i then ((Some (PluginExited port), [PluginReaped]), Suc i, now')
        else if deadline < now' then ((Some (PortNeverOpened port), [PluginKilled, PluginReaped]), Suc i, now')
        else await_port w port deadline (Suc i) (now' + 100 * millisecond))"
  by pat_completeness auto
termination
  by (relation "measure (\<lambda>(w, port, deadline, i, now). nat (deadline + 1 - now))") (auto simp: millisecond_def)

declare await_port.simps [simp del]

definition terminate :: "start_output \<Rightarrow> ssm_event list" where
  "terminate out = [SessionTerminated (so_SessionId out)]"

definition ssm_Dial :: "ssm_transport \<Rightarrow> ssm_world \<Rightarrow> task \<Rightarrow> time \<Rightarrow> (ssm_error + start_output) \<times> ssm_event list" where
  "ssm_Dial t w tk now =
     (case sw_plugin w of
        Some e \<Rightarrow> (Inl (PluginNotFound e), [])
      | None \<Rightarrow>
        (case sw_port w of
           Inl e \<Rightarrow> (Inl (NoFreePort e), [])
         | Inr port \<Rightarrow>
           (case start_first w tk port (SessionTargets tk) of
              Inl e \<Rightarrow> (Inl e, [])
            | Inr (inp, out) \<Rightarrow>
                let started = [SessionStarted (so_SessionId out)] in
                (case PluginArgs (sw_json w) out inp (tr_Region t) (tr_Profile t) of
                   Inl e \<Rightarrow> (Inl (BadArguments e), started @ terminate out)
                 | Inr args \<Rightarrow>
                   (case sw_start w of
                      Some e \<Rightarrow> (Inl (PluginNotStarted e), started @ terminate out)
                    | None \<Rightarrow>
                      (case await_port w port (now + StartupWait) 0 now of
                         ((None, _), _) \<Rightarrow> (Inr out, started @ [PluginStarted])
                       | ((Some e, evs), _) \<Rightarrow> (Inl e, started @ [PluginStarted] @ evs @ terminate out)))))))"

text \<open>\<^verbatim>\<open>pluginConn.Close\<close>: the flag is its \<^verbatim>\<open>once\<close>.\<close>

definition pluginConn_Close :: "start_output \<Rightarrow> bool \<Rightarrow> bool \<times> ssm_event list" where
  "pluginConn_Close out once = (True, if once then [] else [PluginKilled, PluginReaped] @ terminate out)"

fun close_times :: "start_output \<Rightarrow> nat \<Rightarrow> bool \<Rightarrow> ssm_event list" where
  "close_times out 0 once = []"
| "close_times out (Suc n) once = (case pluginConn_Close out once of (once', evs) \<Rightarrow> evs @ close_times out n once')"

section \<open>The direct transport\<close>

definition direct_Dial :: "(string \<Rightarrow> string + 'c) \<Rightarrow> task \<Rightarrow> string + 'c" where
  "direct_Dial dial tk = (if t_Addr tk = '''' then Inl ''direct transport: task has no Addr'' else dial (t_Addr tk))"

section \<open>Nothing is left behind\<close>

lemma close_again: "close_times out n True = []"
  by (induction n) (simp_all add: pluginConn_Close_def)

lemma close_once: "close_times out (Suc n) False = [PluginKilled, PluginReaped] @ terminate out"
  by (simp add: pluginConn_Close_def close_again)

lemma await_events:
  "await_port w port deadline i now = ((Some e, evs), r) \<Longrightarrow> evs = [PluginReaped] \<or> evs = [PluginKilled, PluginReaped]"
  by (induction w port deadline i now rule: await_port.induct)
     (subst (asm) (2) await_port.simps, auto simp: Let_def split: if_splits)

text \<open>C18: No path of \<^verbatim>\<open>Dial\<close> leaves anything behind: at most one session is started however many containers are
  tried; when \<^verbatim>\<open>Dial\<close> fails, wherever it fails, the session it started has been terminated and the plugin it
  started has been waited for; and when it succeeds, closing the connection, however often, kills the plugin, waits
  for it and terminates the session exactly once.\<close>

theorem ssm_dial_leaves_nothing:
  "(case ssm_Dial t w tk now of
      (Inl e, evs) \<Rightarrow> evs = [] \<or>
        (\<exists>i plugin. evs = [SessionStarted i] @ plugin @ [SessionTerminated i] \<and>
           plugin \<in> {[], [PluginStarted, PluginReaped], [PluginStarted, PluginKilled, PluginReaped]})
    | (Inr out, evs) \<Rightarrow> evs = [SessionStarted (so_SessionId out), PluginStarted] \<and>
        (\<forall>n. close_times out (Suc n) False = [PluginKilled, PluginReaped, SessionTerminated (so_SessionId out)]))"
  unfolding ssm_Dial_def Let_def
  by (auto simp: terminate_def close_once simp del: close_times.simps split: option.split sum.split prod.split dest!: await_events)

section \<open>The wait is bounded\<close>

lemma await_bounds:
  assumes "\<And>i. int (sw_took w i) \<le> 500 * millisecond" and "await_port w port deadline i now = (r, n, t)"
    and "now \<le> deadline + 100 * millisecond" and "start + 100 * millisecond * int i \<le> now"
  shows "now \<le> t \<and> t \<le> deadline + 600 * millisecond \<and> start + 100 * millisecond * (int n - 1) \<le> deadline + 100 * millisecond"
  using assms
proof (induction w port deadline i now rule: await_port.induct)
  case (1 w port deadline i now)
  let ?now = "now + int (sw_took w i)"
  note took = "1.prems"(1)[of i] and facts = "1.prems"(3,4)
  consider "sw_done w i" "n = i" "t = now"
    | "\<not> sw_done w i" "n = Suc i" "t = ?now"
    | "\<not> sw_done w i" "\<not> sw_connects w i" "\<not> sw_exited w i" "?now \<le> deadline"
        "await_port w port deadline (Suc i) (?now + 100 * millisecond) = (r, n, t)"
    using "1.prems"(2) by (subst (asm) await_port.simps) (auto simp: Let_def split: if_splits)
  then show ?case
  proof cases
    case 1
    then show ?thesis using facts by (simp add: millisecond_def)
  next
    case 2
    define k where "k = int (sw_took w i)"
    have "t = now + k" "int n - 1 = int i" "0 \<le> k" "k \<le> 500000000" using 2 took by (simp_all add: k_def millisecond_def)
    then show ?thesis using facts by (simp add: millisecond_def)
  next
    case 3
    have "start + 100 * millisecond * int (Suc i) \<le> ?now + 100 * millisecond"
      using facts(2) by (simp add: millisecond_def)
    moreover have "?now + 100 * millisecond \<le> deadline + 100 * millisecond" using 3(4) by simp
    ultimately have "?now + 100 * millisecond \<le> t \<and> t \<le> deadline + 600 * millisecond \<and>
        start + 100 * millisecond * (int n - 1) \<le> deadline + 100 * millisecond"
      using "1.IH"[OF 3(1) HOL.refl 3(2,3) _ "1.prems"(1) 3(5)] 3(4) by simp
    then show ?thesis by (simp add: millisecond_def)
  qed
qed

lemma await_slow:
  "await_port w port deadline i now = ((Some (PortNeverOpened p), evs), n, t) \<Longrightarrow> deadline < t"
  by (induction w port deadline i now rule: await_port.induct)
     (subst (asm) (2) await_port.simps, auto simp: Let_def split: if_splits)

text \<open>C19: The wait for the plugin's port ends. With attempts to connect that take at most their own 500 ms,
  \<^verbatim>\<open>Dial\<close> looks at the port at most 202 times and at most 600 ms beyond \<^verbatim>\<open>StartupWait\<close>, whatever the plugin
  does, and it gives the plugin up as too slow only when all of \<^verbatim>\<open>StartupWait\<close> has passed.\<close>

theorem plugin_wait_is_bounded:
  assumes "\<And>i. int (sw_took w i) \<le> 500 * millisecond" and "await_port w port (now + StartupWait) 0 now = (r, n, t)"
  shows "t \<le> now + StartupWait + 600 * millisecond \<and> n \<le> 202 \<and>
    (\<forall>p evs. r = (Some (PortNeverOpened p), evs) \<longrightarrow> now + StartupWait < t)"
proof -
  have "t \<le> now + StartupWait + 600 * millisecond" "100 * millisecond * (int n - 1) \<le> StartupWait + 100 * millisecond"
    using await_bounds[OF assms, of now] by (auto simp: StartupWait_def second_def millisecond_def)
  moreover have "n \<le> 202"
  proof -
    have "int n \<le> 202" using calculation(2) by (simp add: StartupWait_def second_def millisecond_def)
    then show ?thesis by linarith
  qed
  moreover have "now + StartupWait < t" if "r = (Some (PortNeverOpened p), evs)" for p evs
    using await_slow assms(2) that by blast
  ultimately show ?thesis by blast
qed

definition silent_plugin :: ssm_world where
  "silent_plugin = \<lparr>sw_plugin = None, sw_port = Inr 40000, sw_StartSession = (\<lambda>_. Inr \<lparr>so_SessionId = ''s-1'', so_TokenValue = '''', so_StreamUrl = ''''\<rparr>),
     sw_json = \<lparr>je_session = (\<lambda>_. Inr ''{}''), je_request = (\<lambda>_. Inr ''{}'')\<rparr>, sw_start = None, sw_done = (\<lambda>_. False),
     sw_took = (\<lambda>_. 400000000), sw_connects = (\<lambda>i. i = 3), sw_exited = (\<lambda>_. False)\<rparr>"

theorem plugin_wait_is_bounded_witness:
  "snd (snd (await_port silent_plugin 40000 StartupWait 0 0)) \<le> StartupWait + 600 * millisecond"
proof -
  obtain r n t where a: "await_port silent_plugin 40000 (0 + StartupWait) 0 0 = (r, n, t)" by (metis surj_pair)
  have "int (sw_took silent_plugin i) \<le> 500 * millisecond" for i by (simp add: silent_plugin_def millisecond_def)
  from plugin_wait_is_bounded[OF this a] a show ?thesis by simp
qed

lemma first_connected_target:
  assumes "start_first w tk port targets = Inr (inp, out)"
  shows "\<exists>before target after. targets = before @ target # after \<and> inp = start_input_for port target \<and>
     sw_StartSession w inp = Inr out \<and>
     (\<forall>x \<in> set before. \<exists>e. sw_StartSession w (start_input_for port x) = Inl e \<and> isTargetNotConnected e)"
  using assms
proof (induction targets)
  case (Cons x xs)
  show ?case
  proof (cases "sw_StartSession w (start_input_for port x)")
    case (Inl e)
    then have "isTargetNotConnected e" and r: "start_first w tk port xs = Inr (inp, out)"
      using Cons.prems by (auto simp: Let_def split: if_splits)
    from Cons.IH[OF r] obtain before target after where "xs = before @ target # after" "inp = start_input_for port target"
      "sw_StartSession w inp = Inr out"
      "\<forall>x \<in> set before. \<exists>e. sw_StartSession w (start_input_for port x) = Inl e \<and> isTargetNotConnected e" by blast
    then show ?thesis using Inl \<open>isTargetNotConnected e\<close> by (intro exI[of _ "x # before"]) auto
  next
    case (Inr o')
    then show ?thesis using Cons.prems by (intro exI[of _ "[]"] exI[of _ x] exI[of _ xs]) (auto simp: Let_def)
  qed
qed simp
end
