(* ===== verification/DoctorRun.thy ===== *)
theory DoctorRun
  imports DoctorChecks NetipText SsmTransport
begin

text \<open>
  \<^verbatim>\<open>tetherd doctor\<close> (\<^verbatim>\<open>internal/cli/doctor.go\<close>): gathering the facts under bounds and printing a row
  per check. \<open>bounded\<close> races the call it started against two clocks and is a step relation; the report itself is a
  function of the facts in \<open>doctor_world\<close>.
\<close>

section \<open>Clocks and errors\<close>

fun isContextError :: "cli_error \<Rightarrow> bool" where
  "isContextError (ContextError _) = True"
| "isContextError (Wrapped _ e) = isContextError e"
| "isContextError (UsageError _) = False"
| "isContextError (OpError _) = False"
| "isContextError (RejectedError _) = False"

datatype derror = CheckTimeout string | Gathered cli_error

definition derr_text :: "derror \<Rightarrow> string" where
  "derr_text e = (case e of CheckTimeout s \<Rightarrow> s | Gathered c \<Rightarrow> err_text c)"

definition isContextFailure :: "derror \<Rightarrow> bool" where
  "isContextFailure e = (case e of CheckTimeout _ \<Rightarrow> False | Gathered c \<Rightarrow> isContextError c)"

definition isCheckTimeout :: "derror \<Rightarrow> bool" where
  "isCheckTimeout e = (case e of CheckTimeout _ \<Rightarrow> True | Gathered _ \<Rightarrow> False)"

text \<open>\<^verbatim>\<open>time.Duration.String\<close> of a positive duration.\<close>

definition frac_text :: "nat \<Rightarrow> nat \<Rightarrow> string" where
  "frac_text prec v =
     (let ds = trim_right_by (\<lambda>c. c = CHR ''0'') (zeros prec (v mod 10 ^ prec)) in
      itoa (v div 10 ^ prec) @ (if ds = '''' then '''' else ''.'' @ ds))"

definition duration_text :: "int \<Rightarrow> string" where
  "duration_text d =
     (let u = nat d; s = u div 10 ^ 9 in
      if u = 0 then ''0s''
      else if u < 1000 then itoa u @ ''ns''
      else if u < 10 ^ 6 then frac_text 3 u @ [CHR 0xC2, CHR 0xB5] @ ''s''
      else if u < 10 ^ 9 then frac_text 6 u @ ''ms''
      else (if s < 3600 then '''' else itoa (s div 3600) @ ''h'') @
           (if s < 60 then '''' else itoa (s div 60 mod 60) @ ''m'') @
           frac_text 9 (u - s div 60 * 60 * 10 ^ 9) @ ''s'')"

definition checkTimedOut :: "bool \<Rightarrow> string \<Rightarrow> int \<Rightarrow> string" where
  "checkTimedOut ctx_done what timeout =
     (if ctx_done then what @ '' did not answer before tetherd doctor ran out of time''
      else what @ '' did not answer within '' @ duration_text timeout)"

section \<open>A bounded call\<close>

definition boundedAnswered :: "cli_error + 'v \<Rightarrow> bool" where
  "boundedAnswered r = (case r of Inl e \<Rightarrow> \<not> isContextError e | Inr _ \<Rightarrow> True)"

definition read_result :: "bool \<Rightarrow> string \<Rightarrow> int \<Rightarrow> cli_error + 'v \<Rightarrow> derror + 'v" where
  "read_result ctx_done what timeout r =
     (if boundedAnswered r then (case r of Inl e \<Rightarrow> Inl (Gathered e) | Inr v \<Rightarrow> Inr v)
      else Inl (CheckTimeout (checkTimedOut ctx_done what timeout)))"

text \<open>The value of \<^verbatim>\<open>bounded\<close>, given what it saw of the call: nothing, or its result.\<close>

definition bounded_value :: "bool \<Rightarrow> string \<Rightarrow> int \<Rightarrow> (cli_error + 'v) option \<Rightarrow> derror + 'v" where
  "bounded_value ctx_done what timeout seen =
     (case seen of
        None \<Rightarrow> Inl (CheckTimeout (checkTimedOut ctx_done what timeout))
      | Some r \<Rightarrow> read_result ctx_done what timeout r)"

record 'v bstate =
  b_call :: "(cli_error + 'v) option" \<comment> \<open>what the call returned, once it has\<close>
  b_ch :: "(cli_error + 'v) option" \<comment> \<open>the one-slot channel\<close>
  b_timer :: bool
  b_ctx :: bool
  b_ret :: "(derror + 'v) option" \<comment> \<open>what \<^verbatim>\<open>bounded\<close> returned\<close>
  b_discarder :: bool \<comment> \<open>a goroutine waits for a late result\<close>
  b_discarded :: "'v list"

definition bstart :: "'v bstate" where
  "bstart = \<lparr>b_call = None, b_ch = None, b_timer = False, b_ctx = False, b_ret = None, b_discarder = False, b_discarded = []\<rparr>"

definition abandonBounded :: "bool \<Rightarrow> string \<Rightarrow> int \<Rightarrow> 'v bstate \<Rightarrow> 'v bstate" where
  "abandonBounded discard what timeout s =
     (case b_ch s of
        Some r \<Rightarrow> s\<lparr>b_ch := None, b_ret := Some (read_result (b_ctx s) what timeout r)\<rparr>
      | None \<Rightarrow> s\<lparr>b_ret := Some (Inl (CheckTimeout (checkTimedOut (b_ctx s) what timeout))), b_discarder := discard\<rparr>)"

inductive bounded :: "bool \<Rightarrow> string \<Rightarrow> int \<Rightarrow> 'v bstate \<Rightarrow> 'v bstate \<Rightarrow> bool" for discard what timeout where
  deliver: "b_call s = None \<Longrightarrow> bounded discard what timeout s (s\<lparr>b_call := Some r, b_ch := Some r\<rparr>)"
| timer_fires: "\<not> b_timer s \<Longrightarrow> bounded discard what timeout s (s\<lparr>b_timer := True\<rparr>)"
| ctx_done: "\<not> b_ctx s \<Longrightarrow> bounded discard what timeout s (s\<lparr>b_ctx := True\<rparr>)"
| receive: "b_ret s = None \<Longrightarrow> b_ch s = Some r \<Longrightarrow>
    bounded discard what timeout s (s\<lparr>b_ch := None, b_ret := Some (read_result (b_ctx s) what timeout r)\<rparr>)"
| give_up: "b_ret s = None \<Longrightarrow> b_timer s \<or> b_ctx s \<Longrightarrow> bounded discard what timeout s (abandonBounded discard what timeout s)"
| discard_late: "b_discarder s \<Longrightarrow> b_ch s = Some r \<Longrightarrow>
    bounded discard what timeout s
      (s\<lparr>b_ch := None, b_discarder := False, b_discarded := (case r of Inl _ \<Rightarrow> b_discarded s | Inr v \<Rightarrow> b_discarded s @ [v])\<rparr>)"

section \<open>Rows\<close>

definition timedOut :: "string \<Rightarrow> string \<Rightarrow> dresult" where
  "timedOut name e =
     row name Fail e
       (''run tetherd doctor again; a check that keeps timing out means whatever answers for '' @ name @ '' is wedged, not misconfigured'')"

definition skipped :: "string \<Rightarrow> string \<Rightarrow> dresult" where
  "skipped name flag = row name Unknown (''not checked: '' @ flag) (''run tetherd doctor without '' @ flag @ '' to check this'')"

definition notChecked :: "string \<Rightarrow> string \<Rightarrow> dresult" where
  "notChecked name why = row name Unknown (''not checked: '' @ why) ''fix the failing rows, then run tetherd doctor again''"

definition firstLine :: "string \<Rightarrow> string" where
  "firstLine s = (case cut lf s of Some (a, _) \<Rightarrow> a | None \<Rightarrow> s)"

definition helperExecDefaultPath :: string where
  "helperExecDefaultPath = ExecInstallDir @ ''/'' @ ExecName"

definition taskRow :: "cli_error + task \<Rightarrow> cli_error option \<Rightarrow> dresult" where
  "taskRow r idErr =
     (case r of
        Inr tk \<Rightarrow> CheckTask (Inr tk)
      | Inl e \<Rightarrow>
          if isUsageError e then
            row ''attachable task'' Fail (err_text e)
              ''name the service to check (--cluster/--service, or target.cluster / target.service in .tetherd.yml)''
          else if idErr \<noteq> None then
            notChecked ''attachable task'' (''the AWS identity above failed; ECS said: '' @ err_text e)
          else CheckTask (Inl (err_text e)))"

section \<open>The world\<close>

record doctor_world =
  dw_helper :: "(cli_error + unit) option" \<comment> \<open>what the bounded dial of the helper saw\<close>
  dw_group :: "(cli_error + nat \<times> bool) option"
  dw_stat :: "string \<Rightarrow> (cli_error + FileMode \<times> nat) option"
  dw_look :: "(cli_error + string) option"
  dw_newAWS :: "cli_error + aws_provider"
  dw_targetGroup :: "(Target \<Rightarrow> string \<Rightarrow> cli_error + tg_facts) option" \<comment> \<open>\<^verbatim>\<open>targetGroupReader\<close>, if the provider is one\<close>
  dw_attempts :: "task \<Rightarrow> attempts"
  dw_url :: url_lib
  dw_cred_start :: "string + string"
  dw_creds :: "string \<Rightarrow> string \<Rightarrow> cli_error + string"
  dw_caller :: "string \<Rightarrow> string \<Rightarrow> cli_error + string"
  dw_ifaces :: "(cli_error + iface_addr list) option"
  dw_connect :: "int \<Rightarrow> (cli_error + unit) option"
  dw_resolve :: "string \<Rightarrow> resolve_error + (string list \<times> int)"
  dw_clock :: "string \<Rightarrow> bool \<times> bool" \<comment> \<open>when a probe failed: the budget was gone; the name's own bound was\<close>
  dw_late :: "string \<Rightarrow> bool" \<comment> \<open>whether the budget was gone when that clock was named\<close>
  dw_ctx_text :: string \<comment> \<open>what a context's error says\<close>
  dw_direct :: aws_provider
  dw_now :: time
  dw_budget :: int \<comment> \<open>\<^verbatim>\<open>Deps.AttachRetryBudget\<close>\<close>

definition late_text :: "doctor_world \<Rightarrow> string \<Rightarrow> int \<Rightarrow> string" where
  "late_text w what timeout = checkTimedOut (dw_late w what) what timeout"

definition bounded_in :: "doctor_world \<Rightarrow> string \<Rightarrow> int \<Rightarrow> (cli_error + 'v) option \<Rightarrow> derror + 'v" where
  "bounded_in w what timeout seen = bounded_value (dw_late w what) what timeout seen"

definition err_of :: "'e + 'v \<Rightarrow> 'e option" where
  "err_of r = (case r of Inl e \<Rightarrow> Some e | Inr _ \<Rightarrow> None)"

definition text_of :: "('e \<Rightarrow> string) \<Rightarrow> 'e + 'v \<Rightarrow> string + 'v" where
  "text_of f r = (case r of Inl e \<Rightarrow> Inl (f e) | Inr v \<Rightarrow> Inr v)"

text \<open>A read under a context's deadline: a clock is named, anything else is judged.\<close>

definition clocked :: "doctor_world \<Rightarrow> string \<Rightarrow> string \<Rightarrow> int \<Rightarrow> (string + 'v \<Rightarrow> dresult) \<Rightarrow> cli_error + 'v \<Rightarrow> dresult" where
  "clocked w name what timeout judge r =
     (case r of
        Inl e \<Rightarrow> if isContextError e then timedOut name (late_text w what timeout) else judge (Inl (err_text e))
      | Inr v \<Rightarrow> judge (Inr v))"

section \<open>The checks\<close>

definition DefaultDoctorTimeout :: int where "DefaultDoctorTimeout = 10 * second"
definition HandshakeWait :: int where "HandshakeWait = 15 * second"
definition DefaultAgentCheckTimeout :: int where "DefaultAgentCheckTimeout = StartupWait + HandshakeWait"
definition DefaultDoctorBudget :: int where "DefaultDoctorBudget = 90 * second"
definition sessionManagerPluginName :: string where "sessionManagerPluginName = ''session-manager-plugin''"
definition domainProbeLabel :: string where "domainProbeLabel = ''tetherd-doctor-probe''"
definition HelperProtocolVersion :: string where "HelperProtocolVersion = ''2''"

record DoctorOptions =
  do_Run :: RunOptions
  do_Timeout :: int
  do_Budget :: int
  do_SkipAgent :: bool

definition doctor_timeouts :: "int \<Rightarrow> int \<times> int" where
  "doctor_timeouts t = (if t \<le> 0 then (DefaultDoctorTimeout, DefaultAgentCheckTimeout) else (t, t))"

definition helper_row :: "doctor_world \<Rightarrow> int \<Rightarrow> dresult" where
  "helper_row w timeout =
     CheckHelper HelperProtocolVersion (map_option derr_text (err_of (bounded_in w ''tetherd-helper'' timeout (dw_helper w))))"

definition exec_row :: "doctor_world \<Rightarrow> int \<Rightarrow> RunOptions \<Rightarrow> dresult" where
  "exec_row w timeout opts =
     (let execPath = (if o_ExecPath opts = '''' then helperExecDefaultPath else o_ExecPath opts); name = ''setgid tetherd-exec'' in
      case bounded_in w (''the '' @ GroupName @ '' group lookup'') timeout (dw_group w) of
        Inl e \<Rightarrow>
          if isCheckTimeout e then timedOut name (derr_text e)
          else row name Fail (''cannot read the '' @ GroupName @ '' group: '' @ derr_text e) ''sudo tetherd-helper install''
      | Inr (gid, found) \<Rightarrow>
          (case bounded_in w execPath timeout (dw_stat w execPath) of
             Inl e \<Rightarrow>
               if isCheckTimeout e then timedOut name (derr_text e)
               else CheckExecSetgid execPath 0 0 gid found (Some (derr_text e))
           | Inr (mode, fgid) \<Rightarrow> CheckExecSetgid execPath mode fgid gid found None))"

definition plugin_row :: "doctor_world \<Rightarrow> int \<Rightarrow> dresult" where
  "plugin_row w timeout =
     (case bounded_in w sessionManagerPluginName timeout (dw_look w) of
        Inl e \<Rightarrow> if isCheckTimeout e then timedOut sessionManagerPluginName (derr_text e) else CheckPlugin '''' True
      | Inr path \<Rightarrow> CheckPlugin path False)"

definition identity_of :: "doctor_world \<Rightarrow> cli_error + string" where
  "identity_of w = (case dw_newAWS w of Inl e \<Rightarrow> Inl e | Inr prov \<Rightarrow> ap_Identity prov)"

definition doctor_task :: "doctor_world \<Rightarrow> RunOptions \<Rightarrow> cli_error + (aws_provider \<times> task)" where
  "doctor_task w opts =
     (case discoverTask (\<lambda>_. dw_newAWS w) (dw_direct w) (dw_now w) opts of
        Inl e \<Rightarrow> Inl e
      | Inr (prov, tk, _) \<Rightarrow> Inr (prov, tk))"

definition task_row :: "doctor_world \<Rightarrow> int \<Rightarrow> RunOptions \<Rightarrow> dresult" where
  "task_row w timeout opts =
     (case doctor_task w opts of
        Inl e \<Rightarrow>
          if isContextError e then timedOut ''attachable task'' (late_text w ''the ECS task lookup'' timeout)
          else taskRow (Inl e) (err_of (identity_of w))
      | Inr (_, tk) \<Rightarrow> taskRow (Inr tk) (err_of (identity_of w)))"

definition pid_row :: "doctor_world \<Rightarrow> int \<Rightarrow> RunOptions \<Rightarrow> dresult" where
  "pid_row w timeout opts =
     (case doctor_task w opts of
        Inl _ \<Rightarrow> notChecked ''pidMode'' ''the task could not be found''
      | Inr (prov, tk) \<Rightarrow>
          clocked w ''pidMode'' ''ecs:DescribeTaskDefinition'' timeout CheckPIDMode (ap_PIDMode prov (t_DefinitionARN tk)))"

definition target_group_row :: "doctor_world \<Rightarrow> int \<Rightarrow> RunOptions \<Rightarrow> dresult" where
  "target_group_row w timeout opts =
     (case doctor_task w opts of
        Inl _ \<Rightarrow> notChecked ''target group'' ''the task could not be found, so the service's target group is unknown''
      | Inr (prov, tk) \<Rightarrow>
          (case dw_targetGroup w of
             None \<Rightarrow> notChecked ''target group'' ''the AWS provider in use does not read an ALB target group''
           | Some tgr \<Rightarrow>
               clocked w ''target group'' ''the target group lookup'' timeout CheckTargetGroup
                 (tgr (ecsTarget opts) (t_DefinitionARN tk))))"

text \<open>The session of row 5: what the attach answered, when one was tried.\<close>

definition doctor_session :: "doctor_world \<Rightarrow> bool \<Rightarrow> RunOptions \<Rightarrow> (cli_error + welcome_msg) option" where
  "doctor_session w skip opts =
     (if skip then None
      else case doctor_task w opts of
        Inl _ \<Rightarrow> None
      | Inr (_, tk) \<Rightarrow> Some (fst (dialAgent (dw_budget w) no_incoming (dw_attempts w tk) (dw_now w))))"

definition session_row :: "doctor_world \<Rightarrow> int \<Rightarrow> bool \<Rightarrow> RunOptions \<Rightarrow> dresult" where
  "session_row w agentTimeout skip opts =
     (if skip then skipped ''agent session'' ''--skip-agent''
      else case doctor_session w skip opts of
        None \<Rightarrow> notChecked ''agent session'' ''the task could not be found''
      | Some (Inl e) \<Rightarrow>
          if isContextError e then timedOut ''agent session'' (late_text w ''the tetherd-agent handshake'' agentTimeout)
          else CheckAgentSession '''' '''' (o_TargetEnv opts) (Some (err_text e))
      | Some (Inr wel) \<Rightarrow> CheckAgentSession (w_Version wel) (w_Env wel) (o_TargetEnv opts) None)"

definition env_row :: "doctor_world \<Rightarrow> bool \<Rightarrow> RunOptions \<Rightarrow> dresult" where
  "env_row w skip opts =
     (if skip then skipped ''task env'' ''--skip-agent''
      else case doctor_session w skip opts of
        Some (Inr wel) \<Rightarrow> CheckTaskEnv (length (w_AppEnv wel)) (w_EnvError wel)
      | _ \<Rightarrow> notChecked ''task env'' ''the agent did not answer'')"

definition taskRoleRow :: "doctor_world \<Rightarrow> int \<Rightarrow> (string, string) gomap \<Rightarrow> string \<Rightarrow> dresult" where
  "taskRoleRow w timeout taskEnv region =
     (let credPath = ContainerCredentialsPath (dw_url w) taskEnv in
      if credPath = '''' then CheckCredentialEndpoint '''' '''' None (Inr '''')
      else case dw_cred_start w of
        Inl e \<Rightarrow> row ''task role'' Unknown (''not checked: cannot serve the task's credential endpoint on loopback: '' @ e)
          ''run tetherd doctor again; tetherd run serves the same endpoint and would fail the same way''
      | Inr addr \<Rightarrow>
          (case dw_creds w addr credPath of
             Inl e \<Rightarrow>
               CheckCredentialEndpoint addr credPath
                 (Some (if isContextError e then late_text w ''the task's credential endpoint'' timeout else err_text e)) (Inr '''')
           | Inr creds \<Rightarrow>
               CheckCredentialEndpoint addr credPath None
                 (text_of (\<lambda>e. if isContextError e then late_text w ''sts:GetCallerIdentity with the task's credentials'' timeout
                               else err_text e) (dw_caller w creds region))))"

definition role_row :: "doctor_world \<Rightarrow> int \<Rightarrow> bool \<Rightarrow> RunOptions \<Rightarrow> dresult" where
  "role_row w timeout skip opts =
     (if skip then skipped ''task role'' ''--skip-agent''
      else case (doctor_session w skip opts, doctor_task w opts) of
        (Some (Inr wel), Inr (prov, _)) \<Rightarrow>
          if w_EnvError wel \<noteq> '''' then notChecked ''task role'' ''the task's environment could not be read''
          else taskRoleRow w timeout (w_AppEnv wel) (ap_Region prov)
      | _ \<Rightarrow> notChecked ''task role'' ''the agent did not answer'')"

definition doctor_set :: "doctor_world \<Rightarrow> RunOptions \<Rightarrow> (cli_error + prefix list) option" where
  "doctor_set w opts =
     (case doctor_task w opts of
        Inl _ \<Rightarrow> None
      | Inr (prov, tk) \<Rightarrow> Some (remoteSet (ap_VPCCIDRs prov) (ap_ServiceCIDRs prov) opts tk))"

definition cidrs_row :: "doctor_world \<Rightarrow> int \<Rightarrow> RunOptions \<Rightarrow> dresult" where
  "cidrs_row w timeout opts =
     (case doctor_set w opts of
        None \<Rightarrow> notChecked ''remote CIDRs'' ''the task could not be found, so its VPC is unknown''
      | Some (Inl e) \<Rightarrow>
          if isContextError e then timedOut ''remote CIDRs'' (late_text w ''the VPC CIDR lookup'' timeout)
          else row ''remote CIDRs'' Fail (err_text e)
            ''fix remote_cidrs / local_cidrs / remote_services in .tetherd.yml; tetherd run would refuse for the same reason''
      | Some (Inr cidrs) \<Rightarrow> CheckRemoteCIDRs cidrs)"

definition overlap_row :: "doctor_world \<Rightarrow> int \<Rightarrow> RunOptions \<Rightarrow> dresult" where
  "overlap_row w timeout opts =
     (case doctor_set w opts of
        Some (Inr cidrs) \<Rightarrow>
          (case bounded_in w ''the local interface list'' timeout (dw_ifaces w) of
             Inl e \<Rightarrow> row ''local addresses'' Warn (''cannot list this machine's addresses: '' @ derr_text e)
               ''check the local network configuration; an overlap between the LAN and the captured set would go unnoticed''
           | Inr addrs \<Rightarrow> CheckOverlap (map overlap_text (LocalOverlaps cidrs addrs)))
      | _ \<Rightarrow> notChecked ''local addresses'' ''the captured set is unknown'')"

definition stealRow :: "doctor_world \<Rightarrow> int \<Rightarrow> RunOptions \<Rightarrow> dresult" where
  "stealRow w timeout opts =
     (case stealSettings opts of
        Inl e \<Rightarrow> row ''steal'' Unknown (''not checked: '' @ firstLine (err_text e))
          ''tetherd run resolves these settings from .tetherd.yml and ~/.tetherd/config.yml and would refuse for the same reason; check incoming.local_port there, and that the personal file holds a token''
      | Inr st \<Rightarrow>
          if \<not> inc_Enabled (sc_Incoming st) then CheckSteal (sc_Incoming st) (sc_LocalPort st) False
          else
            let dst = ''127.0.0.1:'' @ itoa_int (sc_LocalPort st) in
            case bounded_in w (''a connect to '' @ dst) timeout (dw_connect w (sc_LocalPort st)) of
              Inr _ \<Rightarrow> CheckSteal (sc_Incoming st) (sc_LocalPort st) True
            | Inl e \<Rightarrow>
                if isCheckTimeout e \<or> isContextFailure e then
                  row ''steal'' Unknown (''not checked: '' @ derr_text e)
                    ''run tetherd doctor again (or with a longer --timeout); a connect to your own machine that neither answers nor is refused means something local is dropping it, not that the port is empty''
                else CheckSteal (sc_Incoming st) (sc_LocalPort st) False)"

definition resolve_text :: "doctor_world \<Rightarrow> resolve_error \<Rightarrow> string" where
  "resolve_text w e = (case e of NotFound s \<Rightarrow> s | ResolveFailed s \<Rightarrow> s | ContextDone \<Rightarrow> dw_ctx_text w)"

fun probe_domains :: "doctor_world \<Rightarrow> int \<Rightarrow> string list \<Rightarrow> (string, DomainProbe) gomap \<Rightarrow> (string, DomainProbe) gomap" where
  "probe_domains w timeout [] probed = probed"
| "probe_domains w timeout (d # ds) probed =
     (case dw_resolve w (domainProbeLabel @ ''.'' @ d) of
        Inl (NotFound _) \<Rightarrow> probe_domains w timeout ds (mput d \<lparr>dp_NotFound = True, dp_Err = None\<rparr> probed)
      | Inl e \<Rightarrow>
          if fst (dw_clock w d) then probed
          else probe_domains w timeout ds (mput d \<lparr>dp_NotFound = False,
                 dp_Err = Some (if snd (dw_clock w d) then late_text w ''the agent'' timeout else resolve_text w e)\<rparr> probed)
      | Inr _ \<Rightarrow> probe_domains w timeout ds (mput d \<lparr>dp_NotFound = False, dp_Err = None\<rparr> probed))"

definition domains_row :: "doctor_world \<Rightarrow> int \<Rightarrow> bool \<Rightarrow> RunOptions \<Rightarrow> dresult" where
  "domains_row w timeout skip opts =
     CheckDomains (o_RemoteDomains opts)
       (case doctor_session w skip opts of Some (Inr _) \<Rightarrow> probe_domains w timeout (o_RemoteDomains opts) [] | _ \<Rightarrow> [])"

section \<open>The report\<close>

definition doctor_report :: "doctor_world \<Rightarrow> int \<times> int \<Rightarrow> bool \<Rightarrow> RunOptions \<Rightarrow> dresult list" where
  "doctor_report w timeouts skip opts =
     (case timeouts of (timeout, agentTimeout) \<Rightarrow>
      [helper_row w timeout,
       exec_row w timeout opts,
       plugin_row w timeout,
       clocked w ''your AWS identity'' ''AWS GetCallerIdentity'' timeout CheckIdentity (identity_of w),
       task_row w timeout opts,
       pid_row w timeout opts,
       target_group_row w timeout opts,
       session_row w agentTimeout skip opts,
       env_row w skip opts,
       role_row w timeout skip opts,
       cidrs_row w timeout opts,
       overlap_row w timeout opts,
       stealRow w timeout opts,
       domains_row w timeout skip opts])"

definition doctor_opts :: "RunOptions \<Rightarrow> RunOptions" where
  "doctor_opts opts = (if o_Transport opts = '''' then opts\<lparr>o_Transport := ''ssm''\<rparr> else opts)"

definition DoctorRunWithDeps :: "doctor_world \<Rightarrow> DoctorOptions \<Rightarrow> (int \<times> cli_error option) \<times> string list" where
  "DoctorRunWithDeps w d =
     (let opts = doctor_opts (do_Run d) in
      if o_Transport opts = ''direct'' then
        ((2, Some (OpError (''tetherd doctor checks an ssm setup; --transport direct has no AWS session, no task definition and no session-manager-plugin to check'' @
            [lf] @ ''        run `tetherd doctor` without --transport direct''))), [])
      else if o_Transport opts \<noteq> ''ssm'' then
        ((2, Some (OpError (''unknown transport '' @ quoted (o_Transport opts) @ '' (ssm | direct)''))), [])
      else
        case Render (doctor_report w (doctor_timeouts (do_Timeout d)) (do_SkipAgent d) opts) of
          (out, failed) \<Rightarrow> ((if 0 < failed then 1 else 0, None), out))"

section \<open>Bounded calls settle\<close>

lemma bounded_read: "read_result c what t r = Inl (Gathered e) \<longleftrightarrow> r = Inl e \<and> \<not> isContextError e"
  "read_result c what t r = Inr v \<longleftrightarrow> r = Inr v"
  by (cases r; auto simp: read_result_def boundedAnswered_def)+

text \<open>
  The invariant: a result is in one place only. While it is in the channel nobody has read it; a waiting
  goroutine has nothing in the channel to wait for that the call will not put there; and what was returned is the
  reading of the call's own result, or a clock's.
\<close>

definition binv :: "bool \<Rightarrow> string \<Rightarrow> int \<Rightarrow> 'v bstate \<Rightarrow> bool" where
  "binv discard what timeout s =
     ((b_ch s = None \<or> b_ch s = b_call s) \<and>
      (b_discarder s \<longrightarrow> discard \<and> b_discarded s = [] \<and> b_ret s \<noteq> None \<and> (b_call s = None \<or> b_ch s = b_call s)) \<and>
      (b_ret s = None \<longrightarrow> b_ch s = b_call s \<and> b_discarded s = []) \<and>
      (\<forall>v. b_ret s = Some (Inr v) \<longrightarrow> b_call s = Some (Inr v) \<and> b_ch s = None \<and> b_discarded s = []) \<and>
      (\<forall>e. b_ret s = Some (Inl (Gathered e)) \<longrightarrow> b_call s = Some (Inl e) \<and> \<not> isContextError e) \<and>
      (\<forall>m. b_ret s = Some (Inl (CheckTimeout m)) \<longrightarrow> m = checkTimedOut True what timeout \<or> m = checkTimedOut False what timeout) \<and>
      (\<forall>v. b_call s = Some (Inr v) \<and> b_ret s \<noteq> None \<and> b_ret s \<noteq> Some (Inr v) \<and> discard \<longrightarrow>
         (b_discarder s \<and> b_ch s = Some (Inr v)) \<or> (\<not> b_discarder s \<and> b_discarded s = [v])) \<and>
      (\<forall>v. v \<in> set (b_discarded s) \<longrightarrow> b_call s = Some (Inr v)) \<and>
      (b_call s = None \<and> b_ret s \<noteq> None \<and> discard \<longrightarrow> b_discarder s))"

lemma read_cases:
  obtains (ans) v where "r = Inr v" and "read_result c what t r = Inr v"
  | (err) e where "r = Inl e" and "\<not> isContextError e" and "read_result c what t r = Inl (Gathered e)"
  | (clock) e where "r = Inl e" and "isContextError e" and "read_result c what t r = Inl (CheckTimeout (checkTimedOut c what t))"
  by (cases r; cases "boundedAnswered r") (auto simp: read_result_def boundedAnswered_def)

lemma clock_text: "checkTimedOut c what t = checkTimedOut True what t \<or> checkTimedOut c what t = checkTimedOut False what t"
  by (cases c) auto

lemma binv_start: "binv discard what timeout bstart"
  by (simp add: binv_def bstart_def)

lemma binv_clocks:
  "binv discard what timeout (s\<lparr>b_timer := b\<rparr>) = binv discard what timeout s"
  "binv discard what timeout (s\<lparr>b_ctx := b\<rparr>) = binv discard what timeout s"
  by (simp_all add: binv_def)

lemma binv_step:
  assumes "bounded discard what timeout s s'" and "binv discard what timeout s"
  shows "binv discard what timeout s'"
  using assms
proof cases
  case (receive r)
  then have "b_call s = Some r" "b_discarded s = []" "\<not> b_discarder s" using assms(2) by (auto simp: binv_def)
  then show ?thesis
    using receive clock_text by (cases rule: read_cases[of r "b_ctx s" what timeout]) (auto simp: binv_def)
next
  case give_up
  show ?thesis
  proof (cases "b_ch s")
    case (Some r)
    then have "b_call s = Some r" "b_discarded s = []" "\<not> b_discarder s" using assms(2) give_up by (auto simp: binv_def)
    then show ?thesis
      using give_up Some clock_text by (cases rule: read_cases[of r "b_ctx s" what timeout]) (auto simp: binv_def abandonBounded_def)
  next
    case None
    then show ?thesis using assms(2) give_up clock_text by (auto simp: binv_def abandonBounded_def)
  qed
next
  case (discard_late r)
  then have "b_call s = Some r" using assms(2) unfolding binv_def by metis
  then show ?thesis using discard_late assms(2) by (cases r) (auto simp: binv_def)
next
  case (deliver r)
  have "v \<notin> set (b_discarded s)" for v
    using assms(2) deliver(2) unfolding binv_def by (metis option.distinct(1))
  then have none: "b_discarded s = []" "b_ret s \<noteq> Some (Inr v)" "b_ret s \<noteq> Some (Inl (Gathered e))" for v e
    subgoal by (metis last_in_set)
    using assms(2) deliver(2) unfolding binv_def by (metis option.distinct(1))+
  have d: "b_discarder s \<longleftrightarrow> b_ret s \<noteq> None \<and> discard" using assms(2) deliver(2) unfolding binv_def by blast
  have t: "\<forall>m. b_ret s = Some (Inl (CheckTimeout m)) \<longrightarrow> m = checkTimedOut True what timeout \<or> m = checkTimedOut False what timeout"
    using assms(2) unfolding binv_def by blast
  show ?thesis using none d t by (simp add: binv_def deliver(1))
next
  case timer_fires
  then show ?thesis using assms(2) by (simp only: binv_clocks)
next
  case ctx_done
  then show ?thesis using assms(2) by (simp only: binv_clocks)
qed

text \<open>Every step uses something up.\<close>

definition bleft :: "'v bstate \<Rightarrow> nat" where
  "bleft s = (if b_call s = None then 2 else 0) + (if b_timer s then 0 else 1) + (if b_ctx s then 0 else 1) +
     (if b_ret s = None then 2 else 0) + (if b_discarder s then 1 else 0)"

lemma bounded_progress: "bounded discard what timeout s s' \<Longrightarrow> bleft s' < bleft s"
  by (induction rule: bounded.induct) (auto simp: bleft_def abandonBounded_def split: option.splits)

lemma bounded_ends:
  assumes "(bounded discard what timeout)\<^sup>*\<^sup>* bstart s"
  shows "bounded discard what timeout s s' \<Longrightarrow> bleft s' < bleft s"
    and "b_ret s = Some (Inl (Gathered e)) \<Longrightarrow> b_call s = Some (Inl e) \<and> \<not> isContextError e"
    and "b_ret s = Some (Inr v) \<Longrightarrow> b_call s = Some (Inr v) \<and> b_discarded s = []"
    and "b_timer s \<Longrightarrow> b_call s = Some r \<Longrightarrow> \<nexists>s'. bounded discard what timeout s s' \<and> b_ctx s' = b_ctx s \<Longrightarrow>
           b_ret s \<noteq> None \<and> \<not> b_discarder s \<and>
           (r = Inr w \<longrightarrow> b_ret s = Some (Inr w) \<or> \<not> discard \<or> b_discarded s = [w])"
proof -
  have inv: "binv discard what timeout s" using assms binv_start by induction (auto intro: binv_step)
  show "bounded discard what timeout s s' \<Longrightarrow> bleft s' < bleft s" by (rule bounded_progress)
  show "b_ret s = Some (Inl (Gathered e)) \<Longrightarrow> b_call s = Some (Inl e) \<and> \<not> isContextError e"
    and "b_ret s = Some (Inr v) \<Longrightarrow> b_call s = Some (Inr v) \<and> b_discarded s = []"
    using inv by (auto simp: binv_def)
  assume t: "b_timer s" and c: "b_call s = Some r" and stuck: "\<nexists>s'. bounded discard what timeout s s' \<and> b_ctx s' = b_ctx s"
  have ret: "b_ret s \<noteq> None"
  proof
    assume "b_ret s = None"
    then have "bounded discard what timeout s (abandonBounded discard what timeout s)" using t by (simp add: bounded.give_up)
    moreover have "b_ctx (abandonBounded discard what timeout s) = b_ctx s" by (simp add: abandonBounded_def split: option.splits)
    ultimately show False using stuck by blast
  qed
  moreover have nd: "\<not> b_discarder s"
  proof
    assume d: "b_discarder s"
    then have "b_ch s = Some r" using inv c by (auto simp: binv_def)
    from bounded.discard_late[OF d this, of discard what timeout] show False using stuck by fastforce
  qed
  moreover have "b_discarded s = [w]" if "r = Inr w" "b_ret s \<noteq> Some (Inr w)" discard
    using inv c ret nd that unfolding binv_def by metis
  ultimately show "b_ret s \<noteq> None \<and> \<not> b_discarder s \<and> (r = Inr w \<longrightarrow> b_ret s = Some (Inr w) \<or> \<not> discard \<or> b_discarded s = [w])"
    by blast
qed

text \<open>C23: A bounded check settles. Its run takes finitely many steps; what it returns is the answer the call itself
  gave, never that answer's own cancellation, or a clock's; and when the timer has fired and the call has come
  back and nothing is left to do, \<^verbatim>\<open>bounded\<close> has returned, no goroutine is left waiting, and a resource the
  call produced was handed to the caller or, where there is a discard, closed exactly once.\<close>

theorem bounded_settles:
  assumes "(bounded discard what timeout)\<^sup>*\<^sup>* bstart s"
  shows "(\<forall>s'. bounded discard what timeout s s' \<longrightarrow> bleft s' < bleft s) \<and>
    (\<forall>e. b_ret s = Some (Inl (Gathered e)) \<longrightarrow> b_call s = Some (Inl e) \<and> \<not> isContextError e) \<and>
    (\<forall>v. b_ret s = Some (Inr v) \<longrightarrow> b_call s = Some (Inr v) \<and> b_discarded s = []) \<and>
    (\<forall>r. b_timer s \<and> b_call s = Some r \<and> (\<nexists>s'. bounded discard what timeout s s' \<and> b_ctx s' = b_ctx s) \<longrightarrow>
       b_ret s \<noteq> None \<and> \<not> b_discarder s \<and>
       (\<forall>w. r = Inr w \<longrightarrow> b_ret s = Some (Inr w) \<or> \<not> discard \<or> b_discarded s = [w]))"
  using bounded_ends[OF assms] by blast

text \<open>A run in which the call answers and its answer is read.\<close>

lemma bounded_example:
  "(bounded True ''dscl'' 5)\<^sup>*\<^sup>* bstart
     \<lparr>b_call = Some (Inr True), b_ch = None, b_timer = True, b_ctx = False, b_ret = Some (Inr True), b_discarder = False, b_discarded = []\<rparr>"
proof -
  let ?b = "bounded True ''dscl'' 5 :: bool bstate \<Rightarrow> bool bstate \<Rightarrow> bool"
  let ?s1 = "bstart\<lparr>b_call := Some (Inr True), b_ch := Some (Inr True)\<rparr> :: bool bstate"
  have "?b bstart ?s1" by (rule bounded.deliver) (simp add: bstart_def)
  moreover have "?b ?s1 (?s1\<lparr>b_timer := True\<rparr>)" by (rule bounded.timer_fires) (simp add: bstart_def)
  moreover have "?b (?s1\<lparr>b_timer := True\<rparr>) (abandonBounded True ''dscl'' 5 (?s1\<lparr>b_timer := True\<rparr>))"
    by (rule bounded.give_up) (simp_all add: bstart_def)
  ultimately have "?b\<^sup>*\<^sup>* bstart (abandonBounded True ''dscl'' 5 (?s1\<lparr>b_timer := True\<rparr>))"
    by (meson converse_rtranclp_into_rtranclp rtranclp.rtrancl_refl)
  then show ?thesis by (simp add: abandonBounded_def bstart_def read_result_def boundedAnswered_def)
qed

theorem bounded_settles_witness:
  "let s = \<lparr>b_call = Some (Inr True), b_ch = None, b_timer = True, b_ctx = False, b_ret = Some (Inr True), b_discarder = False, b_discarded = []\<rparr>
   in (bounded True ''dscl'' 5)\<^sup>*\<^sup>* bstart s \<and> b_ret s = Some (Inr True) \<and> b_call s = Some (Inr True) \<and> b_discarded s = []"
  unfolding Let_def using bounded_example bounded_settles[OF bounded_example] by simp

section \<open>The report\<close>

lemmas row_defs = helper_row_def exec_row_def plugin_row_def clocked_def task_row_def pid_row_def target_group_row_def
  session_row_def env_row_def role_row_def taskRoleRow_def cidrs_row_def overlap_row_def stealRow_def domains_row_def

lemma row_makers [simp]:
  "r_Name (timedOut n e) = n" "r_Status (timedOut n e) = Fail"
  "r_Name (notChecked n y) = n" "r_Status (notChecked n y) = Unknown" "r_Detail (notChecked n y) = ''not checked: '' @ y"
  "r_Name (skipped n f) = n" "r_Status (skipped n f) = Unknown" "r_Detail (skipped n f) = ''not checked: '' @ f"
  by (simp_all add: timedOut_def notChecked_def skipped_def)

lemma row_names [simp]:
  "r_Name (helper_row w t) = ''helper''"
  "r_Name (exec_row w t opts) = ''setgid tetherd-exec''"
  "r_Name (plugin_row w t) = ''session-manager-plugin''"
  "r_Name (clocked w ''your AWS identity'' what t CheckIdentity i) = ''your AWS identity''"
  "r_Name (task_row w t opts) = ''attachable task''"
  "r_Name (pid_row w t opts) = ''pidMode''"
  "r_Name (target_group_row w t opts) = ''target group''"
  "r_Name (session_row w t skip opts) = ''agent session''"
  "r_Name (env_row w skip opts) = ''task env''"
  "r_Name (role_row w t skip opts) = ''task role''"
  "r_Name (cidrs_row w t opts) = ''remote CIDRs''"
  "r_Name (overlap_row w t opts) = ''local addresses''"
  "r_Name (stealRow w t opts) = ''steal''"
  "r_Name (domains_row w t skip opts) = ''remote domains''"
  by (auto simp: row_defs taskRow_def sessionManagerPluginName_def Let_def split: sum.splits option.splits prod.splits)

definition doctor_rows :: "string list" where
  "doctor_rows = [''helper'', ''setgid tetherd-exec'', ''session-manager-plugin'', ''your AWS identity'', ''attachable task'', ''pidMode'',
     ''target group'', ''agent session'', ''task env'', ''task role'', ''remote CIDRs'', ''local addresses'', ''steal'', ''remote domains'']"

lemma report_names: "map r_Name (doctor_report w ts skip opts) = doctor_rows"
  by (simp add: doctor_report_def doctor_rows_def split: prod.split)


lemma report_members:
  "r \<in> set (doctor_report w (t, t') skip opts) \<longleftrightarrow>
     r = helper_row w t \<or> r = exec_row w t opts \<or> r = plugin_row w t \<or>
     r = clocked w ''your AWS identity'' ''AWS GetCallerIdentity'' t CheckIdentity (identity_of w) \<or>
     r = task_row w t opts \<or> r = pid_row w t opts \<or> r = target_group_row w t opts \<or> r = session_row w t' skip opts \<or>
     r = env_row w skip opts \<or> r = role_row w t skip opts \<or> r = cidrs_row w t opts \<or> r = overlap_row w t opts \<or>
     r = stealRow w t opts \<or> r = domains_row w t skip opts"
  by (simp add: doctor_report_def)

definition says_unchecked :: "dresult \<Rightarrow> bool" where
  "says_unchecked r = (r_Status r = Unknown \<longrightarrow> has_prefix (r_Detail r) ''not checked: '')"

lemma says_unchecked_makers [simp]:
  "says_unchecked (row n s d x) \<longleftrightarrow> (s = Unknown \<longrightarrow> has_prefix d ''not checked: '')"
  "says_unchecked (green n d)" "says_unchecked (timedOut n e)" "says_unchecked (notChecked n y)" "says_unchecked (skipped n f)"
  by (auto simp: says_unchecked_def)

lemma says_unchecked_checks [simp]:
  "says_unchecked (CheckHelper v e)" "says_unchecked (CheckExecSetgid path mode fg gg found st)" "says_unchecked (CheckPlugin path lookErr)"
  "says_unchecked (CheckIdentity i)" "says_unchecked (CheckTask tk)" "says_unchecked (CheckPIDMode pm)" "says_unchecked (CheckTargetGroup tg)"
  "says_unchecked (CheckAgentSession v' ae we de)" "says_unchecked (CheckTaskEnv n ee)" "says_unchecked (CheckCredentialEndpoint a cp c ident)"
  "says_unchecked (CheckOverlap ov)" "says_unchecked (CheckRemoteCIDRs cs)" "says_unchecked (CheckSteal inc port l)"
  "says_unchecked (CheckDomains ds probed)"
  by (simp_all add: judgement_defs Let_def split: option.splits sum.splits)

lemma says_unchecked_each [simp]:
  "says_unchecked (helper_row w t)"
  "says_unchecked (exec_row w t opts)"
  "says_unchecked (plugin_row w t)"
  "says_unchecked (clocked w ''your AWS identity'' what t CheckIdentity i)"
  "says_unchecked (task_row w t opts)"
  "says_unchecked (pid_row w t opts)"
  "says_unchecked (target_group_row w t opts)"
  "says_unchecked (session_row w t skip opts)"
  "says_unchecked (env_row w skip opts)"
  "says_unchecked (taskRoleRow w t te region)"
  "says_unchecked (cidrs_row w t opts)"
  "says_unchecked (overlap_row w t opts)"
  "says_unchecked (stealRow w t opts)"
  "says_unchecked (domains_row w t skip opts)"
  by (simp_all add: helper_row_def exec_row_def plugin_row_def clocked_def task_row_def pid_row_def target_group_row_def
      session_row_def env_row_def taskRoleRow_def cidrs_row_def overlap_row_def stealRow_def domains_row_def taskRow_def Let_def
      split: sum.split option.split prod.split)

lemma says_unchecked_role [simp]: "says_unchecked (role_row w t skip opts)"
  by (simp add: role_row_def split: sum.split option.split prod.split)

lemma says_unchecked_rows: "r \<in> set (doctor_report w ts skip opts) \<Longrightarrow> says_unchecked r"
  by (cases ts) (simp only: report_members, elim disjE, simp_all)

lemma unchecked_rows:
  assumes "r \<in> set (doctor_report w ts skip opts)"
  shows "r_Status r = Unknown \<Longrightarrow> has_prefix (r_Detail r) ''not checked: ''"
    and "doctor_task w opts = Inl e \<Longrightarrow>
         r_Name r \<in> {''pidMode'', ''target group'', ''agent session'', ''task env'', ''task role'', ''remote CIDRs'', ''local addresses''} \<Longrightarrow>
         r_Status r = Unknown"
proof -
  show "r_Status r = Unknown \<Longrightarrow> has_prefix (r_Detail r) ''not checked: ''"
    using says_unchecked_rows[OF assms] by (simp add: says_unchecked_def)
  assume none: "doctor_task w opts = Inl e"
    and n: "r_Name r \<in> {''pidMode'', ''target group'', ''agent session'', ''task env'', ''task role'', ''remote CIDRs'', ''local addresses''}"
  have "r_Status (pid_row w t opts) = Unknown" "r_Status (target_group_row w t opts) = Unknown" "r_Status (session_row w t skip opts) = Unknown"
    "r_Status (env_row w skip opts) = Unknown" "r_Status (role_row w t skip opts) = Unknown" "r_Status (cidrs_row w t opts) = Unknown"
    "r_Status (overlap_row w t opts) = Unknown" for t
    by (simp_all add: none pid_row_def target_group_row_def session_row_def env_row_def role_row_def cidrs_row_def overlap_row_def
        doctor_session_def doctor_set_def)
  note unknown = this
  obtain t t' where ts: "ts = (t, t')" by (cases ts)
  show "r_Status r = Unknown"
    using assms[unfolded ts report_members] n by (elim disjE) (simp_all only: unknown row_names, simp_all)
qed

text \<open>C22: The report never guesses: a row with no verdict says \<^verbatim>\<open>not checked\<close>, and when no task could be found every
  row that needs the task or its session: the pid mode, the target group, the agent session, the task's environment
  and role, the captured set and its overlaps, is such a row, whatever else is true of the machine.\<close>

theorem doctor_never_guesses:
  assumes "r \<in> set (doctor_report w ts skip opts)"
  shows "(r_Status r = Unknown \<longrightarrow> has_prefix (r_Detail r) ''not checked: '') \<and>
    ((\<exists>e. doctor_task w opts = Inl e) \<longrightarrow>
     r_Name r \<in> {''pidMode'', ''target group'', ''agent session'', ''task env'', ''task role'', ''remote CIDRs'', ''local addresses''} \<longrightarrow>
     r_Status r = Unknown)"
  using unchecked_rows[OF assms] by blast

section \<open>What a clean report promises\<close>

definition fine :: "dresult \<Rightarrow> bool" where
  "fine r = (r_Status r = OK \<or> r_Status r = Warn)"

lemma fine_makers [simp]:
  "\<not> fine (timedOut n e)" "\<not> fine (notChecked n y)" "\<not> fine (skipped n f)" "fine (green n d)" "\<not> fine (row n Fail d x)" "\<not> fine (row n Unknown d x)"
  by (simp_all add: fine_def)

lemma fine_session:
  assumes "fine (session_row w t False opts)"
  obtains prov tk wel where "doctor_task w opts = Inr (prov, tk)"
    and "fst (dialAgent (dw_budget w) no_incoming (dw_attempts w tk) (dw_now w)) = Inr wel" and "w_Env wel = o_TargetEnv opts"
    and "doctor_session w False opts = Some (Inr wel)"
  using assms
  by (auto simp: session_row_def doctor_session_def CheckAgentSession_def split: sum.splits option.splits prod.splits if_splits)

lemma fine_env: "fine (env_row w False opts) \<Longrightarrow> doctor_session w False opts = Some (Inr wel) \<Longrightarrow> w_EnvError wel = ''''"
  by (auto simp: env_row_def CheckTaskEnv_def split: if_splits)

lemma fine_cidrs: "fine (cidrs_row w t opts) \<Longrightarrow> \<exists>cidrs. doctor_set w opts = Some (Inr cidrs)"
  by (auto simp: cidrs_row_def split: option.splits sum.splits if_splits)

lemma fine_steal: "fine (stealRow w t opts) \<Longrightarrow> \<exists>st. stealSettings opts = Inr st"
  by (auto simp: stealRow_def split: sum.splits)

lemma fine_helper: "fine (helper_row w t) \<Longrightarrow> dw_helper w = Some (Inr ())"
  by (auto simp: helper_row_def CheckHelper_def bounded_in_def bounded_value_def read_result_def boundedAnswered_def err_of_def
      split: option.splits sum.splits if_splits)

text \<open>\<^verbatim>\<open>Discover\<close> and \<^verbatim>\<open>DiscoverAll\<close> of one provider agree: doctor looks at the task a run is attached to first.\<close>

lemma discover_agrees:
  assumes "newAWS opts = Inr (sdkProvider render sorter aa)" and "discoverTask newAWS direct now opts = Inr (prov, tk, out)" and "o_Transport opts = ''ssm''"
  shows "prov = sdkProvider render sorter aa" and "\<exists>tasks out'. discoverTasks newAWS direct now opts = Inr (prov, tasks, out') \<and> hd tasks = tk"
  using assms
  by (auto simp: discoverTask_def discoverTasks_def sdkProvider_def Discover_def op_error_def split: if_splits sum.splits)


section \<open>A healthy machine\<close>

definition healthy_task :: ecs_task where
  "healthy_task = \<lparr>et_TaskArn = ''arn/c/t'', et_LastStatus = ''RUNNING'', et_EnableExecuteCommand = True,
     et_Containers = [\<lparr>co_Name = ''tetherd-agent'', co_RuntimeId = ''rt'',
       co_ManagedAgents = [\<lparr>ma_Name = ''ExecuteCommandAgent'', ma_LastStatus = ''RUNNING''\<rparr>]\<rparr>],
     et_TaskDefinitionArn = ''td'', et_StartedAt = Some 4, et_Attachments = []\<rparr>"

definition healthy_apis :: aws_apis where
  "healthy_apis = \<lparr>aa_Region = ''r'', aa_ecs = \<lparr>api_ListTasks = Inr [''arn/c/t''], api_DescribeTasks = (\<lambda>_. Inr [healthy_task])\<rparr>,
     aa_subnets = (\<lambda>_. Inr [''v'']), aa_vpcs = (\<lambda>_. Inr [[\<lparr>ca_CidrBlock = prefix_string vpc16, ca_Associated = True\<rparr>]]),
     aa_plists = (\<lambda>_. Inl ''''), aa_entries = (\<lambda>_ _. Inl ''''), aa_cancelled = (\<lambda>_ _. False),
     aa_taskdef = (\<lambda>_. Inr (Some \<lparr>td_Containers = [], td_PidMode = ''task''\<rparr>)), aa_caller = Inr ''arn:me''\<rparr>"

definition healthy_welcome :: welcome_msg where
  "healthy_welcome = \<lparr>w_Version = Version, w_TaskARN = ''arn/c/t'', w_Env = ''dev'', w_AppEnv = [], w_EnvError = '''', w_Others = [], w_Sessions = []\<rparr>"

definition healthy_world :: doctor_world where
  "healthy_world = \<lparr>dw_helper = Some (Inr ()), dw_group = Some (Inr (300, True)), dw_stat = (\<lambda>_. Some (Inr (ModeSetgid OR 493, 300))),
     dw_look = Some (Inr ''/p''), dw_newAWS = Inr (sdkProvider (\<lambda>_. '''') (sort_key t_StartedAt) healthy_apis),
     dw_targetGroup = Some (\<lambda>_ _. Inr \<lparr>tf_Name = ''g'', tf_Protocol = ''HTTP'', tf_ProtocolVersion = ''HTTP1'', tf_Port = 8080, tf_AgentProxy = ''''\<rparr>),
     dw_attempts = (\<lambda>_. \<lparr>at_try = (\<lambda>_. Connection None (Inr (LWelcome healthy_welcome))), at_took = (\<lambda>_. 0), at_late = (\<lambda>_. 0),
                          at_cancelled = (\<lambda>_. False)\<rparr>),
     dw_url = (\<lambda>_. None), dw_cred_start = Inl '''', dw_creds = (\<lambda>_ _. Inl (OpError '''')), dw_caller = (\<lambda>_ _. Inl (OpError '''')),
     dw_ifaces = Some (Inr []), dw_connect = (\<lambda>_. Some (Inr ())),
     dw_resolve = (\<lambda>_. Inl (ResolveFailed ''i/o deadline reached'')), dw_clock = (\<lambda>_. (True, True)), dw_late = (\<lambda>_. True), dw_ctx_text = '''',
     dw_direct = directProvider (\<lambda>_. Inl ''''), dw_now = 0, dw_budget = 0\<rparr>"

definition healthy_options :: "string list \<Rightarrow> RunOptions" where
  "healthy_options ds = zero_options\<lparr>o_Transport := ''ssm'', o_Cluster := ''c'', o_Service := ''s'', o_TargetEnv := ''dev'', o_NoIncoming := True, o_RemoteDomains := ds\<rparr>"

lemma healthy_sel:
  "dw_helper healthy_world = Some (Inr ())" "dw_group healthy_world = Some (Inr (300, True))"
  "dw_stat healthy_world = (\<lambda>_. Some (Inr (ModeSetgid OR 493, 300)))" "dw_look healthy_world = Some (Inr ''/p'')"
  "dw_newAWS healthy_world = Inr (sdkProvider (\<lambda>_. '''') (sort_key t_StartedAt) healthy_apis)"
  "dw_targetGroup healthy_world = Some (\<lambda>_ _. Inr \<lparr>tf_Name = ''g'', tf_Protocol = ''HTTP'', tf_ProtocolVersion = ''HTTP1'', tf_Port = 8080, tf_AgentProxy = ''''\<rparr>)"
  "dw_ifaces healthy_world = Some (Inr [])" "dw_url healthy_world = (\<lambda>_. None)"
  by (simp_all add: healthy_world_def)

lemma healthy_opts:
  "o_Transport (healthy_options ds) = ''ssm''" "o_TargetEnv (healthy_options ds) = ''dev''" "o_NoIncoming (healthy_options ds)" "o_RemoteDomains (healthy_options ds) = ds"
  "o_RemoteCIDRs (healthy_options ds) = []" "o_LocalCIDRs (healthy_options ds) = []" "o_RemoteServices (healthy_options ds) = []" "\<not> o_PinCredentialRoute (healthy_options ds)"
  by (simp_all add: healthy_options_def zero_options_def)

lemmas answered_in = bounded_in_def bounded_value_def read_result_def boundedAnswered_def

lemma healthy_task_found:
  "\<exists>tk. doctor_task healthy_world (healthy_options ds) = Inr (sdkProvider (\<lambda>_. '''') (sort_key t_StartedAt) healthy_apis, tk) \<and> t_DefinitionARN tk = ''td''"
  by (simp add: doctor_task_def discoverTask_def healthy_world_def healthy_options_def zero_options_def sdkProvider_def op_error_def
      Discover_def DiscoverAll_def healthy_apis_def healthy_task_def eligible_tasks_def judge_task_def Let_def ecsTarget_def
      find_agent_def DefaultAgentContainer_def exec_status_def taskID_def after_last_def)

lemma healthy_attach: "fst (dialAgent (dw_budget healthy_world) no_incoming (dw_attempts healthy_world tk) n) = Inr healthy_welcome"
  by (simp add: dialAgent_def no_incoming_def healthy_world_def attachAgent_def Dial_def)

lemma healthy_vpc: "VPCCIDRs (aa_subnets healthy_apis) (aa_vpcs healthy_apis) s = Inr [vpc16]"
proof -
  have "parse_prefix4 (prefix_string vpc16) = Some vpc16" unfolding vpc16_def by (rule parse_prefix_string) simp
  then show ?thesis using vpc16_canonical by (simp add: healthy_apis_def VPCCIDRs_def List.map_filter_simps canonical_def)
qed

lemma healthy_rows: "list_all fine (butlast (doctor_report healthy_world ts False (healthy_options ds)))"
proof -
  let ?w = healthy_world and ?o = "healthy_options ds"
  obtain tk where tk: "doctor_task ?w ?o = Inr (sdkProvider (\<lambda>_. '''') (sort_key t_StartedAt) healthy_apis, tk)"
    and td: "t_DefinitionARN tk = ''td''" using healthy_task_found by blast
  have s: "doctor_session ?w False ?o = Some (Inr healthy_welcome)" by (simp add: doctor_session_def tk healthy_attach)
  have set: "doctor_set ?w ?o = Some (Inr [vpc16])"
    by (simp add: doctor_set_def tk sdkProvider_def remoteSet_def healthy_vpc healthy_opts applyLocalCIDRs_def credentialRouteFloor_def)
  have 1: "fine (helper_row ?w t)" "fine (exec_row ?w t ?o)" "fine (plugin_row ?w t)" for t
    by (simp_all add: helper_row_def exec_row_def plugin_row_def answered_in err_of_def healthy_sel CheckHelper_def CheckExecSetgid_def
        CheckPlugin_def Let_def ModeSetgid_def)
  have 2: "fine (clocked ?w ''your AWS identity'' what t CheckIdentity (identity_of ?w))" for what t
    by (simp add: clocked_def identity_of_def healthy_sel sdkProvider_def healthy_apis_def op_error_def CheckIdentity_def)
  have 3: "fine (task_row ?w t ?o)" "fine (target_group_row ?w t ?o)" for t
    by (simp_all add: tk task_row_def taskRow_def CheckTask_def target_group_row_def clocked_def healthy_sel CheckTargetGroup_def
        TargetGroupHTTP1_def proxyPort_def DefaultProxyPort_def)
  have 4: "fine (pid_row ?w t ?o)" for t
    using td by (simp add: tk pid_row_def clocked_def sdkProvider_def healthy_apis_def op_error_def PIDMode_def describe_def CheckPIDMode_def)
  have 5: "fine (session_row ?w t False ?o)" "fine (env_row ?w False ?o)" for t
    by (simp_all add: s session_row_def env_row_def healthy_welcome_def CheckAgentSession_def CheckTaskEnv_def healthy_opts)
  have 6: "fine (role_row ?w t False ?o)" for t
    by (simp add: s tk role_row_def healthy_welcome_def taskRoleRow_def ContainerCredentialsPath_def endpointURL_def mstr_def
        CheckCredentialEndpoint_def)
  have 7: "fine (cidrs_row ?w t ?o)" "fine (overlap_row ?w t ?o)" for t
    by (simp_all add: set cidrs_row_def overlap_row_def answered_in healthy_sel CheckOverlap_def CheckRemoteCIDRs_def Let_def vpc16_def)
  have 8: "fine (stealRow ?w t ?o)" for t
    by (simp add: stealRow_def stealSettings_def healthy_opts no_incoming_def CheckSteal_def)
  show "list_all fine (butlast (doctor_report ?w ts False ?o))"
    using 1 2 3 4 5 6 7 8 by (simp add: doctor_report_def split: prod.split)
qed

lemma healthy_report: "list_all fine (doctor_report healthy_world ts False (healthy_options []))"
proof -
  obtain t t' where ts: "ts = (t, t')" by (cases ts)
  have "fine (domains_row healthy_world t False (healthy_options []))" by (simp add: domains_row_def healthy_opts CheckDomains_def)
  then show ?thesis using healthy_rows[of ts "[]"] by (simp add: ts doctor_report_def)
qed


definition logged_out :: doctor_world where
  "logged_out = healthy_world\<lparr>dw_newAWS := Inl (OpError ''token expired'')\<rparr>"

theorem doctor_never_guesses_witness:
  "let r = pid_row logged_out 1 (healthy_options []) in r_Status r = Unknown \<and> has_prefix (r_Detail r) ''not checked: ''"
proof -
  let ?r = "pid_row logged_out 1 (healthy_options [])"
  have m: "?r \<in> set (doctor_report logged_out (1, 1) False (healthy_options []))" by (simp add: doctor_report_def)
  have t: "doctor_task logged_out (healthy_options []) = Inl (Wrapped ''aws config'' (OpError ''token expired''))"
    by (simp add: doctor_task_def discoverTask_def logged_out_def healthy_options_def zero_options_def)
  have u: "r_Status ?r = Unknown" by (rule doctor_never_guesses[OF m, THEN conjunct2, rule_format]) (auto simp: t)
  show ?thesis using u doctor_never_guesses[OF m] u by (simp add: Let_def)
qed

text \<open>
  Two of the report's clocks reach the reader as something else. When the budget runs out while the names are being
  resolved, no row fails: the report is incomplete and exits 0. And the deadline of the handshake is a read deadline
  of the stream, whose error is no context's, so it is answered with advice about the sidecar.
\<close>

lemma fine_none: "list_all fine rs \<Longrightarrow> filter (\<lambda>r. r_Status r = Fail) rs = []"
  by (auto simp: filter_empty_conv list_all_iff fine_def)

lemma unfinished_report_exits_0:
  "r_Status (domains_row healthy_world t False (healthy_options [''d''])) = Unknown"
  "fst (DoctorRunWithDeps healthy_world \<lparr>do_Run = healthy_options [''d''], do_Timeout = 0, do_Budget = 0, do_SkipAgent = False\<rparr>) = (0, None)"
proof -
  let ?o = "healthy_options [''d'']"
  obtain tk where "doctor_task healthy_world ?o = Inr (sdkProvider (\<lambda>_. '''') (sort_key t_StartedAt) healthy_apis, tk)"
    using healthy_task_found by blast
  then have s: "doctor_session healthy_world False ?o = Some (Inr healthy_welcome)" by (simp add: doctor_session_def healthy_attach)
  have p: "probe_domains healthy_world t [''d''] [] = []" for t by (simp add: healthy_world_def)
  show u: "r_Status (domains_row healthy_world t False ?o) = Unknown" for t
    by (simp add: domains_row_def s healthy_opts p CheckDomains_def List.map_filter_simps del: probe_domains.simps)
  let ?rows = "doctor_report healthy_world (doctor_timeouts 0) False ?o"
  obtain t t' where ts: "doctor_timeouts 0 = (t, t')" by fastforce
  have split: "?rows = butlast ?rows @ [domains_row healthy_world t False ?o]" by (simp add: ts doctor_report_def)
  have "filter (\<lambda>r. r_Status r = Fail) (butlast ?rows @ [domains_row healthy_world t False ?o]) = []"
    unfolding filter_append fine_none[OF healthy_rows] using u[of t] by simp
  then have "filter (\<lambda>r. r_Status r = Fail) ?rows = []" unfolding split[symmetric] .
  then have "snd (Render ?rows) = 0" by (simp add: Render_failed)
  then show "fst (DoctorRunWithDeps healthy_world \<lparr>do_Run = ?o, do_Timeout = 0, do_Budget = 0, do_SkipAgent = False\<rparr>) = (0, None)"
    by (simp add: DoctorRunWithDeps_def doctor_opts_def healthy_opts case_prod_beta)
qed

lemma handshake_error_is_no_clock: "attachAgent (Connection tr reply) = (Inl e, b) \<Longrightarrow> \<not> isContextError e"
  by (auto simp: attachAgent_def dial_failure_def split: sum.splits dial_error.splits)

end
