(* ===== verification/Router.thy ===== *)
theory Router
  imports Netip
begin

text \<open>
  The helper's host routes: \<^verbatim>\<open>internal/helper/route.go\<close>. The command \<^verbatim>\<open>route(8)\<close> is a
  parameter: what it answers (whether it succeeded, and its output) is a function of the commands
  run so far and the new one. A router keeps the list of its pins, the content of its pin file and
  the trace of its commands.
\<close>

section \<open>Addresses and commands\<close>

datatype ipaddr = IP4 addr4 | IP6 string

fun ip_string :: "ipaddr \<Rightarrow> string" where
  "ip_string (IP4 a) = addr_string a"
| "ip_string (IP6 s) = s"

datatype rcmd = RAdd ipaddr | RGet ipaddr | RDelete ipaddr

record route_env =
  re_run :: "rcmd list \<Rightarrow> rcmd \<Rightarrow> bool \<times> string" \<comment> \<open>success and output, given the history\<close>
  re_pinfile :: bool \<comment> \<open>\<^verbatim>\<open>PinFile\<close> is not empty\<close>
  re_write :: "rcmd list \<Rightarrow> bool" \<comment> \<open>whether writing the pin file succeeds\<close>

record router =
  r_set :: "ipaddr list"
  r_file :: "string option" \<comment> \<open>the pin file, if it exists\<close>
  r_trace :: "rcmd list"

definition new_router :: "string option \<Rightarrow> router" where
  "new_router file = \<lparr>r_set = [], r_file = file, r_trace = []\<rparr>"

definition allowedHosts :: "ipaddr list" where
  "allowedHosts = [IP4 (of_octets 169 254 170 2)]"

definition maxHosts :: nat where "maxHosts = 8"

definition hostAllowed :: "ipaddr \<Rightarrow> bool" where
  "hostAllowed h = (h \<in> set allowedHosts)"

definition pinned :: "router \<Rightarrow> ipaddr \<Rightarrow> bool" where
  "pinned r h = (h \<in> set (r_set r))"

definition run :: "route_env \<Rightarrow> rcmd \<Rightarrow> router \<Rightarrow> router \<times> bool \<times> string" where
  "run env c r = (r\<lparr>r_trace := r_trace r @ [c]\<rparr>, re_run env (r_trace r) c)"

section \<open>Reading route(8)\<close>

datatype routeGetState = routeUnreadable | routeNoHost | routeLoopback | routeDisplaceable

definition newline :: char where "newline = CHR 0x0A"

text \<open>The \<^verbatim>\<open>destination:\<close> field, the first one; empty when there is none.\<close>

definition routeGetDestination :: "string \<Rightarrow> string" where
  "routeGetDestination out =
     (case find (\<lambda>f. length f = 2 \<and> f ! 0 = ''destination:'') (map str_fields (split_on newline out)) of
        Some f \<Rightarrow> f ! 1 | None \<Rightarrow> '''')"

text \<open>The \<^verbatim>\<open>interface:\<close> field, the last one.\<close>

definition routeGetInterface :: "string \<Rightarrow> string" where
  "routeGetInterface out =
     foldl (\<lambda>acc f. if length f = 2 \<and> f ! 0 = ''interface:'' then f ! 1 else acc) ''''
       (map str_fields (split_on newline out))"

definition classifyRouteGet :: "string \<Rightarrow> ipaddr \<Rightarrow> routeGetState" where
  "classifyRouteGet out h =
     (let iface = routeGetInterface out; dest = routeGetDestination out in
      if dest = '''' then routeUnreadable
      else if dest \<noteq> ip_string h then routeNoHost
      else if iface = '''' then routeUnreadable
      else if iface = ''lo0'' then routeLoopback
      else routeDisplaceable)"

definition destinationExists :: "string \<Rightarrow> bool" where
  "destinationExists out = contains (to_lower out) ''file exists''"

section \<open>Pinning\<close>

datatype route_error =
    NoHosts | TooManyHosts nat | NotAllowed ipaddr | AddFailed ipaddr string | CannotDescribe ipaddr string
  | AlreadyLoopback ipaddr | NoHostRoute ipaddr | Unreadable ipaddr | DeleteFailed ipaddr string

definition pins_text :: "ipaddr list \<Rightarrow> string" where
  "pins_text hs = concat (map (\<lambda>h. ip_string h @ [newline]) hs)"

definition savePins :: "route_env \<Rightarrow> router \<Rightarrow> router" where
  "savePins env r =
     (if \<not> re_pinfile env then r
      else if re_write env (r_trace r) then r\<lparr>r_file := Some (pins_text (r_set r))\<rparr>
      else r)"

definition reachesLoopback :: "route_env \<Rightarrow> ipaddr \<Rightarrow> router \<Rightarrow> router \<times> bool" where
  "reachesLoopback env h r =
     (case run env (RGet h) r of
        (r', ok, out) \<Rightarrow> (r', ok \<and> classifyRouteGet out h = routeLoopback))"

definition displaceConflict :: "route_env \<Rightarrow> ipaddr \<Rightarrow> router \<Rightarrow> router \<times> route_error option" where
  "displaceConflict env h r =
     (case run env (RGet h) r of
        (r', ok, got) \<Rightarrow>
          if \<not> ok then (r', Some (CannotDescribe h got))
          else case classifyRouteGet got h of
            routeLoopback \<Rightarrow> (r', Some (AlreadyLoopback h))
          | routeNoHost \<Rightarrow> (r', Some (NoHostRoute h))
          | routeUnreadable \<Rightarrow> (r', Some (Unreadable h))
          | routeDisplaceable \<Rightarrow>
              (case run env (RDelete h) r' of
                 (r'', ok', out) \<Rightarrow> (r'', if ok' then None else Some (DeleteFailed h out))))"

definition pin :: "route_env \<Rightarrow> ipaddr \<Rightarrow> router \<Rightarrow> router \<times> route_error option" where
  "pin env h r =
     (case run env (RAdd h) r of
        (r1, ok, out) \<Rightarrow>
          if ok then (r1, None)
          else if \<not> destinationExists out then (r1, Some (AddFailed h out))
          else (case displaceConflict env h r1 of
            (r2, Some e) \<Rightarrow> (r2, Some e)
          | (r2, None) \<Rightarrow>
              (case run env (RAdd h) r2 of
                 (r3, ok', out') \<Rightarrow> (r3, if ok' then None else Some (AddFailed h out')))))"

text \<open>Pinning one host and recording it.\<close>

definition pin_record :: "route_env \<Rightarrow> ipaddr \<Rightarrow> router \<Rightarrow> router \<times> route_error option" where
  "pin_record env h r =
     (case pin env h r of
        (r', Some e) \<Rightarrow> (r', Some e)
      | (r', None) \<Rightarrow>
          (if \<not> pinned r' h then savePins env (r'\<lparr>r_set := r_set r' @ [h]\<rparr>) else r', None))"

fun set_hosts :: "route_env \<Rightarrow> ipaddr list \<Rightarrow> router \<Rightarrow> router \<times> route_error option" where
  "set_hosts env [] r = (r, None)"
| "set_hosts env (h # hs) r =
     (if pinned r h then
        (case reachesLoopback env h r of
           (r', True) \<Rightarrow> set_hosts env hs r'
         | (r', False) \<Rightarrow>
             (case pin_record env h r' of
                (r'', Some e) \<Rightarrow> (r'', Some e)
              | (r'', None) \<Rightarrow> set_hosts env hs r''))
      else
        (case pin_record env h r of
           (r'', Some e) \<Rightarrow> (r'', Some e)
         | (r'', None) \<Rightarrow> set_hosts env hs r''))"

definition Router_Set :: "route_env \<Rightarrow> ipaddr list \<Rightarrow> router \<Rightarrow> router \<times> route_error option" where
  "Router_Set env hosts r =
     (if length hosts = 0 then (r, Some NoHosts)
      else if maxHosts < length hosts then (r, Some (TooManyHosts (length hosts)))
      else case find (\<lambda>h. \<not> hostAllowed h) hosts of
        Some h \<Rightarrow> (r, Some (NotAllowed h))
      | None \<Rightarrow> set_hosts env hosts r)"

section \<open>Clearing\<close>

text \<open>The loop of \<^verbatim>\<open>Clear\<close>: the router, the hosts that stay, and the first error.\<close>

fun clear_hosts :: "route_env \<Rightarrow> ipaddr list \<Rightarrow> router \<Rightarrow> router \<times> ipaddr list \<times> route_error option" where
  "clear_hosts env [] r = (r, [], None)"
| "clear_hosts env (h # hs) r =
     (case run env (RDelete h) r of
        (r', ok, out) \<Rightarrow>
          (case clear_hosts env hs r' of
             (r'', left, err) \<Rightarrow>
               if ok then (r'', left, err) else (r'', h # left, Some (DeleteFailed h out))))"

definition Router_Clear :: "route_env \<Rightarrow> router \<Rightarrow> router \<times> route_error option" where
  "Router_Clear env r =
     (case clear_hosts env (r_set r) r of
        (r', left, err) \<Rightarrow> (savePins env (r'\<lparr>r_set := left\<rparr>), err))"

text \<open>The addresses of a pin record that \<^verbatim>\<open>ClearRecorded\<close> acts on; other lines are ignored.\<close>

definition recorded_hosts :: "string \<Rightarrow> ipaddr list" where
  "recorded_hosts text =
     List.map_filter
       (\<lambda>l. let l' = trim_space l in
            if l' = '''' then None
            else case parse_addr4 l' of
              Some a \<Rightarrow> if hostAllowed (IP4 a) then Some (IP4 a) else None
            | None \<Rightarrow> None)
       (split_on newline text)"

definition ClearRecorded :: "route_env \<Rightarrow> router \<Rightarrow> router" where
  "ClearRecorded env r =
     (if \<not> re_pinfile env then r
      else case r_file r of
        None \<Rightarrow> r
      | Some text \<Rightarrow>
          let r' = foldl (\<lambda>r h. fst (run env (RDelete h) r)) r (recorded_hosts text) in
          savePins env (r'\<lparr>r_set := []\<rparr>))"

section \<open>Which commands a router issues\<close>

fun rcmd_host :: "rcmd \<Rightarrow> ipaddr" where
  "rcmd_host (RAdd h) = h"
| "rcmd_host (RGet h) = h"
| "rcmd_host (RDelete h) = h"

text \<open>The commands of a run after a given trace: which hosts they name, and that deletes are justified.\<close>

definition good_run :: "route_env \<Rightarrow> ipaddr set \<Rightarrow> rcmd list \<Rightarrow> rcmd list \<Rightarrow> bool" where
  "good_run env H tr cs \<longleftrightarrow>
     (\<forall>c \<in> set cs. rcmd_host c \<in> H) \<and>
     (\<forall>pre h post. cs = pre @ RDelete h # post \<longrightarrow>
        (\<exists>pre' out. pre = pre' @ [RGet h] \<and> re_run env (tr @ pre') (RGet h) = (True, out) \<and>
           classifyRouteGet out h = routeDisplaceable))"

lemma good_run_Nil [simp]: "good_run env H tr []"
  by (simp add: good_run_def)

lemma good_run_append:
  assumes "good_run env H tr cs" and "good_run env H (tr @ cs) ds"
  shows "good_run env H tr (cs @ ds)"
  unfolding good_run_def
proof (intro conjI allI impI)
  show "\<forall>c \<in> set (cs @ ds). rcmd_host c \<in> H" using assms by (auto simp: good_run_def)
  fix pre h post
  assume eq: "cs @ ds = pre @ RDelete h # post"
  then consider us where "cs = pre @ us" "us @ ds = RDelete h # post" "us \<noteq> []"
    | us where "pre = cs @ us" "ds = us @ RDelete h # post"
    by (auto simp: append_eq_append_conv2 append_eq_Cons_conv)
  then show "\<exists>pre' out. pre = pre' @ [RGet h] \<and> re_run env (tr @ pre') (RGet h) = (True, out) \<and>
           classifyRouteGet out h = routeDisplaceable"
  proof cases
    case 1
    then obtain us' where "cs = pre @ RDelete h # us'" by (cases us) auto
    with assms(1) show ?thesis unfolding good_run_def by blast
  next
    case 2
    with assms(2) obtain pre' out where "us = pre' @ [RGet h]" "re_run env ((tr @ cs) @ pre') (RGet h) = (True, out)"
      "classifyRouteGet out h = routeDisplaceable"
      unfolding good_run_def by blast
    with 2 show ?thesis by (intro exI[of _ "cs @ pre'"] exI[of _ out]) simp
  qed
qed

lemma good_run_single: "h \<in> H \<Longrightarrow> c = RAdd h \<or> c = RGet h \<Longrightarrow> good_run env H tr [c]"
  by (auto simp: good_run_def Cons_eq_append_conv)

lemma good_run_displace:
  "h \<in> H \<Longrightarrow> re_run env tr (RGet h) = (True, out) \<Longrightarrow> classifyRouteGet out h = routeDisplaceable \<Longrightarrow>
     good_run env H tr [RGet h, RDelete h]"
  by (auto simp: good_run_def Cons_eq_append_conv)

text \<open>A step of the router: it extends the trace by a good run and leaves pins and file to the recording.\<close>

definition extends :: "route_env \<Rightarrow> ipaddr set \<Rightarrow> router \<Rightarrow> router \<Rightarrow> bool" where
  "extends env H r r' \<longleftrightarrow> (\<exists>cs. r_trace r' = r_trace r @ cs \<and> good_run env H (r_trace r) cs)"

lemma extends_refl [simp]: "extends env H r r"
  by (auto simp: extends_def intro: exI[of _ "[]"])

lemma extends_trans: "extends env H r r' \<Longrightarrow> extends env H r' r'' \<Longrightarrow> extends env H r r''"
  by (auto simp: extends_def dest: good_run_append)

lemma run_simps [simp]:
  "r_set (fst (run env c r)) = r_set r" "r_file (fst (run env c r)) = r_file r"
  "r_trace (fst (run env c r)) = r_trace r @ [c]" "snd (run env c r) = re_run env (r_trace r) c"
  by (simp_all add: run_def)

lemma savePins_simps [simp]:
  "r_set (savePins env r) = r_set r" "r_trace (savePins env r) = r_trace r"
  by (simp_all add: savePins_def)

lemma displaceConflict_extends:
  assumes "h \<in> H" and "displaceConflict env h r = (r', e)"
  shows "extends env H r r' \<and> r_set r' = r_set r \<and> r_file r' = r_file r"
proof -
  obtain ok got where g: "re_run env (r_trace r) (RGet h) = (ok, got)" by fastforce
  show ?thesis
  proof (cases "ok \<and> classifyRouteGet got h = routeDisplaceable")
    case True
    then have "r' = fst (run env (RDelete h) (fst (run env (RGet h) r)))"
      using assms(2) g by (auto simp: displaceConflict_def run_def split: prod.splits)
    then show ?thesis
      using True g assms(1) good_run_displace[of h H env "r_trace r" got] by (auto simp: extends_def)
  next
    case False
    then have "r' = fst (run env (RGet h) r)"
      using assms(2) g by (auto simp: displaceConflict_def run_def split: prod.splits routeGetState.splits if_splits)
    then show ?thesis using assms(1) good_run_single by (auto simp: extends_def)
  qed
qed

lemma run_extends: "h \<in> H \<Longrightarrow> c = RAdd h \<or> c = RGet h \<Longrightarrow> extends env H r (fst (run env c r))"
  using good_run_single by (auto simp: extends_def)

lemma pin_extends:
  assumes "h \<in> H" and "pin env h r = (r', e)"
  shows "extends env H r r' \<and> r_set r' = r_set r \<and> r_file r' = r_file r"
proof -
  let ?r1 = "fst (run env (RAdd h) r)"
  obtain ok out where o: "run env (RAdd h) r = (?r1, ok, out)" by (metis prod.collapse)
  have 1: "extends env H r ?r1" by (rule run_extends[OF assms(1)]) simp
  show ?thesis
  proof (cases "ok \<or> \<not> destinationExists out")
    case True
    then have "r' = ?r1" using assms(2) o by (auto simp: pin_def split: prod.splits if_splits)
    then show ?thesis using 1 by simp
  next
    case False
    obtain r2 e2 where d: "displaceConflict env h ?r1 = (r2, e2)" by fastforce
    note 2 = displaceConflict_extends[OF assms(1) d]
    show ?thesis
    proof (cases e2)
      case (Some err)
      then have "r' = r2" using assms(2) o False d by (auto simp: pin_def split: prod.splits)
      then show ?thesis using 1 2 extends_trans by auto
    next
      case None
      then have "r' = fst (run env (RAdd h) r2)"
        using assms(2) o False d by (auto simp: pin_def split: prod.splits)
      moreover have "extends env H r2 (fst (run env (RAdd h) r2))" by (rule run_extends[OF assms(1)]) simp
      ultimately show ?thesis using 1 2 extends_trans by (metis run_simps(1,2))
    qed
  qed
qed

lemma pin_record_extends:
  assumes "h \<in> H" and "pin_record env h r = (r', e)"
  shows "extends env H r r' \<and> (if e = None then set (r_set r') = insert h (set (r_set r)) else r_set r' = r_set r) \<and>
         (distinct (r_set r) \<longrightarrow> distinct (r_set r'))"
proof -
  obtain r1 e1 where p: "pin env h r = (r1, e1)" by fastforce
  note x = pin_extends[OF assms(1) p]
  then show ?thesis
    using assms(2) p
    by (cases e1) (auto simp: pin_record_def pinned_def extends_def split: if_splits)
qed

lemma reachesLoopback_extends:
  assumes "h \<in> H" and "reachesLoopback env h r = (r', b)"
  shows "extends env H r r' \<and> r_set r' = r_set r"
proof -
  have "r' = fst (run env (RGet h) r)" using assms(2) by (auto simp: reachesLoopback_def split: prod.splits)
  then show ?thesis using run_extends[OF assms(1), of "RGet h"] by simp
qed

lemma set_hosts_extends:
  assumes "set hs \<subseteq> H" and "set_hosts env hs r = (r', e)"
  shows "extends env H r r' \<and> set (r_set r) \<subseteq> set (r_set r') \<and> set (r_set r') \<subseteq> set (r_set r) \<union> set hs \<and>
         (e = None \<longrightarrow> set hs \<subseteq> set (r_set r')) \<and> (distinct (r_set r) \<longrightarrow> distinct (r_set r'))"
  using assms
proof (induction hs arbitrary: r)
  case (Cons h hs)
  have h: "h \<in> H" and hs: "set hs \<subseteq> H" using Cons.prems by auto
  have rest: ?case
    if x: "extends env H r r1" "r_set r1 = r_set r" and p: "pin_record env h r1 = (r2, e2)"
      and s: "(case e2 of Some e \<Rightarrow> (r2, Some e) | None \<Rightarrow> set_hosts env hs r2) = (r', e)" for r1 r2 e2
  proof (cases e2)
    case (Some err)
    note pr = pin_record_extends[OF h p]
    have "extends env H r r2" using extends_trans[OF x(1)] pr by blast
    then show ?thesis using pr s x(2) Some by auto
  next
    case None
    then have "set_hosts env hs r2 = (r', e)" using s by simp
    note ih = Cons.IH[OF hs this]
    note pr = pin_record_extends[OF h p]
    have "extends env H r r'" using extends_trans[OF extends_trans[OF x(1)]] pr ih by blast
    with ih pr None x(2) show ?thesis by auto
  qed
  show ?case
  proof (cases "pinned r h")
    case True
    obtain r1 b where rl: "reachesLoopback env h r = (r1, b)" by fastforce
    note x = reachesLoopback_extends[OF h rl]
    show ?thesis
    proof (cases b)
      case b: True
      then have "set_hosts env hs r1 = (r', e)" using Cons.prems True rl by simp
      note ih = Cons.IH[OF hs this]
      have "extends env H r r'" using extends_trans x ih by blast
      then show ?thesis using ih x True by (auto simp: pinned_def)
    next
      case False
      obtain r2 e2 where p: "pin_record env h r1 = (r2, e2)" by fastforce
      then show ?thesis using rest[OF _ _ p] x Cons.prems True rl False by (auto split: option.splits)
    qed
  next
    case False
    obtain r2 e2 where p: "pin_record env h r = (r2, e2)" by fastforce
    then show ?thesis using rest[OF extends_refl refl p] Cons.prems False by (auto split: option.splits)
  qed
qed auto

lemma Router_Set_cases:
  assumes "Router_Set env hosts r = (r', e)"
  obtains "r' = r" "e \<noteq> None" | "list_all hostAllowed hosts" "set_hosts env hosts r = (r', e)"
  using assms
  by (auto simp: Router_Set_def find_None_iff list_all_iff split: if_splits option.splits)

lemma clear_hosts_trace:
  "clear_hosts env hs r = (r', left, err) \<Longrightarrow>
     r_trace r' = r_trace r @ map RDelete hs \<and> r_set r' = r_set r \<and> r_file r' = r_file r \<and> set left \<subseteq> set hs \<and>
     (err = None \<longleftrightarrow> left = [])"
proof (induction hs arbitrary: r r' left err)
  case (Cons h hs)
  obtain r2 left2 err2 where c: "clear_hosts env hs (fst (run env (RDelete h) r)) = (r2, left2, err2)"
    by (metis prod_cases3)
  from Cons.IH[OF c] c Cons.prems show ?case by (auto simp: run_def split: prod.splits if_splits)
qed auto

lemma allowed_single: "hostAllowed h \<longleftrightarrow> h = IP4 (of_octets 169 254 170 2)"
  by (simp add: hostAllowed_def allowedHosts_def)

section \<open>Properties\<close>

text \<open>C26: Pinning never touches another address and never deletes blindly: a request naming any host that
  tetherd does not pin runs no command at all; otherwise every command concerns the credential endpoint, and
  each delete directly follows an answer of \<^verbatim>\<open>route get\<close> that describes a host route for it on an
  interface other than the loopback; a successful request leaves the endpoint recorded as pinned.\<close>

theorem router_set_is_safe:
  assumes "Router_Set env hosts r = (r', e)"
  shows "(\<not> list_all hostAllowed hosts \<longrightarrow> r' = r \<and> e \<noteq> None) \<and>
         (\<exists>cs. r_trace r' = r_trace r @ cs \<and> good_run env {IP4 (of_octets 169 254 170 2)} (r_trace r) cs) \<and>
         (e = None \<longrightarrow> IP4 (of_octets 169 254 170 2) \<in> set (r_set r'))"
proof -
  let ?H = "{IP4 (of_octets 169 254 170 2)}"
  from assms show ?thesis
  proof (cases rule: Router_Set_cases)
    case 1
    then show ?thesis by (auto intro: exI[of _ "[]"])
  next
    case 2
    then have "set hosts \<subseteq> ?H" by (auto simp: list_all_iff allowed_single)
    from set_hosts_extends[OF this 2(2)] have x: "extends env ?H r r'" "e = None \<longrightarrow> set hosts \<subseteq> set (r_set r')" by auto
    moreover have "hosts \<noteq> []" if "e = None"
      using assms that by (auto simp: Router_Set_def)
    ultimately show ?thesis
      using 2 by (cases hosts) (auto simp: extends_def list_all_iff allowed_single)
  qed
qed

definition endpoint :: ipaddr where "endpoint = IP4 (of_octets 169 254 170 2)"

text \<open>A kernel that has a stale entry for the endpoint on the LAN interface, until it is deleted.\<close>

definition stale_env :: route_env where
  "stale_env = \<lparr>re_run = (\<lambda>hist c. case c of
       RAdd h \<Rightarrow> if RDelete h \<in> set hist then (True, '''') else (False, ''add host: File exists'')
     | RGet h \<Rightarrow> (True, ''destination: '' @ ip_string h @ [newline] @ ''interface: en0'')
     | RDelete h \<Rightarrow> (True, '''')),
     re_pinfile = True, re_write = (\<lambda>_. True)\<rparr>"

lemma endpoint_string: "ip_string endpoint = ''169.254.170.2''"
  by (simp add: endpoint_def addr_string_def octet_def of_octets_def drop_bit_eq_div itoa.simps char_of_def bit_Suc_0_iff)

lemma stale_displaceable: "classifyRouteGet (''destination: '' @ ip_string endpoint @ [newline] @ ''interface: en0'') endpoint = routeDisplaceable"
  unfolding endpoint_string classifyRouteGet_def
  by (simp add: routeGetInterface_def routeGetDestination_def newline_def str_fields_def is_space_def)

lemma stale_set: "Router_Set stale_env [endpoint] (new_router None) =
    (\<lparr>r_set = [endpoint], r_file = Some (pins_text [endpoint]),
      r_trace = [RAdd endpoint, RGet endpoint, RDelete endpoint, RAdd endpoint]\<rparr>, None)"
proof -
  have ex: "destinationExists ''add host: File exists''"
    by (simp add: destinationExists_def to_lower_def to_lower_char_def char_of_def bit_Suc_0_iff)
  have al: "hostAllowed endpoint" by (simp add: allowed_single endpoint_def)
  show ?thesis
    using stale_displaceable ex al
    by (simp add: Router_Set_def maxHosts_def new_router_def pin_record_def pin_def displaceConflict_def
        run_def stale_env_def pinned_def savePins_def)
qed

theorem router_set_is_safe_witness:
  "\<exists>cs. r_trace (fst (Router_Set stale_env [endpoint] (new_router None))) = cs \<and>
     good_run stale_env {endpoint} [] cs \<and> RDelete endpoint \<in> set cs"
proof -
  from router_set_is_safe[OF stale_set] stale_set show ?thesis
    by (auto simp: new_router_def endpoint_def)
qed

text \<open>Clearing deletes exactly the routes this router recorded pinning, keeps recorded the ones it could
  not delete for the next attempt, and reports success exactly when none is left.\<close>

lemma router_clear_removes_own_pins:
  assumes "Router_Clear env r = (r', e)"
  shows "r_trace r' = r_trace r @ map RDelete (r_set r) \<and> set (r_set r') \<subseteq> set (r_set r) \<and>
         (e = None \<longleftrightarrow> r_set r' = [])"
proof -
  obtain r1 left err where c: "clear_hosts env (r_set r) r = (r1, left, err)" by (metis prod_cases3)
  from clear_hosts_trace[OF c] c assms show ?thesis by (auto simp: Router_Clear_def)
qed

text \<open>The router's own record: at most the one endpoint, and a pin file that lists the pins.\<close>

definition pin_inv :: "router \<Rightarrow> bool" where
  "pin_inv r \<longleftrightarrow> (r_set r = [] \<and> (r_file r = None \<or> r_file r = Some '''')) \<or>
                (r_set r = [endpoint] \<and> r_file r = Some (pins_text [endpoint]))"

lemma recorded_roundtrip: "recorded_hosts (pins_text [endpoint]) = [endpoint]" "recorded_hosts '''' = []"
proof -
  have p: "parse_addr4 ''169.254.170.2'' = Some (of_octets 169 254 170 2)"
    by (simp add: parse_addr4_def parse_octet_def parse_digits_def is_digit_def digit_val_def)
  have s: "split_on newline (''169.254.170.2'' @ [newline]) = [''169.254.170.2'', '''']"
    by (simp add: newline_def)
  have t: "trim_space ''169.254.170.2'' = ''169.254.170.2''" "trim_space '''' = ''''"
    by (simp_all add: trim_space_def trim_left_by_def trim_right_by_def is_space_def)
  show "recorded_hosts (pins_text [endpoint]) = [endpoint]"
    using p s t
    by (simp add: recorded_hosts_def pins_text_def endpoint_string List.map_filter_simps allowed_single endpoint_def[symmetric])
  show "recorded_hosts '''' = []" using t by (simp add: recorded_hosts_def List.map_filter_simps)
qed

lemma pin_inv_files:
  assumes "pin_inv r"
  shows "r_trace (ClearRecorded env (new_router (r_file r))) = (if re_pinfile env then map RDelete (r_set r) else [])"
proof -
  have "r_trace (foldl (\<lambda>r h. fst (run env (RDelete h) r)) r0 hs) = r_trace r0 @ map RDelete hs" for r0 hs
    by (induction hs arbitrary: r0) simp_all
  then show ?thesis
    using assms recorded_roundtrip
    by (auto simp: pin_inv_def ClearRecorded_def new_router_def Let_def)
qed

lemma pin_record_inv:
  assumes "re_pinfile env" and "\<And>h. re_write env h" and "pin_inv r" and "pin_record env endpoint r = (r', e)"
  shows "pin_inv r'"
proof -
  obtain r1 e1 where p: "pin env endpoint r = (r1, e1)" by fastforce
  have "r_set r1 = r_set r \<and> r_file r1 = r_file r" using pin_extends[OF _ p, of "{endpoint}"] by auto
  then show ?thesis
    using assms p by (cases e1) (auto simp: pin_record_def pin_inv_def pinned_def savePins_def)
qed

lemma set_hosts_inv:
  assumes "re_pinfile env" and "\<And>h. re_write env h"
  shows "pin_inv r \<Longrightarrow> list_all hostAllowed hs \<Longrightarrow> set_hosts env hs r = (r', e) \<Longrightarrow> pin_inv r'"
proof (induction hs arbitrary: r)
  case (Cons h hs)
  have h: "h = endpoint" using Cons.prems by (simp add: allowed_single endpoint_def)
  obtain r1 b where rl: "reachesLoopback env h r = (r1, b)" by fastforce
  have "r_set r1 = r_set r \<and> r_file r1 = r_file r"
    using rl by (auto simp: reachesLoopback_def split: prod.splits) (metis run_simps fst_conv)+
  then have r1: "pin_inv r1" using Cons.prems(1) by (simp add: pin_inv_def)
  define r0 where "r0 = (if pinned r h then r1 else r)"
  obtain r2 e2 where p: "pin_record env endpoint r0 = (r2, e2)" by fastforce
  have r2: "pin_inv r2" using pin_record_inv[OF assms _ p] r1 Cons.prems(1) by (simp add: r0_def)
  show ?case
    using Cons.IH[of r1] Cons.IH[of r2] Cons.prems r1 r2 rl p h
    by (auto simp: r0_def split: if_splits option.splits bool.splits)
qed simp



text \<open>
  A failed \<^verbatim>\<open>Set\<close> can leave a pin behind: with the endpoint given twice, the first one is pinned
  and recorded, and the second, whose route has meanwhile disappeared, fails.
\<close>

definition flaky_env :: route_env where
  "flaky_env = \<lparr>re_run = (\<lambda>hist c. case c of
       RAdd h \<Rightarrow> if hist = [] then (True, '''') else (False, ''not permitted'')
     | RGet h \<Rightarrow> (False, ''not in table'')
     | RDelete h \<Rightarrow> (True, '''')),
     re_pinfile = True, re_write = (\<lambda>_. True)\<rparr>"

lemma failed_set_leaves_pin:
  "\<exists>r' e. Router_Set flaky_env [endpoint, endpoint] (new_router None) = (r', Some e) \<and> r_set r' = [endpoint]"
proof -
  have al: "hostAllowed endpoint" by (simp add: allowed_single endpoint_def)
  have no: "\<not> destinationExists ''not permitted''"
    by (simp add: destinationExists_def to_lower_def to_lower_char_def)
  show ?thesis
    using al no
    by (simp add: Router_Set_def maxHosts_def new_router_def pin_record_def pin_def run_def flaky_env_def
        pinned_def savePins_def reachesLoopback_def)
qed

end
