(* ===== verification/HelperServer.thy ===== *)
theory HelperServer
  imports Router
begin

text \<open>
  The privileged helper's server: \<^verbatim>\<open>internal/helper/wire.go\<close> and \<^verbatim>\<open>server.go\<close>. The server
  holds one machine-wide session and works through the interface \<^verbatim>\<open>Platform\<close>, a record of
  functions on a platform state; locale \<open>helper_platform\<close> is its contract. Connections and their
  requests interleave as the step relation \<open>server_step\<close>; the idle exit of the accept loop is the
  second state machine, \<open>accept_step\<close>.
\<close>

section \<open>The wire\<close>

definition ProtocolVersion :: string where "ProtocolVersion = ''2''"
definition AdminGID :: nat where "AdminGID = 80"

definition OpVersion :: string where "OpVersion = ''version''"
definition OpPfApply :: string where "OpPfApply = ''pf.apply''"
definition OpPfClear :: string where "OpPfClear = ''pf.clear''"
definition OpResolverSet :: string where "OpResolverSet = ''resolver.set''"
definition OpResolverClear :: string where "OpResolverClear = ''resolver.clear''"
definition OpNatLook :: string where "OpNatLook = ''natlook''"
definition OpRouteSet :: string where "OpRouteSet = ''route.set''"
definition OpRouteClear :: string where "OpRouteClear = ''route.clear''"

lemmas op_defs = OpVersion_def OpPfApply_def OpPfClear_def OpResolverSet_def OpResolverClear_def OpNatLook_def
  OpRouteSet_def OpRouteClear_def

datatype code = CodeOK | CodeBusy | CodeForbidden | CodeNoSession | CodeAlreadyApplied | CodeUnknownOp | CodePlatform

record Peer =
  p_UID :: nat
  p_PID :: int
  p_Groups :: "nat list"

definition AllowAdmin :: "Peer \<Rightarrow> bool" where
  "AllowAdmin p = list_ex (\<lambda>g. g = AdminGID) (p_Groups p)"

record pf_spec =
  ps_RemoteCIDRs :: "prefix list"
  ps_RedirectPort :: int

record hrequest =
  hq_Op :: string
  hq_Pf :: "(string list \<times> int) option"
  hq_Resolver :: "(string list \<times> int) option"
  hq_NatLook :: "(string \<times> string \<times> string) option"
  hq_Hosts :: "string list"

record hresponse =
  hr_OK :: bool
  hr_Code :: code
  hr_Version :: string
  hr_Dst :: string
  hr_Busy :: "(int \<times> time) option" \<comment> \<open>who holds the session, and since when\<close>

definition ok_response :: hresponse where
  "ok_response = \<lparr>hr_OK = True, hr_Code = CodeOK, hr_Version = '''', hr_Dst = '''', hr_Busy = None\<rparr>"

definition err_response :: "code \<Rightarrow> hresponse" where
  "err_response c = \<lparr>hr_OK = False, hr_Code = c, hr_Version = '''', hr_Dst = '''', hr_Busy = None\<rparr>"

text \<open>IPv6 forms, which \<^verbatim>\<open>netip\<close> parses and this development does not.\<close>

record netparse =
  np_prefix6 :: "string \<Rightarrow> (128 word \<times> nat) option"
  np_addr6 :: "string \<Rightarrow> string option"
  np_addrport :: "string \<Rightarrow> string option"

definition ParsePrefix :: "netparse \<Rightarrow> string \<Rightarrow> prefix option" where
  "ParsePrefix np s =
     (case parse_prefix4 s of Some p \<Rightarrow> Some p | None \<Rightarrow> map_option (\<lambda>(a, n). Prefix6 a n) (np_prefix6 np s))"

definition ParseAddr :: "netparse \<Rightarrow> string \<Rightarrow> ipaddr option" where
  "ParseAddr np s = (case parse_addr4 s of Some a \<Rightarrow> Some (IP4 a) | None \<Rightarrow> map_option IP6 (np_addr6 np s))"

text \<open>All of a list, or nothing when one does not parse.\<close>

fun parse_all :: "('a \<Rightarrow> 'b option) \<Rightarrow> 'a list \<Rightarrow> 'b list option" where
  "parse_all f [] = Some []"
| "parse_all f (x # xs) =
     (case f x of None \<Rightarrow> None | Some y \<Rightarrow> map_option (\<lambda>ys. y # ys) (parse_all f xs))"

section \<open>The platform\<close>

text \<open>Each operation answers its error, if any.\<close>

record 'p platform =
  pl_PfApply :: "pf_spec \<Rightarrow> 'p \<Rightarrow> 'p \<times> string option"
  pl_PfClear :: "'p \<Rightarrow> 'p \<times> string option"
  pl_ResolverSet :: "string list \<Rightarrow> int \<Rightarrow> 'p \<Rightarrow> 'p \<times> string option"
  pl_ResolverClear :: "'p \<Rightarrow> 'p \<times> string option"
  pl_RouteSet :: "ipaddr list \<Rightarrow> 'p \<Rightarrow> 'p \<times> string option"
  pl_RouteClear :: "'p \<Rightarrow> 'p \<times> string option"
  pl_NatLook :: "string \<Rightarrow> string \<Rightarrow> string \<Rightarrow> string + string"

section \<open>Server state\<close>

record connState =
  cs_peer :: Peer
  cs_since :: time
  cs_applied :: bool
  cs_resolverSet :: bool
  cs_routeSet :: bool

record 'p server =
  hs_active :: "nat option"
  hs_conns :: "nat \<Rightarrow> connState option" \<comment> \<open>the connections being served\<close>
  hs_plat :: 'p

definition new_conn :: "Peer \<Rightarrow> time \<Rightarrow> connState" where
  "new_conn peer now = \<lparr>cs_peer = peer, cs_since = now, cs_applied = False, cs_resolverSet = False, cs_routeSet = False\<rparr>"

text \<open>Writing back the state of connection \<open>c\<close>.\<close>

definition put_conn :: "nat \<Rightarrow> connState \<Rightarrow> 'p server \<Rightarrow> 'p server" where
  "put_conn c st s = s\<lparr>hs_conns := (hs_conns s)(c \<mapsto> st)\<rparr>"

definition busyResponse :: "'p server \<Rightarrow> hresponse" where
  "busyResponse s =
     (err_response CodeBusy)\<lparr>hr_Busy := (case hs_active s of
        Some a \<Rightarrow> map_option (\<lambda>st. (p_PID (cs_peer st), cs_since st)) (hs_conns s a) | None \<Rightarrow> None)\<rparr>"

section \<open>The operations\<close>

definition pfApply :: "netparse \<Rightarrow> 'p platform \<Rightarrow> nat \<Rightarrow> connState \<Rightarrow> hrequest \<Rightarrow> 'p server \<Rightarrow> 'p server \<times> hresponse" where
  "pfApply np pl c st req s =
     (case hq_Pf req of
        None \<Rightarrow> (s, err_response CodePlatform)
      | Some (cidrs, port) \<Rightarrow>
          (case parse_all (ParsePrefix np) cidrs of
             None \<Rightarrow> (s, err_response CodePlatform)
           | Some ps \<Rightarrow>
               if port \<le> 0 \<or> 65535 < port then (s, err_response CodePlatform)
               else if hs_active s \<noteq> None \<and> hs_active s \<noteq> Some c then (s, busyResponse s)
               else if cs_applied st then (s, err_response CodeAlreadyApplied)
               else (case pl_PfApply pl \<lparr>ps_RemoteCIDRs = ps, ps_RedirectPort = port\<rparr> (hs_plat s) of
                 (p', Some _) \<Rightarrow> (s\<lparr>hs_plat := p'\<rparr>, err_response CodePlatform)
               | (p', None) \<Rightarrow>
                   (put_conn c (st\<lparr>cs_applied := True\<rparr>) (s\<lparr>hs_plat := p', hs_active := Some c\<rparr>), ok_response))))"

text \<open>
  The two removals \<^verbatim>\<open>pf.clear\<close> starts with: the platform and connection after them, and whether
  something is stuck.
\<close>

definition clear_resolver :: "'p platform \<Rightarrow> connState \<Rightarrow> 'p \<Rightarrow> 'p \<times> connState \<times> bool" where
  "clear_resolver pl st p =
     (if cs_resolverSet st then
        (case pl_ResolverClear pl p of
           (p', Some _) \<Rightarrow> (p', st, True)
         | (p', None) \<Rightarrow> (p', st\<lparr>cs_resolverSet := False\<rparr>, False))
      else (p, st, False))"

definition clear_route :: "'p platform \<Rightarrow> connState \<Rightarrow> 'p \<Rightarrow> 'p \<times> connState \<times> bool" where
  "clear_route pl st p =
     (if cs_routeSet st then
        (case pl_RouteClear pl p of
           (p', Some _) \<Rightarrow> (p', st, True)
         | (p', None) \<Rightarrow> (p', st\<lparr>cs_routeSet := False\<rparr>, False))
      else (p, st, False))"

definition pfClear :: "'p platform \<Rightarrow> nat \<Rightarrow> connState \<Rightarrow> 'p server \<Rightarrow> 'p server \<times> hresponse" where
  "pfClear pl c st s =
     (if hs_active s \<noteq> Some c then (s, err_response CodeNoSession)
      else case clear_resolver pl st (hs_plat s) of
        (p1, st1, stuck1) \<Rightarrow>
          (case clear_route pl st1 p1 of
             (p2, st2, stuck2) \<Rightarrow>
               (case pl_PfClear pl p2 of
                  (p3, Some _) \<Rightarrow> (put_conn c st2 (s\<lparr>hs_plat := p3\<rparr>), err_response CodePlatform)
                | (p3, None) \<Rightarrow>
                    if stuck1 \<or> stuck2 then
                      (put_conn c (st2\<lparr>cs_applied := False\<rparr>) (s\<lparr>hs_plat := p3\<rparr>), ok_response)
                    else
                      (put_conn c (st2\<lparr>cs_applied := False\<rparr>) (s\<lparr>hs_plat := p3, hs_active := None\<rparr>), ok_response))))"

definition routeSet :: "netparse \<Rightarrow> 'p platform \<Rightarrow> nat \<Rightarrow> connState \<Rightarrow> hrequest \<Rightarrow> 'p server \<Rightarrow> 'p server \<times> hresponse" where
  "routeSet np pl c st req s =
     (if length (hq_Hosts req) = 0 then (s, err_response CodePlatform)
      else if maxHosts < length (hq_Hosts req) then (s, err_response CodePlatform)
      else case parse_all (ParseAddr np) (hq_Hosts req) of
        None \<Rightarrow> (s, err_response CodePlatform)
      | Some hosts \<Rightarrow>
          if hs_active s \<noteq> None \<and> hs_active s \<noteq> Some c then (s, busyResponse s)
          else (case pl_RouteSet pl hosts (hs_plat s) of
            (p', Some _) \<Rightarrow> (s\<lparr>hs_plat := p'\<rparr>, err_response CodePlatform)
          | (p', None) \<Rightarrow>
              (put_conn c (st\<lparr>cs_routeSet := True\<rparr>) (s\<lparr>hs_plat := p', hs_active := Some c\<rparr>), ok_response)))"

definition routeClear :: "'p platform \<Rightarrow> nat \<Rightarrow> connState \<Rightarrow> 'p server \<Rightarrow> 'p server \<times> hresponse" where
  "routeClear pl c st s =
     (if \<not> cs_routeSet st then (s, ok_response)
      else case pl_RouteClear pl (hs_plat s) of
        (p', Some _) \<Rightarrow> (s\<lparr>hs_plat := p'\<rparr>, err_response CodePlatform)
      | (p', None) \<Rightarrow>
          (put_conn c (st\<lparr>cs_routeSet := False\<rparr>)
             (s\<lparr>hs_plat := p', hs_active := (if \<not> cs_applied st then None else hs_active s)\<rparr>), ok_response))"

definition resolverSet :: "'p platform \<Rightarrow> nat \<Rightarrow> connState \<Rightarrow> hrequest \<Rightarrow> 'p server \<Rightarrow> 'p server \<times> hresponse" where
  "resolverSet pl c st req s =
     (case hq_Resolver req of
        None \<Rightarrow> (s, err_response CodePlatform)
      | Some (domains, port) \<Rightarrow>
          if length domains = 0 then (s, err_response CodePlatform)
          else if hs_active s \<noteq> Some c \<or> \<not> cs_applied st then (s, err_response CodeNoSession)
          else (case pl_ResolverSet pl domains port (hs_plat s) of
            (p', Some _) \<Rightarrow> (s\<lparr>hs_plat := p'\<rparr>, err_response CodePlatform)
          | (p', None) \<Rightarrow> (put_conn c (st\<lparr>cs_resolverSet := True\<rparr>) (s\<lparr>hs_plat := p'\<rparr>), ok_response)))"

definition resolverClear :: "'p platform \<Rightarrow> nat \<Rightarrow> connState \<Rightarrow> 'p server \<Rightarrow> 'p server \<times> hresponse" where
  "resolverClear pl c st s =
     (if hs_active s \<noteq> Some c then (s, err_response CodeNoSession)
      else case pl_ResolverClear pl (hs_plat s) of
        (p', Some _) \<Rightarrow> (s\<lparr>hs_plat := p'\<rparr>, err_response CodePlatform)
      | (p', None) \<Rightarrow> (put_conn c (st\<lparr>cs_resolverSet := False\<rparr>) (s\<lparr>hs_plat := p'\<rparr>), ok_response))"

definition natLook :: "netparse \<Rightarrow> 'p platform \<Rightarrow> hrequest \<Rightarrow> 'p server \<Rightarrow> 'p server \<times> hresponse" where
  "natLook np pl req s =
     (case hq_NatLook req of
        None \<Rightarrow> (s, err_response CodePlatform)
      | Some (prt, src, dst) \<Rightarrow>
          (case (np_addrport np src, np_addrport np dst) of
             (Some src', Some dst') \<Rightarrow>
               (case pl_NatLook pl prt src' dst' of
                  Inl _ \<Rightarrow> (s, err_response CodePlatform)
                | Inr orig \<Rightarrow> (s, ok_response\<lparr>hr_Dst := orig\<rparr>))
           | _ \<Rightarrow> (s, err_response CodePlatform)))"

definition handle ::
  "netparse \<Rightarrow> 'p platform \<Rightarrow> (Peer \<Rightarrow> bool) option \<Rightarrow> nat \<Rightarrow> connState \<Rightarrow> hrequest \<Rightarrow> 'p server \<Rightarrow> 'p server \<times> hresponse" where
  "handle np pl allow c st req s =
     (if hq_Op req = OpVersion then (s, ok_response\<lparr>hr_Version := ProtocolVersion\<rparr>)
      else if (case allow of Some f \<Rightarrow> \<not> f (cs_peer st) | None \<Rightarrow> False) then (s, err_response CodeForbidden)
      else if hq_Op req = OpPfApply then pfApply np pl c st req s
      else if hq_Op req = OpPfClear then pfClear pl c st s
      else if hq_Op req = OpResolverSet then resolverSet pl c st req s
      else if hq_Op req = OpResolverClear then resolverClear pl c st s
      else if hq_Op req = OpRouteSet then routeSet np pl c st req s
      else if hq_Op req = OpRouteClear then routeClear pl c st s
      else if hq_Op req = OpNatLook then natLook np pl req s
      else (s, err_response CodeUnknownOp))"

text \<open>\<^verbatim>\<open>cleanup\<close> runs when a connection ends: resolver, then route, then pf.\<close>

definition cleanup :: "'p platform \<Rightarrow> nat \<Rightarrow> connState \<Rightarrow> 'p server \<Rightarrow> 'p server" where
  "cleanup pl c st s =
     (if hs_active s \<noteq> Some c then s
      else
        let p1 = (if cs_resolverSet st then fst (pl_ResolverClear pl (hs_plat s)) else hs_plat s);
            p2 = (if cs_routeSet st then fst (pl_RouteClear pl p1) else p1);
            p3 = (if cs_applied st then fst (pl_PfClear pl p2) else p2)
        in s\<lparr>hs_plat := p3, hs_active := None\<rparr>)"

section \<open>Connections in any order\<close>

inductive server_step :: "netparse \<Rightarrow> 'p platform \<Rightarrow> (Peer \<Rightarrow> bool) option \<Rightarrow> 'p server \<Rightarrow> 'p server \<Rightarrow> bool"
  for np pl allow where
  s_connect: "hs_conns s c = None \<Longrightarrow> hs_active s \<noteq> Some c \<Longrightarrow>
    server_step np pl allow s (put_conn c (new_conn peer now) s)"
| s_request: "hs_conns s c = Some st \<Longrightarrow> server_step np pl allow s (fst (handle np pl allow c st req s))"
| s_disconnect: "hs_conns s c = Some st \<Longrightarrow>
    server_step np pl allow s ((cleanup pl c st s)\<lparr>hs_conns := (hs_conns s)(c := None)\<rparr>)"

inductive server_reachable :: "netparse \<Rightarrow> 'p platform \<Rightarrow> (Peer \<Rightarrow> bool) option \<Rightarrow> 'p \<Rightarrow> 'p server \<Rightarrow> bool"
  for np pl allow p0 where
  s_start: "server_reachable np pl allow p0 \<lparr>hs_active = None, hs_conns = (\<lambda>_. None), hs_plat = p0\<rparr>"
| s_next: "server_reachable np pl allow p0 s \<Longrightarrow> server_step np pl allow s s' \<Longrightarrow> server_reachable np pl allow p0 s'"

text \<open>A connection that holds pf rules or a route is the active one, and the active one is connected.\<close>

definition server_inv :: "'p server \<Rightarrow> bool" where
  "server_inv s \<longleftrightarrow>
     (\<forall>c st. hs_conns s c = Some st \<and> (cs_applied st \<or> cs_routeSet st) \<longrightarrow> hs_active s = Some c) \<and>
     (\<forall>c. hs_active s = Some c \<longrightarrow> hs_conns s c \<noteq> None)"

section \<open>The idle exit\<close>

text \<open>
  The accept loop of \<^verbatim>\<open>Server.Serve\<close> with its connection table. \<open>al_deadline\<close> is whether an
  idle window is running; the loop ends by \<open>al_exited\<close>.
\<close>

record accept_loop =
  al_conns :: "nat set"
  al_closing :: bool
  al_deadline :: bool
  al_exited :: bool

definition armIdleExit :: "bool \<Rightarrow> accept_loop" where
  "armIdleExit idle = \<lparr>al_conns = {}, al_closing = False, al_deadline = idle, al_exited = False\<rparr>"

definition trackConn :: "nat \<Rightarrow> accept_loop \<Rightarrow> accept_loop \<times> bool" where
  "trackConn c l = (if al_closing l then (l, False) else (l\<lparr>al_conns := insert c (al_conns l)\<rparr>, True))"

definition untrackConn :: "bool \<Rightarrow> nat \<Rightarrow> accept_loop \<Rightarrow> accept_loop" where
  "untrackConn idle c l =
     (let conns = al_conns l - {c} in
      l\<lparr>al_conns := conns, al_deadline := (if conns = {} \<and> idle then True else al_deadline l)\<rparr>)"

definition noConnections :: "accept_loop \<Rightarrow> bool" where
  "noConnections l = (al_conns l = {})"

text \<open>\<^verbatim>\<open>stopConns\<close> refuses new connections; the ones it closes leave through \<^verbatim>\<open>untrackConn\<close>.\<close>

definition stopConns :: "accept_loop \<Rightarrow> accept_loop" where
  "stopConns l = l\<lparr>al_closing := True\<rparr>"

text \<open>What the loop does when Accept reports the deadline.\<close>

definition idle_expired :: "accept_loop \<Rightarrow> accept_loop" where
  "idle_expired l =
     (if \<not> noConnections l then l\<lparr>al_deadline := False\<rparr>
      else (stopConns l)\<lparr>al_exited := True\<rparr>)"

inductive accept_step :: "bool \<Rightarrow> accept_loop \<Rightarrow> accept_loop \<Rightarrow> bool" for idle where
  a_accept: "\<not> al_exited l \<Longrightarrow> accept_step idle l (fst (trackConn c l))"
| a_close: "c \<in> al_conns l \<Longrightarrow> accept_step idle l (untrackConn idle c l)"
| a_idle: "\<not> al_exited l \<Longrightarrow> al_deadline l \<Longrightarrow> idle \<Longrightarrow> accept_step idle l (idle_expired l)"
| a_cancel: "accept_step idle l (stopConns l)"
| a_waited: "al_closing l \<Longrightarrow> al_conns l = {} \<Longrightarrow> accept_step idle l (l\<lparr>al_exited := True\<rparr>)"

inductive accept_reachable :: "bool \<Rightarrow> accept_loop \<Rightarrow> bool" for idle where
  a_start: "accept_reachable idle (armIdleExit idle)"
| a_next: "accept_reachable idle l \<Longrightarrow> accept_step idle l l' \<Longrightarrow> accept_reachable idle l'"

section \<open>One session at a time\<close>

lemma put_conn_simps [simp]:
  "hs_active (put_conn c st s) = hs_active s" "hs_plat (put_conn c st s) = hs_plat s"
  "hs_conns (put_conn c st s) = (hs_conns s)(c \<mapsto> st)"
  by (simp_all add: put_conn_def)

lemma busyResponse_not_ok [simp]: "\<not> hr_OK (busyResponse s)" "hr_Code (busyResponse s) = CodeBusy"
  by (simp_all add: busyResponse_def err_response_def)

lemma err_response_not_ok [simp]: "\<not> hr_OK (err_response k)" "hr_Code (err_response k) = k"
  by (simp_all add: err_response_def)

lemma ok_response_ok [simp]: "hr_OK ok_response" "hr_Code ok_response = CodeOK"
  by (simp_all add: ok_response_def)

lemmas handler_defs = pfApply_def pfClear_def routeSet_def routeClear_def resolverSet_def resolverClear_def
  natLook_def clear_resolver_def clear_route_def

lemmas handler_splits = option.splits prod.splits if_splits sum.splits

lemma server_inv_holder:
  "server_inv s \<Longrightarrow> hs_conns s c = Some st \<Longrightarrow> cs_applied st \<or> cs_routeSet st \<Longrightarrow> hs_active s = Some c"
  unfolding server_inv_def by blast

lemma server_inv_active: "server_inv s \<Longrightarrow> hs_active s = Some c \<Longrightarrow> hs_conns s c \<noteq> None"
  unfolding server_inv_def by blast

text \<open>
  One form covers every handler: the platform changes, the requesting connection's flags change, and
  the session is kept, claimed or given up.
\<close>

lemma server_inv_update:
  assumes "server_inv s" "hs_conns s c = Some st" "hs_active s = None \<or> hs_active s = Some c"
    and "a = Some c \<or> a = None \<and> \<not> cs_applied st' \<and> \<not> cs_routeSet st'"
  shows "server_inv (put_conn c st' (s\<lparr>hs_plat := p, hs_active := a\<rparr>))"
proof -
  have "\<not> cs_applied stx \<and> \<not> cs_routeSet stx" if "hs_conns s d = Some stx" "d \<noteq> c" for d stx
    using server_inv_holder[OF assms(1) that(1)] assms(3) that(2) by auto
  then show ?thesis using assms(4) unfolding server_inv_def by auto
qed

lemma server_inv_plat [simp]: "server_inv (s\<lparr>hs_plat := p\<rparr>) = server_inv s"
  by (simp add: server_inv_def)

lemma server_inv_flags:
  assumes "server_inv s" "hs_conns s c = Some st"
    and "cs_applied st' \<longrightarrow> cs_applied st" "cs_routeSet st' \<longrightarrow> cs_routeSet st"
  shows "server_inv (put_conn c st' (s\<lparr>hs_plat := p\<rparr>))"
  using assms unfolding server_inv_def by auto

lemma hs_active_same [simp]: "s\<lparr>hs_plat := p, hs_active := hs_active s\<rparr> = s\<lparr>hs_plat := p\<rparr>"
  by simp

lemma clear_resolver_flags:
  "clear_resolver pl st p = (p1, st1, stuck) \<Longrightarrow>
     cs_applied st1 = cs_applied st \<and> cs_routeSet st1 = cs_routeSet st \<and> cs_resolverSet st1 = stuck"
  by (auto simp: clear_resolver_def split: handler_splits)

lemma clear_route_flags:
  "clear_route pl st p = (p1, st1, stuck) \<Longrightarrow>
     cs_applied st1 = cs_applied st \<and> cs_resolverSet st1 = cs_resolverSet st \<and> cs_routeSet st1 = stuck \<and>
     (cs_routeSet st1 \<longrightarrow> cs_routeSet st)"
  by (auto simp: clear_route_def split: handler_splits)

text \<open>The ways \<^verbatim>\<open>pf.clear\<close> can go.\<close>

lemma pfClear_cases:
  assumes "hs_active s = Some c"
  obtains p1 st1 k1 p2 st2 k2 p3 err where
    "clear_resolver pl st (hs_plat s) = (p1, st1, k1)" "clear_route pl st1 p1 = (p2, st2, k2)"
    "pl_PfClear pl p2 = (p3, err)"
    "pfClear pl c st s =
       (if err \<noteq> None then (put_conn c st2 (s\<lparr>hs_plat := p3\<rparr>), err_response CodePlatform)
        else (put_conn c (st2\<lparr>cs_applied := False\<rparr>)
                (s\<lparr>hs_plat := p3, hs_active := (if k1 \<or> k2 then Some c else None)\<rparr>), ok_response))"
proof -
  obtain p1 st1 k1 where 1: "clear_resolver pl st (hs_plat s) = (p1, st1, k1)" by (cases "clear_resolver pl st (hs_plat s)") auto
  obtain p2 st2 k2 where 2: "clear_route pl st1 p1 = (p2, st2, k2)" by (cases "clear_route pl st1 p1") auto
  obtain p3 err where 3: "pl_PfClear pl p2 = (p3, err)" by (cases "pl_PfClear pl p2")
  have "s\<lparr>hs_plat := p3\<rparr> = s\<lparr>hs_plat := p3, hs_active := Some c\<rparr>" using assms by simp
  then have "pfClear pl c st s =
       (if err \<noteq> None then (put_conn c st2 (s\<lparr>hs_plat := p3\<rparr>), err_response CodePlatform)
        else (put_conn c (st2\<lparr>cs_applied := False\<rparr>)
                (s\<lparr>hs_plat := p3, hs_active := (if k1 \<or> k2 then Some c else None)\<rparr>), ok_response))"
    using assms 1 2 3 by (cases err) (simp_all add: pfClear_def)
  then show thesis using that 1 2 3 by blast
qed

lemma pfClear_keeps_server_inv:
  assumes inv: "server_inv s" and c: "hs_conns s c = Some st"
  shows "server_inv (fst (pfClear pl c st s))"
proof (cases "hs_active s = Some c")
  case True
  obtain p1 st1 k1 p2 st2 k2 p3 err where
    r: "clear_resolver pl st (hs_plat s) = (p1, st1, k1)" "clear_route pl st1 p1 = (p2, st2, k2)"
      "pl_PfClear pl p2 = (p3, err)" and
    eq: "pfClear pl c st s =
       (if err \<noteq> None then (put_conn c st2 (s\<lparr>hs_plat := p3\<rparr>), err_response CodePlatform)
        else (put_conn c (st2\<lparr>cs_applied := False\<rparr>)
                (s\<lparr>hs_plat := p3, hs_active := (if k1 \<or> k2 then Some c else None)\<rparr>), ok_response))"
    by (rule pfClear_cases[OF True])
  show ?thesis unfolding eq
    using clear_resolver_flags[OF r(1)] clear_route_flags[OF r(2)] True
    server_inv_update[OF inv c, of "if k1 \<or> k2 then Some c else None" "st2\<lparr>cs_applied := False\<rparr>" p3]
    server_inv_flags[OF inv c, of st2 p3]
    by (simp split: if_split)
qed (simp add: pfClear_def inv)

lemma handle_keeps_server_inv:
  assumes inv: "server_inv s" and c: "hs_conns s c = Some st"
  shows "server_inv (fst (handle np pl allow c st req s))"
proof -
  note upd = server_inv_update[OF inv c] and flg = server_inv_flags[OF inv c]
  have "server_inv (fst (pfApply np pl c st req s))"
    using inv upd by (auto simp: pfApply_def split: handler_splits)
  moreover note pfClear_keeps_server_inv[OF inv c, of pl]
  moreover have "server_inv (fst (routeSet np pl c st req s))"
    using inv upd by (auto simp: routeSet_def split: handler_splits)
  moreover have "server_inv (fst (routeClear pl c st s))"
    using inv server_inv_holder[OF inv c]
    by (auto simp: routeClear_def intro!: upd flg split: handler_splits)
  moreover have "server_inv (fst (resolverSet pl c st req s))" "server_inv (fst (resolverClear pl c st s))"
    using inv by (auto simp: resolverSet_def resolverClear_def intro!: flg split: handler_splits)
  moreover have "fst (natLook np pl req s) = s"
    by (auto simp: natLook_def split: handler_splits)
  ultimately show ?thesis using inv by (simp add: handle_def)
qed

lemma cleanup_keeps_server_inv:
  assumes inv: "server_inv s" and c: "hs_conns s c = Some st"
  shows "server_inv ((cleanup pl c st s)\<lparr>hs_conns := (hs_conns s)(c := None)\<rparr>)"
proof -
  let ?s = "(cleanup pl c st s)\<lparr>hs_conns := (hs_conns s)(c := None)\<rparr>"
  have act: "hs_active ?s = (if hs_active s = Some c then None else hs_active s)"
    by (simp add: cleanup_def Let_def)
  have "hs_active ?s = Some d" if "hs_conns ?s d = Some stx" "cs_applied stx \<or> cs_routeSet stx" for d stx
  proof -
    have d: "d \<noteq> c" "hs_conns s d = Some stx" using that(1) by (auto split: if_splits)
    then have "hs_active s = Some d" using server_inv_holder[OF inv] that(2) by blast
    then show ?thesis using d(1) act by simp
  qed
  moreover have "hs_conns ?s d \<noteq> None" if "hs_active ?s = Some d" for d
  proof -
    have "hs_active s = Some d" "d \<noteq> c" using that act by (auto split: if_splits)
    then show ?thesis using server_inv_active[OF inv] by simp
  qed
  ultimately show ?thesis unfolding server_inv_def by blast
qed

lemma server_step_inv: "server_step np pl allow s s' \<Longrightarrow> server_inv s \<Longrightarrow> server_inv s'"
proof (induction rule: server_step.induct)
  case (s_connect s c peer now)
  then show ?case unfolding server_inv_def by (auto simp: new_conn_def)
qed (simp_all only: handle_keeps_server_inv cleanup_keeps_server_inv)

lemma server_reachable_inv: "server_reachable np pl allow p0 s \<Longrightarrow> server_inv s"
  by (induction rule: server_reachable.induct) (auto simp: server_inv_def dest: server_step_inv)
text \<open>An installation is refused, fails in the platform, or succeeds and holds the session.\<close>

lemma pfApply_outcomes:
  "fst (pfApply np pl c st req s) = s\<lparr>hs_plat := hs_plat (fst (pfApply np pl c st req s))\<rparr> \<and>
     \<not> hr_OK (snd (pfApply np pl c st req s)) \<or>
   (\<exists>spec p'. hs_active s \<in> {None, Some c} \<and> pl_PfApply pl spec (hs_plat s) = (p', None) \<and>
     fst (pfApply np pl c st req s) = put_conn c (st\<lparr>cs_applied := True\<rparr>) (s\<lparr>hs_plat := p', hs_active := Some c\<rparr>))"
  by (auto simp: pfApply_def split: option.split prod.split if_split)

lemma routeSet_outcomes:
  "fst (routeSet np pl c st req s) = s\<lparr>hs_plat := hs_plat (fst (routeSet np pl c st req s))\<rparr> \<and>
     \<not> hr_OK (snd (routeSet np pl c st req s)) \<or>
   (\<exists>hosts p'. hs_active s \<in> {None, Some c} \<and> pl_RouteSet pl hosts (hs_plat s) = (p', None) \<and>
     fst (routeSet np pl c st req s) = put_conn c (st\<lparr>cs_routeSet := True\<rparr>) (s\<lparr>hs_plat := p', hs_active := Some c\<rparr>))"
  by (auto simp: routeSet_def split: option.split prod.split if_split)

lemma resolverSet_outcomes:
  "fst (resolverSet pl c st req s) = s\<lparr>hs_plat := hs_plat (fst (resolverSet pl c st req s))\<rparr> \<and>
     \<not> hr_OK (snd (resolverSet pl c st req s)) \<or>
   (\<exists>domains port p'. hs_active s = Some c \<and> cs_applied st \<and>
     pl_ResolverSet pl domains port (hs_plat s) = (p', None) \<and>
     fst (resolverSet pl c st req s) = put_conn c (st\<lparr>cs_resolverSet := True\<rparr>) (s\<lparr>hs_plat := p'\<rparr>))"
  by (auto simp: resolverSet_def split: option.split prod.split if_split)

text \<open>The error of a removal that \<^verbatim>\<open>cleanup\<close> makes; it only logs them.\<close>

definition cleanup_clears :: "'p platform \<Rightarrow> connState \<Rightarrow> 'p \<Rightarrow> bool" where
  "cleanup_clears pl st p =
     (let r1 = (if cs_resolverSet st then pl_ResolverClear pl p else (p, None));
          r2 = (if cs_routeSet st then pl_RouteClear pl (fst r1) else (fst r1, None));
          r3 = (if cs_applied st then pl_PfClear pl (fst r2) else (fst r2, None))
      in snd r1 = None \<and> snd r2 = None \<and> snd r3 = None)"

text \<open>
  An orderly request: an installation either succeeds or leaves the platform as it was, and
  \<^verbatim>\<open>route.clear\<close> is not sent by a connection whose \<^verbatim>\<open>pf.clear\<close> could not remove the resolver files.
\<close>

definition orderly_request ::
  "netparse \<Rightarrow> 'p platform \<Rightarrow> (Peer \<Rightarrow> bool) option \<Rightarrow> nat \<Rightarrow> connState \<Rightarrow> hrequest \<Rightarrow> 'p server \<Rightarrow> bool" where
  "orderly_request np pl allow c st req s =
     ((hq_Op req \<in> {OpPfApply, OpResolverSet, OpRouteSet} \<longrightarrow>
         hr_OK (snd (handle np pl allow c st req s)) \<or> hs_plat (fst (handle np pl allow c st req s)) = hs_plat s) \<and>
      \<not> (hq_Op req = OpRouteClear \<and> \<not> cs_applied st \<and> cs_resolverSet st))"

inductive orderly_reachable :: "netparse \<Rightarrow> 'p platform \<Rightarrow> (Peer \<Rightarrow> bool) option \<Rightarrow> 'p \<Rightarrow> 'p server \<Rightarrow> bool"
  for np pl allow p0 where
  o_start: "orderly_reachable np pl allow p0 \<lparr>hs_active = None, hs_conns = (\<lambda>_. None), hs_plat = p0\<rparr>"
| o_connect: "orderly_reachable np pl allow p0 s \<Longrightarrow> hs_conns s c = None \<Longrightarrow> hs_active s \<noteq> Some c \<Longrightarrow>
    orderly_reachable np pl allow p0 (put_conn c (new_conn peer now) s)"
| o_request: "orderly_reachable np pl allow p0 s \<Longrightarrow> hs_conns s c = Some st \<Longrightarrow> orderly_request np pl allow c st req s \<Longrightarrow>
    orderly_reachable np pl allow p0 (fst (handle np pl allow c st req s))"
| o_disconnect: "orderly_reachable np pl allow p0 s \<Longrightarrow> hs_conns s c = Some st \<Longrightarrow> cleanup_clears pl st (hs_plat s) \<Longrightarrow>
    orderly_reachable np pl allow p0 ((cleanup pl c st s)\<lparr>hs_conns := (hs_conns s)(c := None)\<rparr>)"

lemma orderly_reachable_inv: "orderly_reachable np pl allow p0 s \<Longrightarrow> server_inv s"
proof (induction rule: orderly_reachable.induct)
  case o_start
  then show ?case by (simp add: server_inv_def)
next
  case (o_connect s c peer now)
  then show ?case unfolding server_inv_def by (auto simp: new_conn_def)
qed (simp_all only: handle_keeps_server_inv cleanup_keeps_server_inv)

section \<open>What a platform promises\<close>

text \<open>
  What is on the machine is seen through three views: rules in the pf anchor, resolver files, pinned
  routes. A removal that reports success has removed, a call of one kind leaves the other kinds alone,
  and an installation that reports success has not failed half way: nothing is said of one that fails.
\<close>

locale helper_platform =
  fixes pl :: "'p platform" and pf_on res_on route_on :: "'p \<Rightarrow> bool"
  assumes PfClear_off: "pl_PfClear pl p = (p', None) \<Longrightarrow> \<not> pf_on p'"
    and ResolverClear_off: "pl_ResolverClear pl p = (p', None) \<Longrightarrow> \<not> res_on p'"
    and ResolverClear_keeps_off: "pl_ResolverClear pl p = (p', e) \<Longrightarrow> \<not> res_on p \<Longrightarrow> \<not> res_on p'"
    and RouteClear_keeps_off: "pl_RouteClear pl p = (p', e) \<Longrightarrow> \<not> route_on p \<Longrightarrow> \<not> route_on p'"
    and RouteClear_off: "pl_RouteClear pl p = (p', None) \<Longrightarrow> \<not> route_on p'"
    and PfClear_keeps_off: "pl_PfClear pl p = (p', e) \<Longrightarrow> \<not> pf_on p \<Longrightarrow> \<not> pf_on p'"
    and PfClear_frame: "pl_PfClear pl p = (p', e) \<Longrightarrow> res_on p' = res_on p \<and> route_on p' = route_on p"
    and ResolverClear_frame: "pl_ResolverClear pl p = (p', e) \<Longrightarrow> pf_on p' = pf_on p \<and> route_on p' = route_on p"
    and RouteClear_frame: "pl_RouteClear pl p = (p', e) \<Longrightarrow> pf_on p' = pf_on p \<and> res_on p' = res_on p"
    and PfApply_frame: "pl_PfApply pl spec p = (p', e) \<Longrightarrow> res_on p' = res_on p \<and> route_on p' = route_on p"
    and ResolverSet_frame: "pl_ResolverSet pl ds port p = (p', e) \<Longrightarrow> pf_on p' = pf_on p \<and> route_on p' = route_on p"
    and RouteSet_frame: "pl_RouteSet pl hosts p = (p', e) \<Longrightarrow> pf_on p' = pf_on p \<and> res_on p' = res_on p"
begin

lemmas frames = PfClear_frame ResolverClear_frame RouteClear_frame PfApply_frame ResolverSet_frame RouteSet_frame
lemmas offs = PfClear_off ResolverClear_off RouteClear_off

text \<open>Everything on the machine is on the books of the active connection.\<close>

definition covered :: "'p server \<Rightarrow> bool" where
  "covered s \<longleftrightarrow>
     (pf_on (hs_plat s) \<longrightarrow> (\<exists>c st. hs_active s = Some c \<and> hs_conns s c = Some st \<and> cs_applied st)) \<and>
     (res_on (hs_plat s) \<longrightarrow> (\<exists>c st. hs_active s = Some c \<and> hs_conns s c = Some st \<and> cs_resolverSet st)) \<and>
     (route_on (hs_plat s) \<longrightarrow> (\<exists>c st. hs_active s = Some c \<and> hs_conns s c = Some st \<and> cs_routeSet st))"

definition clean :: "'p \<Rightarrow> bool" where
  "clean p \<longleftrightarrow> \<not> pf_on p \<and> \<not> res_on p \<and> \<not> route_on p"

lemma covered_idle: "covered s \<Longrightarrow> hs_active s = None \<Longrightarrow> clean (hs_plat s)"
  by (simp add: covered_def clean_def)

lemma in_active: "hs_active s = Some c \<Longrightarrow> hs_active s \<in> {None, Some c}"
  by simp

lemma covered_own:
  assumes "covered s" "hs_conns s c = Some st" "hs_active s \<in> {None, Some c}"
  shows "pf_on (hs_plat s) \<Longrightarrow> hs_active s = Some c \<and> cs_applied st"
    and "res_on (hs_plat s) \<Longrightarrow> hs_active s = Some c \<and> cs_resolverSet st"
    and "route_on (hs_plat s) \<Longrightarrow> hs_active s = Some c \<and> cs_routeSet st"
  using assms by (auto simp: covered_def)

lemma covered_put:
  "(pf_on p \<longrightarrow> a = Some c \<and> cs_applied st) \<Longrightarrow> (res_on p \<longrightarrow> a = Some c \<and> cs_resolverSet st) \<Longrightarrow>
   (route_on p \<longrightarrow> a = Some c \<and> cs_routeSet st) \<Longrightarrow> covered (put_conn c st (s\<lparr>hs_plat := p, hs_active := a\<rparr>))"
  by (auto simp: covered_def)

lemma covered_same_active:
  "covered (put_conn c st (s\<lparr>hs_plat := p, hs_active := hs_active s\<rparr>)) = covered (put_conn c st (s\<lparr>hs_plat := p\<rparr>))"
  by simp

lemma clear_resolver_off:
  assumes "clear_resolver pl st p = (p1, st1, k)"
  shows "pf_on p1 = pf_on p" "route_on p1 = route_on p" "res_on p \<longrightarrow> cs_resolverSet st \<Longrightarrow> res_on p1 \<longrightarrow> k"
  using assms ResolverClear_frame ResolverClear_off
  by (auto simp: clear_resolver_def split: handler_splits)

lemma clear_route_off:
  assumes "clear_route pl st p = (p1, st1, k)"
  shows "pf_on p1 = pf_on p" "res_on p1 = res_on p" "route_on p \<longrightarrow> cs_routeSet st \<Longrightarrow> route_on p1 \<longrightarrow> k"
  using assms RouteClear_frame RouteClear_off
  by (auto simp: clear_route_def split: handler_splits)

lemma pfClear_covered:
  assumes cov: "covered s" and c: "hs_conns s c = Some st"
  shows "covered (fst (pfClear pl c st s))"
proof (cases "hs_active s = Some c")
  case True
  obtain p1 st1 k1 p2 st2 k2 p3 err where
    r: "clear_resolver pl st (hs_plat s) = (p1, st1, k1)" "clear_route pl st1 p1 = (p2, st2, k2)"
      "pl_PfClear pl p2 = (p3, err)" and
    eq: "pfClear pl c st s =
       (if err \<noteq> None then (put_conn c st2 (s\<lparr>hs_plat := p3\<rparr>), err_response CodePlatform)
        else (put_conn c (st2\<lparr>cs_applied := False\<rparr>)
                (s\<lparr>hs_plat := p3, hs_active := (if k1 \<or> k2 then Some c else None)\<rparr>), ok_response))"
    by (rule pfClear_cases[OF True])
  note own = covered_own[OF cov c in_active[OF True]]
  note fl = clear_resolver_flags[OF r(1)] clear_route_flags[OF r(2)]
  have res: "res_on p3 \<longrightarrow> k1" and route: "route_on p3 \<longrightarrow> k2" and pf: "pf_on p2 \<longrightarrow> cs_applied st"
    using own clear_resolver_off[OF r(1)] clear_route_off[OF r(2)] PfClear_frame[OF r(3)] fl by auto
  show ?thesis
  proof (cases err)
    case None
    have "\<not> pf_on p3" using PfClear_off r(3) None by simp
    then show ?thesis unfolding eq using None res route fl by (simp add: covered_put)
  next
    case (Some e)
    have s: "s\<lparr>hs_plat := p3, hs_active := Some c\<rparr> = s\<lparr>hs_plat := p3\<rparr>" using True by simp
    have "pf_on p3 \<longrightarrow> cs_applied st2" using PfClear_keeps_off[OF r(3)] pf fl by blast
    then have "covered (put_conn c st2 (s\<lparr>hs_plat := p3, hs_active := Some c\<rparr>))"
      using res route fl by (simp add: covered_put)
    then show ?thesis using eq Some by (simp add: s)
  qed
qed (simp add: pfClear_def cov)

lemma covered_unchanged: "s' = s\<lparr>hs_plat := hs_plat s'\<rparr> \<Longrightarrow> hs_plat s' = hs_plat s \<Longrightarrow> covered s \<Longrightarrow> covered s'"
  by (cases s) simp

lemma pfApply_covered:
  assumes cov: "covered s" and c: "hs_conns s c = Some st"
    and ok: "hr_OK (snd (pfApply np pl c st req s)) \<or> hs_plat (fst (pfApply np pl c st req s)) = hs_plat s"
  shows "covered (fst (pfApply np pl c st req s))"
using pfApply_outcomes[of np pl c st req s]
proof (elim disjE exE conjE)
  assume "fst (pfApply np pl c st req s) = s\<lparr>hs_plat := hs_plat (fst (pfApply np pl c st req s))\<rparr>" "\<not> hr_OK (snd (pfApply np pl c st req s))"
  then show ?thesis using ok covered_unchanged[OF _ _ cov] by blast
next
  fix spec p' assume applied: "hs_active s \<in> {None, Some c}" "pl_PfApply pl spec (hs_plat s) = (p', None)"
    "fst (pfApply np pl c st req s) = put_conn c (st\<lparr>cs_applied := True\<rparr>) (s\<lparr>hs_plat := p', hs_active := Some c\<rparr>)"
  then show ?thesis using covered_own[OF cov c applied(1)] PfApply_frame[OF applied(2)] by (simp add: covered_put)
qed

lemma routeSet_covered:
  assumes cov: "covered s" and c: "hs_conns s c = Some st"
    and ok: "hr_OK (snd (routeSet np pl c st req s)) \<or> hs_plat (fst (routeSet np pl c st req s)) = hs_plat s"
  shows "covered (fst (routeSet np pl c st req s))"
using routeSet_outcomes[of np pl c st req s]
proof (elim disjE exE conjE)
  assume "fst (routeSet np pl c st req s) = s\<lparr>hs_plat := hs_plat (fst (routeSet np pl c st req s))\<rparr>" "\<not> hr_OK (snd (routeSet np pl c st req s))"
  then show ?thesis using ok covered_unchanged[OF _ _ cov] by blast
next
  fix hosts p' assume pinned: "hs_active s \<in> {None, Some c}" "pl_RouteSet pl hosts (hs_plat s) = (p', None)"
    "fst (routeSet np pl c st req s) = put_conn c (st\<lparr>cs_routeSet := True\<rparr>) (s\<lparr>hs_plat := p', hs_active := Some c\<rparr>)"
  then show ?thesis using covered_own[OF cov c pinned(1)] RouteSet_frame[OF pinned(2)] by (simp add: covered_put)
qed

lemma covered_put_active:
  "hs_active s = Some c \<Longrightarrow> (pf_on p \<longrightarrow> cs_applied st) \<Longrightarrow> (res_on p \<longrightarrow> cs_resolverSet st) \<Longrightarrow>
   (route_on p \<longrightarrow> cs_routeSet st) \<Longrightarrow> covered (put_conn c st (s\<lparr>hs_plat := p\<rparr>))"
  by (simp add: covered_def)

lemma resolverSet_covered:
  assumes cov: "covered s" and c: "hs_conns s c = Some st"
    and ok: "hr_OK (snd (resolverSet pl c st req s)) \<or> hs_plat (fst (resolverSet pl c st req s)) = hs_plat s"
  shows "covered (fst (resolverSet pl c st req s))"
using resolverSet_outcomes[of pl c st req s]
proof (elim disjE exE conjE)
  assume "fst (resolverSet pl c st req s) = s\<lparr>hs_plat := hs_plat (fst (resolverSet pl c st req s))\<rparr>" "\<not> hr_OK (snd (resolverSet pl c st req s))"
  then show ?thesis using ok covered_unchanged[OF _ _ cov] by blast
next
  fix domains port p' assume written: "hs_active s = Some c" "cs_applied st" "pl_ResolverSet pl domains port (hs_plat s) = (p', None)"
    "fst (resolverSet pl c st req s) = put_conn c (st\<lparr>cs_resolverSet := True\<rparr>) (s\<lparr>hs_plat := p'\<rparr>)"
  then show ?thesis
    using covered_own[OF cov c in_active[OF written(1)]] ResolverSet_frame[OF written(3)] by (simp add: covered_put_active)
qed

text \<open>The removals of the active connection alone.\<close>

lemma covered_plat_active:
  "hs_active s = Some c \<Longrightarrow> hs_conns s c = Some st \<Longrightarrow> (pf_on p \<longrightarrow> cs_applied st) \<Longrightarrow> (res_on p \<longrightarrow> cs_resolverSet st) \<Longrightarrow>
   (route_on p \<longrightarrow> cs_routeSet st) \<Longrightarrow> covered (s\<lparr>hs_plat := p\<rparr>)"
  by (simp add: covered_def)

lemma resolverClear_covered:
  assumes cov: "covered s" and c: "hs_conns s c = Some st"
  shows "covered (fst (resolverClear pl c st s))"
proof (cases "hs_active s = Some c")
  case True
  obtain p' e where r: "pl_ResolverClear pl (hs_plat s) = (p', e)" by (cases "pl_ResolverClear pl (hs_plat s)")
  note own = covered_own[OF cov c in_active[OF True]] and fr = ResolverClear_frame[OF r]
  show ?thesis
  proof (cases e)
    case None
    then have "\<not> res_on p'" using ResolverClear_off r by simp
    then show ?thesis using True r None own fr by (simp add: resolverClear_def covered_put_active)
  next
    case (Some x)
    then have "res_on p' \<longrightarrow> cs_resolverSet st" using own(2) ResolverClear_keeps_off[OF r] by blast
    then show ?thesis using True r Some own fr c by (simp add: resolverClear_def covered_plat_active[of s c st])
  qed
qed (simp add: resolverClear_def cov)

lemma routeClear_covered:
  assumes cov: "covered s" and c: "hs_conns s c = Some st" and inv: "server_inv s"
    and nostuck: "\<not> (\<not> cs_applied st \<and> cs_resolverSet st)"
  shows "covered (fst (routeClear pl c st s))"
proof (cases "cs_routeSet st")
  case True
  then have act: "hs_active s = Some c" using server_inv_holder[OF inv c] by simp
  obtain p' e where r: "pl_RouteClear pl (hs_plat s) = (p', e)" by (cases "pl_RouteClear pl (hs_plat s)")
  note own = covered_own[OF cov c in_active[OF act]] and fr = RouteClear_frame[OF r]
  show ?thesis
  proof (cases e)
    case None
    then have "\<not> route_on p'" using RouteClear_off r by simp
    moreover have "pf_on p' \<longrightarrow> cs_applied st" "res_on p' \<longrightarrow> cs_resolverSet st" using own fr by auto
    ultimately show ?thesis using act True r None nostuck
      by (cases "cs_applied st") (auto simp: routeClear_def intro!: covered_put covered_put_active)
  next
    case (Some x)
    then show ?thesis using act True r own fr c by (simp add: routeClear_def covered_plat_active[of s c st])
  qed
qed (simp add: routeClear_def cov)

lemma handle_covered:
  assumes cov: "covered s" and c: "hs_conns s c = Some st" and inv: "server_inv s"
    and ord: "orderly_request np pl allow c st req s"
  shows "covered (fst (handle np pl allow c st req s))"
proof (cases "hq_Op req = OpVersion \<or> (case allow of Some f \<Rightarrow> \<not> f (cs_peer st) | None \<Rightarrow> False)")
  case True
  then show ?thesis using cov by (auto simp: handle_def)
next
  case False
  then have h: "handle np pl allow c st req s =
     (if hq_Op req = OpPfApply then pfApply np pl c st req s
      else if hq_Op req = OpPfClear then pfClear pl c st s
      else if hq_Op req = OpResolverSet then resolverSet pl c st req s
      else if hq_Op req = OpResolverClear then resolverClear pl c st s
      else if hq_Op req = OpRouteSet then routeSet np pl c st req s
      else if hq_Op req = OpRouteClear then routeClear pl c st s
      else if hq_Op req = OpNatLook then natLook np pl req s
      else (s, err_response CodeUnknownOp))"
    by (simp add: handle_def)
  have nat: "fst (natLook np pl req s) = s" by (auto simp: natLook_def split: handler_splits)
  show ?thesis
    using ord cov pfApply_covered[OF cov c] pfClear_covered[OF cov c] resolverSet_covered[OF cov c]
      resolverClear_covered[OF cov c] routeSet_covered[OF cov c] routeClear_covered[OF cov c inv] nat
    unfolding orderly_request_def h by (simp add: op_defs split: if_splits)
qed

lemma cleanup_cleans:
  assumes cov: "covered s" and c: "hs_conns s c = Some st" and act: "hs_active s = Some c"
    and ok: "cleanup_clears pl st (hs_plat s)"
  shows "clean (hs_plat (cleanup pl c st s))"
proof -
  note own = covered_own[OF cov c in_active[OF act]]
  define r1 where "r1 = (if cs_resolverSet st then pl_ResolverClear pl (hs_plat s) else (hs_plat s, None))"
  define r2 where "r2 = (if cs_routeSet st then pl_RouteClear pl (fst r1) else (fst r1, None))"
  define r3 where "r3 = (if cs_applied st then pl_PfClear pl (fst r2) else (fst r2, None))"
  have e: "snd r1 = None" "snd r2 = None" "snd r3 = None"
    using ok unfolding cleanup_clears_def Let_def r1_def r2_def r3_def by blast+
  have 1: "\<not> res_on (fst r1)" "pf_on (fst r1) = pf_on (hs_plat s)" "route_on (fst r1) = route_on (hs_plat s)"
    using e(1) own(2) ResolverClear_off[of "hs_plat s" "fst r1"] ResolverClear_frame[of "hs_plat s" "fst r1" "snd r1"]
    by (auto simp: r1_def split: if_splits) (metis prod.collapse)+
  have 2: "\<not> route_on (fst r2)" "\<not> res_on (fst r2)" "pf_on (fst r2) = pf_on (hs_plat s)"
    using e(2) own(3) 1 RouteClear_off[of "fst r1" "fst r2"] RouteClear_frame[of "fst r1" "fst r2" "snd r2"]
    by (auto simp: r2_def split: if_splits) (metis prod.collapse)+
  have 3: "clean (fst r3)"
    using e(3) own(1) 2 PfClear_off[of "fst r2" "fst r3"] PfClear_frame[of "fst r2" "fst r3" "snd r3"]
    by (auto simp: r3_def clean_def split: if_splits) (metis prod.collapse)+
  have "hs_plat (cleanup pl c st s) = fst r3"
    using act by (simp add: cleanup_def Let_def r1_def r2_def r3_def)
  then show ?thesis using 3 by simp
qed

lemma cleanup_covered:
  assumes cov: "covered s" and c: "hs_conns s c = Some st" and ok: "cleanup_clears pl st (hs_plat s)"
  shows "covered ((cleanup pl c st s)\<lparr>hs_conns := (hs_conns s)(c := None)\<rparr>)"
proof (cases "hs_active s = Some c")
  case True
  from cleanup_cleans[OF cov c True ok] show ?thesis by (simp add: covered_def clean_def)
next
  case False
  then have "cleanup pl c st s = s" by (simp add: cleanup_def)
  then show ?thesis using cov False by (auto simp: covered_def)
qed

theorem orderly_covered: "orderly_reachable np pl allow p0 s \<Longrightarrow> clean p0 \<Longrightarrow> covered s"
proof (induction rule: orderly_reachable.induct)
  case o_start
  then show ?case by (simp add: covered_def clean_def)
next
  case (o_connect s c peer now)
  then have "covered s" by blast
  then show ?case using o_connect.hyps(2,3) by (auto simp: covered_def)
next
  case (o_request s c st req)
  show ?case
    using handle_covered[OF o_request.IH[OF o_request.prems] o_request.hyps(2) orderly_reachable_inv[OF o_request.hyps(1)]
      o_request.hyps(3)] .
next
  case (o_disconnect s c st)
  then show ?case using cleanup_covered by blast
qed
end

section \<open>A platform for examples\<close>

definition example_netparse :: netparse where
  "example_netparse = \<lparr>np_prefix6 = (\<lambda>_. None), np_addr6 = (\<lambda>_. None), np_addrport = Some\<rparr>"

definition example_platform :: "unit platform" where
  "example_platform =
     \<lparr>pl_PfApply = (\<lambda>_ p. (p, None)), pl_PfClear = (\<lambda>p. (p, None)), pl_ResolverSet = (\<lambda>_ _ p. (p, None)),
      pl_ResolverClear = (\<lambda>p. (p, None)), pl_RouteSet = (\<lambda>_ p. (p, None)), pl_RouteClear = (\<lambda>p. (p, None)),
      pl_NatLook = (\<lambda>_ _ d. Inr d)\<rparr>"

definition plain_request :: "string \<Rightarrow> hrequest" where
  "plain_request op = \<lparr>hq_Op = op, hq_Pf = None, hq_Resolver = None, hq_NatLook = None, hq_Hosts = []\<rparr>"

definition apply_request :: hrequest where
  "apply_request = (plain_request OpPfApply)\<lparr>hq_Pf := Some ([''10.0.0.0/16''], 15300)\<rparr>"

definition example_peer :: "int \<Rightarrow> Peer" where
  "example_peer pid = \<lparr>p_UID = 501, p_PID = pid, p_Groups = [20, 80]\<rparr>"

definition two_clients :: "'p \<Rightarrow> 'p server" where
  "two_clients p0 = put_conn 2 (new_conn (example_peer 9) 6) (put_conn 1 (new_conn (example_peer 8) 5)
     \<lparr>hs_active = None, hs_conns = (\<lambda>_. None), hs_plat = p0\<rparr>)"

lemma two_clients_reachable: "server_reachable np pl allow p0 (two_clients p0)"
proof -
  let ?s1 = "put_conn 1 (new_conn (example_peer 8) 5) \<lparr>hs_active = None, hs_conns = (\<lambda>_. None), hs_plat = p0\<rparr>"
  have "server_reachable np pl allow p0 ?s1" by (rule s_next[OF s_start], rule s_connect) simp_all
  then show ?thesis unfolding two_clients_def by (rule s_next, intro s_connect) simp_all
qed

lemma example_cidr: "parse_all (ParsePrefix np) [''10.0.0.0/16''] = Some [Prefix4 (of_octets 10 0 0 0) 16]"
proof -
  have a: "after_last CHR ''/'' ''10.0.0.0/16'' = Some ''16''" by code_simp
  have "parse_prefix4 ''10.0.0.0/16'' = Some (Prefix4 (of_octets 10 0 0 0) 16)"
    unfolding parse_prefix4_def a
    by (simp add: parse_addr4_def parse_octet_def parse_digits_def is_digit_def digit_val_def)
  then show ?thesis by (simp add: ParsePrefix_def)
qed

definition client_applied :: "unit server" where
  "client_applied = fst (handle example_netparse example_platform (Some AllowAdmin) 1 (new_conn (example_peer 8) 5)
     apply_request (two_clients ()))"

lemma client_applied_eq:
  "client_applied = put_conn 1 ((new_conn (example_peer 8) 5)\<lparr>cs_applied := True\<rparr>) ((two_clients ())\<lparr>hs_active := Some 1\<rparr>)"
  by (simp add: client_applied_def handle_def op_defs AllowAdmin_def AdminGID_def example_peer_def new_conn_def
      apply_request_def plain_request_def pfApply_def example_cidr example_platform_def two_clients_def put_conn_def
      del: parse_all.simps)

lemma client_applied_reachable:
  "server_reachable example_netparse example_platform (Some AllowAdmin) () client_applied"
  unfolding client_applied_def
  by (rule s_next[OF two_clients_reachable], rule s_request) (simp add: two_clients_def)

section \<open>The machine belongs to one client\<close>

lemma other_connection_inert:
  assumes inv: "server_inv s" and a: "hs_active s = Some a" and c: "hs_conns s c = Some st" "c \<noteq> a"
  shows "fst (handle np pl allow c st req s) = s" and "cleanup pl c st s = s"
proof -
  have fl: "\<not> cs_applied st" "\<not> cs_routeSet st" and act: "hs_active s \<noteq> Some c" "hs_active s \<noteq> None"
    using server_inv_holder[OF inv c(1)] a c(2) by auto
  have "fst (pfApply np pl c st req s) = s" "fst (routeSet np pl c st req s) = s" "fst (natLook np pl req s) = s"
    using act by (auto simp: pfApply_def routeSet_def natLook_def split: handler_splits)
  moreover have "fst (pfClear pl c st s) = s" "fst (resolverSet pl c st req s) = s"
    "fst (resolverClear pl c st s) = s" "fst (routeClear pl c st s) = s"
    using act fl by (auto simp: pfClear_def resolverSet_def resolverClear_def routeClear_def split: option.split)
  ultimately show "fst (handle np pl allow c st req s) = s" by (simp add: handle_def)
  show "cleanup pl c st s = s" using act by (simp add: cleanup_def)
qed

text \<open>C8: While one connection holds the machine, no other can touch it: in every reachable state with an active
  connection, no request of another connection changes anything (rules, resolver files, routes, any
  connection's flags), and neither does its disconnect; a well-formed \<^verbatim>\<open>pf.apply\<close> from an allowed
  peer is answered \<^verbatim>\<open>busy\<close> with the holder's pid and start time.\<close>

theorem helper_session_exclusive:
  assumes "server_reachable np pl allow p0 s" and "hs_active s = Some a" and "hs_conns s c = Some st" and "c \<noteq> a"
  shows "fst (handle np pl allow c st req s) = s \<and> cleanup pl c st s = s \<and>
    (hq_Op req = OpPfApply \<and> (\<forall>f. allow = Some f \<longrightarrow> f (cs_peer st)) \<and>
     hq_Pf req = Some (cidrs, port) \<and> parse_all (ParsePrefix np) cidrs \<noteq> None \<and> 0 < port \<and> port \<le> 65535 \<longrightarrow>
     (\<exists>sta. hs_conns s a = Some sta \<and>
        snd (handle np pl allow c st req s) =
          (err_response CodeBusy)\<lparr>hr_Busy := Some (p_PID (cs_peer sta), cs_since sta)\<rparr>))"
proof -
  have inv: "server_inv s" using assms(1) by (rule server_reachable_inv)
  obtain sta where sta: "hs_conns s a = Some sta" using server_inv_active[OF inv assms(2)] by auto
  have "snd (pfApply np pl c st req s) = busyResponse s"
    if "hq_Pf req = Some (cidrs, port)" "parse_all (ParsePrefix np) cidrs \<noteq> None" "0 < port" "port \<le> 65535"
    using that assms(2,4) by (auto simp: pfApply_def)
  then show ?thesis
    using other_connection_inert[OF inv assms(2-4)] sta assms(2)
    by (auto simp: handle_def busyResponse_def op_defs split: option.splits)
qed

theorem helper_session_exclusive_witness:
  "hs_active client_applied = Some 1 \<and>
   handle example_netparse example_platform (Some AllowAdmin) 2 (new_conn (example_peer 9) 6) apply_request client_applied
     = (client_applied, (err_response CodeBusy)\<lparr>hr_Busy := Some (8, 5)\<rparr>)"
proof -
  have act: "hs_active client_applied = Some 1" "hs_conns client_applied 2 = Some (new_conn (example_peer 9) 6)"
    "hs_conns client_applied 1 = Some ((new_conn (example_peer 8) 5)\<lparr>cs_applied := True\<rparr>)"
    by (simp_all add: client_applied_eq two_clients_def)
  then show ?thesis
    using helper_session_exclusive[OF client_applied_reachable act(1,2), of apply_request "[''10.0.0.0/16'']" 15300]
    by (auto simp: prod_eq_iff apply_request_def plain_request_def op_defs AllowAdmin_def AdminGID_def example_peer_def
        new_conn_def example_cidr simp del: parse_all.simps)
qed

text \<open>A peer outside the admin group is inert: whatever it sends, the server's state does not change and
  the answer is \<^verbatim>\<open>forbidden\<close>, except for the version request, which anyone may make.\<close>

lemma forbidden_peer_is_inert:
  assumes "AdminGID \<notin> set (p_Groups (cs_peer st))"
  shows "fst (handle np pl (Some AllowAdmin) c st req s) = s \<and>
    (if hq_Op req = OpVersion then hr_Version (snd (handle np pl (Some AllowAdmin) c st req s)) = ProtocolVersion
     else hr_Code (snd (handle np pl (Some AllowAdmin) c st req s)) = CodeForbidden)"
  using assms by (auto simp: handle_def AllowAdmin_def list_ex_iff)

section \<open>The idle exit is safe and live\<close>
section \<open>The idle exit is safe and live\<close>

definition accept_inv :: "bool \<Rightarrow> accept_loop \<Rightarrow> bool" where
  "accept_inv idle l \<longleftrightarrow>
     (al_exited l \<longrightarrow> al_conns l = {} \<and> al_closing l) \<and>
     (idle \<and> al_conns l = {} \<and> \<not> al_exited l \<longrightarrow> al_deadline l)"

lemma accept_step_inv: "accept_step idle l l' \<Longrightarrow> accept_inv idle l \<Longrightarrow> accept_inv idle l'"
  by (induction rule: accept_step.induct)
     (auto simp: accept_inv_def trackConn_def untrackConn_def stopConns_def idle_expired_def noConnections_def Let_def)

lemma accept_reachable_inv: "accept_reachable idle l \<Longrightarrow> accept_inv idle l"
proof (induction rule: accept_reachable.induct)
  case a_start
  then show ?case by (simp add: accept_inv_def armIdleExit_def)
qed (rule accept_step_inv)



section \<open>A session given up too early\<close>

text \<open>
  \<^verbatim>\<open>pf.clear\<close> keeps the session when something could not be removed, so that the disconnect is the
  retry. A \<^verbatim>\<open>route.clear\<close> after it gives the session up although the resolver files are still there:
  the disconnect then removes nothing.
\<close>

lemma stuck_pf_clear_keeps_session:
  assumes "hs_active s = Some c" "cs_resolverSet st" "cs_routeSet st"
    and "pl_ResolverClear pl (hs_plat s) = (p1, Some e1)" "pl_RouteClear pl p1 = (p2, Some e2)"
    and "pl_PfClear pl p2 = (p3, None)"
  shows "pfClear pl c st s = (put_conn c (st\<lparr>cs_applied := False\<rparr>) (s\<lparr>hs_plat := p3\<rparr>), ok_response)"
  using assms by (simp add: pfClear_def clear_resolver_def clear_route_def)

lemma route_clear_forgets_resolver:
  assumes "cs_routeSet st" "cs_resolverSet st" "\<not> cs_applied st" "pl_RouteClear pl (hs_plat s) = (p', None)"
  shows "\<exists>s' st'. fst (routeClear pl c st s) = s' \<and> hs_active s' = None \<and> hs_conns s' c = Some st' \<and>
    cs_resolverSet st' \<and> cleanup pl c st' s' = s'"
  using assms by (simp add: routeClear_def cleanup_def)

end
