(* ===== verification/ResolverFiles.thy ===== *)
theory ResolverFiles
  imports Prelude
begin

text \<open>
  The per-domain resolver files (\<^verbatim>\<open>/etc/resolver\<close>): \<^verbatim>\<open>internal/helper/resolver.go\<close>. The
  directory is a finite map from names to directories or file contents; which calls of the file
  system fail is a parameter.
\<close>

datatype entry = EDir | EFile string

type_synonym dir = "(string, entry) gomap"

record file_env =
  fe_mkdir :: "string option" \<comment> \<open>the error of \<^verbatim>\<open>MkdirAll\<close>, if any\<close>
  fe_readdir :: "string option"
  fe_readable :: "string \<Rightarrow> bool"
  fe_write :: "string \<Rightarrow> string option"
  fe_remove :: "string \<Rightarrow> string option"

definition managedHeader :: string where
  "managedHeader = ''# managed by tetherd'' @ [CHR 0x0A]"

text \<open>\<^verbatim>\<open>domainRe\<close>: dot-separated labels of lower-case letters, digits and inner hyphens.\<close>

definition alnum :: "char \<Rightarrow> bool" where
  "alnum c = (is_digit c \<or> (let n = of_char c :: nat in 97 \<le> n \<and> n \<le> 122))"

definition label_ok :: "string \<Rightarrow> bool" where
  "label_ok l = (l \<noteq> [] \<and> alnum (hd l) \<and> alnum (last l) \<and> list_all (\<lambda>c. alnum c \<or> c = CHR ''-'') l)"

definition domain_ok :: "string \<Rightarrow> bool" where
  "domain_ok d = list_all label_ok (split_on CHR ''.'' d)"

datatype resolver_error =
    BadPort int | InvalidDomain string | MkdirFailed string | NotManaged string | WriteError string string
  | ReadDirFailed string | RemoveFailed string string

definition resolver_body :: "int \<Rightarrow> string" where
  "resolver_body port =
     managedHeader @ ''nameserver 127.0.0.1'' @ [CHR 0x0A] @ ''port '' @ itoa_int port @ [CHR 0x0A]"

text \<open>What \<^verbatim>\<open>os.ReadFile\<close> answers.\<close>

definition read_file :: "file_env \<Rightarrow> dir \<Rightarrow> string \<Rightarrow> string option" where
  "read_file env d n =
     (case mget d n of Some (EFile c) \<Rightarrow> if fe_readable env n then Some c else None | _ \<Rightarrow> None)"

definition write_file :: "file_env \<Rightarrow> string \<Rightarrow> string \<Rightarrow> dir \<Rightarrow> dir \<times> string option" where
  "write_file env n c d =
     (if mget d n = Some EDir then (d, Some ''is a directory'')
      else case fe_write env n of Some e \<Rightarrow> (d, Some e) | None \<Rightarrow> (mput n (EFile c) d, None))"

fun write_domains :: "file_env \<Rightarrow> string \<Rightarrow> string list \<Rightarrow> dir \<Rightarrow> dir \<times> resolver_error option" where
  "write_domains env content [] d = (d, None)"
| "write_domains env content (n # ns) d =
     (case read_file env d n of
        Some existing \<Rightarrow>
          if \<not> has_prefix existing managedHeader then (d, Some (NotManaged n))
          else (case write_file env n content d of
            (d', Some e) \<Rightarrow> (d', Some (WriteError n e))
          | (d', None) \<Rightarrow> write_domains env content ns d')
      | None \<Rightarrow>
          (case write_file env n content d of
            (d', Some e) \<Rightarrow> (d', Some (WriteError n e))
          | (d', None) \<Rightarrow> write_domains env content ns d'))"

definition Resolver_Set :: "file_env \<Rightarrow> string list \<Rightarrow> int \<Rightarrow> dir \<Rightarrow> dir \<times> resolver_error option" where
  "Resolver_Set env domains port d =
     (if port \<le> 0 \<or> 65535 < port then (d, Some (BadPort port))
      else case find (\<lambda>n. \<not> domain_ok n) domains of
        Some n \<Rightarrow> (d, Some (InvalidDomain n))
      | None \<Rightarrow>
          (case fe_mkdir env of
             Some e \<Rightarrow> (d, Some (MkdirFailed e))
           | None \<Rightarrow> write_domains env (resolver_body port) domains d))"

definition managed :: "file_env \<Rightarrow> dir \<Rightarrow> string \<Rightarrow> bool" where
  "managed env d n = (case read_file env d n of Some c \<Rightarrow> has_prefix c managedHeader | None \<Rightarrow> False)"

fun clear_files :: "file_env \<Rightarrow> string list \<Rightarrow> dir \<Rightarrow> dir \<times> resolver_error option" where
  "clear_files env [] d = (d, None)"
| "clear_files env (n # ns) d =
     (if \<not> managed env d n then clear_files env ns d
      else case fe_remove env n of
        Some e \<Rightarrow> (fst (clear_files env ns d), Some (RemoveFailed n e))
      | None \<Rightarrow> clear_files env ns (mdel n d))"

text \<open>A directory that does not exist is one without entries.\<close>

definition Resolver_Clear :: "file_env \<Rightarrow> dir \<Rightarrow> dir \<times> resolver_error option" where
  "Resolver_Clear env d =
     (case fe_readdir env of
        Some e \<Rightarrow> (d, Some (ReadDirFailed e))
      | None \<Rightarrow> clear_files env (mkeys d) d)"

section \<open>Lemmas\<close>

lemma body_managed: "has_prefix (resolver_body port) managedHeader"
  by (simp add: resolver_body_def)

lemma write_file_Some:
  "write_file env n c d = (d', e) \<Longrightarrow> (e = None \<longrightarrow> mget d' = (mget d)(n \<mapsto> EFile c)) \<and> (e \<noteq> None \<longrightarrow> d' = d)"
  by (auto simp: write_file_def fun_eq_iff split: if_splits option.splits)

text \<open>A name outside the request is left alone, and so is a readable file that tetherd does not manage.\<close>

lemma write_domains_frame:
  assumes "write_domains env content ns d = (d', e)" and "n \<notin> set ns \<or> (\<exists>c. read_file env d n = Some c \<and> \<not> has_prefix c managedHeader)"
  shows "mget d' n = mget d n"
  using assms
proof (induction ns arbitrary: d)
  case (Cons m ns)
  show ?case
  proof (cases "read_file env d m = None \<or> (\<exists>c. read_file env d m = Some c \<and> has_prefix c managedHeader)")
    case True
    obtain d1 e1 where w: "write_file env m content d = (d1, e1)" by fastforce
    show ?thesis
    proof (cases e1)
      case None
      from True Cons.prems(2) have "m \<noteq> n" by auto
      then have m: "mget d1 n = mget d n" using write_file_Some[OF w] None by simp
      have "write_domains env content ns d1 = (d', e)" using Cons.prems(1) True w None by auto
      moreover have "n \<notin> set ns \<or> (\<exists>c. read_file env d1 n = Some c \<and> \<not> has_prefix c managedHeader)"
        using Cons.prems(2) m by (auto simp: read_file_def)
      ultimately show ?thesis using Cons.IH m by metis
    next
      case (Some err)
      then have "d' = d1" using Cons.prems(1) True w by auto
      then show ?thesis using write_file_Some[OF w] Some by simp
    qed
  next
    case False
    then have "d' = d" using Cons.prems(1) by (auto split: option.splits)
    then show ?thesis by simp
  qed
qed simp

lemma write_domains_ok:
  assumes "write_domains env content ns d = (d', None)" and "has_prefix content managedHeader"
  shows "\<forall>n \<in> set ns. mget d' n = Some (EFile content)"
  using assms
proof (induction ns arbitrary: d)
  case (Cons m ns)
  obtain d1 e1 where w: "write_file env m content d = (d1, e1)" by fastforce
  then have e1: "e1 = None" and rec: "write_domains env content ns d1 = (d', None)"
    using Cons.prems(1) by (auto split: option.splits if_splits)
  have d1: "mget d1 m = Some (EFile content)" using write_file_Some[OF w] e1 by simp
  have "mget d' m = Some (EFile content)"
  proof (cases "m \<in> set ns")
    case True then show ?thesis using Cons.IH[OF rec Cons.prems(2)] by simp
  next
    case False then show ?thesis using write_domains_frame[OF rec] d1 by simp
  qed
  then show ?case using Cons.IH[OF rec Cons.prems(2)] by simp
qed simp

text \<open>In a directory without managed files, only absent names are written.\<close>

lemma write_domains_fresh:
  assumes "write_domains env content ns d = (d', e)" and "has_prefix content managedHeader"
    and "\<And>n. fe_readable env n" and "\<And>n. \<not> managed env d0 n"
    and "\<And>n. mget d n = mget d0 n \<or> mget d0 n = None \<and> mget d n = Some (EFile content)"
  shows "mget d' n = mget d0 n \<or> mget d0 n = None \<and> mget d' n = Some (EFile content)"
  using assms(1,5)
proof (induction ns arbitrary: d)
  case (Cons m ns)
  have absent: "mget d0 m = None" if "read_file env d m = None \<or> (\<exists>c. read_file env d m = Some c \<and> has_prefix c managedHeader)"
      "mget d m \<noteq> Some EDir"
  proof (rule ccontr)
    assume "mget d0 m \<noteq> None"
    then have "mget d m = mget d0 m" using Cons.prems(2)[of m] by auto
    then show False
      using that \<open>mget d0 m \<noteq> None\<close> assms(3,4)[of m]
      by (auto simp: read_file_def managed_def split: option.splits entry.splits)
  qed
  obtain d1 e1 where w: "write_file env m content d = (d1, e1)" by fastforce
  show ?case
  proof (cases "e1 = None \<and> (read_file env d m = None \<or> (\<exists>c. read_file env d m = Some c \<and> has_prefix c managedHeader))")
    case True
    have "mget d m \<noteq> Some EDir" using True w by (auto simp: write_file_def)
    with absent True have "mget d0 m = None" by blast
    then have "mget d1 n = mget d0 n \<or> mget d0 n = None \<and> mget d1 n = Some (EFile content)" for n
      using write_file_Some[OF w] True Cons.prems(2)[of n] by auto
    moreover have "write_domains env content ns d1 = (d', e)" using Cons.prems(1) True w by auto
    ultimately show ?thesis using Cons.IH by blast
  next
    case False
    then have "d' = d \<or> d' = d1 \<and> e1 \<noteq> None" using Cons.prems(1) w by (auto split: option.splits if_splits)
    then have "d' = d" using write_file_Some[OF w] by auto
    then show ?thesis using Cons.prems(2) by simp
  qed
qed simp

lemma clear_files_spec:
  assumes "clear_files env ns d = (d', e)"
  shows "mget d' n = (if n \<in> set ns \<and> managed env d n \<and> fe_remove env n = None then None else mget d n)"
  using assms
proof (induction env ns d arbitrary: d' e rule: clear_files.induct)
  case (2 env m ns d)
  have mm: "managed env (mdel m d) n = (managed env d n \<and> n \<noteq> m)" for n
    by (simp add: managed_def read_file_def)
  show ?case
  proof (cases "managed env d m")
    case False
    then show ?thesis using 2(1)[OF False] 2(4) by auto
  next
    case True
    show ?thesis
    proof (cases "fe_remove env m")
      case None
      then show ?thesis using 2(2)[OF _ None] True 2(4) mm by auto
    next
      case (Some err)
      obtain d1 e1 where c: "clear_files env ns d = (d1, e1)" by fastforce
      then have "d' = d1" using 2(4) True Some by simp
      then show ?thesis using 2(3)[OF _ Some c] True Some by auto
    qed
  qed
qed simp

lemma clear_files_none: "(\<And>n. fe_remove env n = None) \<Longrightarrow> snd (clear_files env ns d) = None"
  by (induction env ns d rule: clear_files.induct) auto

section \<open>Properties\<close>


definition fine_env :: file_env where
  "fine_env = \<lparr>fe_mkdir = None, fe_readdir = None, fe_readable = (\<lambda>_. True), fe_write = (\<lambda>_. None), fe_remove = (\<lambda>_. None)\<rparr>"


text \<open>When removals succeed, clearing deletes every file tetherd manages and nothing else, so setting and
  clearing leaves a directory that had no managed file exactly as it was.\<close>

lemma resolver_set_clear_roundtrip:
  assumes "fe_readdir env = None" and "\<And>n. fe_remove env n = None" and "\<And>n. fe_readable env n" and "wf_map d"
    and "\<And>n. \<not> managed env d n"
  shows "mget (fst (Resolver_Clear env (fst (Resolver_Set env domains port d)))) = mget d"
proof
  fix n
  obtain d1 e1 where s: "Resolver_Set env domains port d = (d1, e1)" by fastforce
  obtain d2 e2 where c: "clear_files env (mkeys d1) d1 = (d2, e2)" by fastforce
  have d2: "mget d2 n = (if n \<in> set (mkeys d1) \<and> managed env d1 n then None else mget d1 n)"
    using clear_files_spec[OF c] assms(2) by simp
  have dom: "managed env d1 n \<Longrightarrow> n \<in> set (mkeys d1)"
    by (auto simp: managed_def read_file_def split: option.splits entry.splits)
  have change: "mget d1 n = mget d n \<or> mget d n = None \<and> managed env d1 n"
  proof -
    consider "d1 = d" | "write_domains env (resolver_body port) domains d = (d1, e1)"
      using s by (auto simp: Resolver_Set_def split: if_splits option.splits)
    then show ?thesis
    proof cases
      case 2
      from write_domains_fresh[OF 2 body_managed assms(3,5), of n] show ?thesis
        using assms(3) body_managed by (auto simp: managed_def read_file_def)
    qed simp
  qed
  then show "mget (fst (Resolver_Clear env (fst (Resolver_Set env domains port d)))) n = mget d n"
    using s c d2 dom assms(1) assms(5)[of n] by (auto simp: Resolver_Clear_def managed_def read_file_def split: if_splits option.splits entry.splits)
qed

text \<open>
  A \<^verbatim>\<open>Set\<close> that fails part way leaves the files of the earlier domains behind.
\<close>

lemma failed_resolver_set_leaves_files:
  "\<exists>d' e. Resolver_Set fine_env [''a'', ''b''] 53000 [(''b'', EFile ''mine'')] = (d', Some e) \<and>
     mget d' ''a'' = Some (EFile (resolver_body 53000))"
  by (simp add: Resolver_Set_def fine_env_def domain_ok_def label_ok_def alnum_def read_file_def
      write_file_def managedHeader_def is_digit_def)

end
