(* ===== verification/DarwinPlatform.thy ===== *)
theory DarwinPlatform
  imports HelperServer ResolverFiles
begin

text \<open>
  The platform of the helper on macOS: \<^verbatim>\<open>internal/helper/pf\<close> (the anchor's rules and the
  \<^verbatim>\<open>pfctl\<close> commands) and \<^verbatim>\<open>internal/helper/platform_darwin.go\<close>. \<^verbatim>\<open>pfctl\<close> is a
  parameter: what it answers is a function of the commands run so far and the new one. What is in the
  kernel's anchor is read off the trace of commands and their success.
\<close>

section \<open>The rules of a session\<close>

definition Anchor :: string where "Anchor = ''com.apple/900.tetherd''"
definition Table :: string where "Table = ''tetherd_remote''"
definition Group :: string where "Group = ''tetherd''"

datatype pf_error = NoCIDRs | BadRedirectPort int | NotIPv4 prefix | PfctlFailed string | NoToken string



definition rules_text :: "string list \<Rightarrow> int \<Rightarrow> string" where
  "rules_text cidrs port =
     ''table <'' @ Table @ ''> { '' @ join_with '', '' cidrs @ '' }'' @ [newline] @
     ''rdr pass on lo0 inet proto tcp from any to <'' @ Table @ ''> -> 127.0.0.1 port '' @ itoa_int port @ [newline] @
     ''pass out route-to lo0 inet proto tcp from any to <'' @ Table @ ''> group '' @ Group @ '' keep state'' @ [newline]"

definition Rules :: "pf_spec \<Rightarrow> pf_error + string" where
  "Rules spec =
     (if ps_RemoteCIDRs spec = [] then Inl NoCIDRs
      else if ps_RedirectPort spec \<le> 0 \<or> 65535 < ps_RedirectPort spec then Inl (BadRedirectPort (ps_RedirectPort spec))
      else case find (\<lambda>p. \<not> is4 p) (ps_RemoteCIDRs spec) of
        Some p \<Rightarrow> Inl (NotIPv4 p)
      | None \<Rightarrow> Inr (rules_text (map (\<lambda>p. prefix_string (masked p)) (ps_RemoteCIDRs spec)) (ps_RedirectPort spec)))"

section \<open>pfctl\<close>

datatype flush = FRules | FNat | FTables

datatype pfcmd = PfEnable | PfDisable string | PfLoad string string | PfFlush string flush

text \<open>A command with whether it succeeded.\<close>

type_synonym pf_trace = "(pfcmd \<times> bool) list"

type_synonym pfctl = "pf_trace \<Rightarrow> pfcmd \<Rightarrow> bool \<times> string"

text \<open>\<^verbatim>\<open>Token : (\d+)\<close>, the leftmost match.\<close>

fun find_token :: "string \<Rightarrow> string option" where
  "find_token [] = None"
| "find_token (c # cs) =
     (let rest = drop 8 (c # cs) in
      if has_prefix (c # cs) ''Token : '' \<and> takeWhile is_digit rest \<noteq> [] then Some (takeWhile is_digit rest)
      else find_token cs)"

definition pf_run :: "pfctl \<Rightarrow> pfcmd \<Rightarrow> pf_trace \<Rightarrow> pf_trace \<times> bool \<times> string" where
  "pf_run ctl c tr = (tr @ [(c, fst (ctl tr c))], ctl tr c)"

definition Enable :: "pfctl \<Rightarrow> pf_trace \<Rightarrow> pf_trace \<times> (pf_error + string)" where
  "Enable ctl tr =
     (case pf_run ctl PfEnable tr of
        (tr', ok, out) \<Rightarrow>
          if \<not> ok then (tr', Inl (PfctlFailed out))
          else case find_token out of
            None \<Rightarrow> (tr', Inl (NoToken out))
          | Some tok \<Rightarrow> (tr', Inr tok))"

definition Disable :: "pfctl \<Rightarrow> string \<Rightarrow> pf_trace \<Rightarrow> pf_trace \<times> pf_error option" where
  "Disable ctl token tr =
     (case pf_run ctl (PfDisable token) tr of (tr', ok, out) \<Rightarrow> (tr', if ok then None else Some (PfctlFailed out)))"

definition LoadAnchor :: "pfctl \<Rightarrow> string \<Rightarrow> string \<Rightarrow> pf_trace \<Rightarrow> pf_trace \<times> pf_error option" where
  "LoadAnchor ctl anchor rules tr =
     (case pf_run ctl (PfLoad anchor rules) tr of (tr', ok, out) \<Rightarrow> (tr', if ok then None else Some (PfctlFailed out)))"

fun flush_all :: "pfctl \<Rightarrow> string \<Rightarrow> flush list \<Rightarrow> pf_error option \<Rightarrow> pf_trace \<Rightarrow> pf_trace \<times> pf_error option" where
  "flush_all ctl anchor [] firstErr tr = (tr, firstErr)"
| "flush_all ctl anchor (w # ws) firstErr tr =
     (case pf_run ctl (PfFlush anchor w) tr of
        (tr', ok, out) \<Rightarrow>
          flush_all ctl anchor ws (if \<not> ok \<and> firstErr = None then Some (PfctlFailed out) else firstErr) tr')"

definition FlushAnchor :: "pfctl \<Rightarrow> string \<Rightarrow> pf_trace \<Rightarrow> pf_trace \<times> pf_error option" where
  "FlushAnchor ctl anchor tr = flush_all ctl anchor [FRules, FNat, FTables] None tr"

section \<open>The platform\<close>

record darwin =
  d_pf :: pf_trace
  d_token :: string
  d_dir :: dir
  d_route :: router

record darwin_env =
  de_pfctl :: pfctl
  de_files :: file_env
  de_route :: route_env
  de_natlook :: "string \<Rightarrow> string \<Rightarrow> string \<Rightarrow> string + string"

text \<open>A new process: what is on disk and in the kernel stays, the memory does not.\<close>

definition NewDarwinPlatform :: "pf_trace \<Rightarrow> dir \<Rightarrow> string option \<Rightarrow> darwin" where
  "NewDarwinPlatform tr files pins = \<lparr>d_pf = tr, d_token = '''', d_dir = files, d_route = new_router pins\<rparr>"

definition PfApply :: "darwin_env \<Rightarrow> pf_spec \<Rightarrow> darwin \<Rightarrow> darwin \<times> pf_error option" where
  "PfApply env spec p =
     (case Rules spec of
        Inl e \<Rightarrow> (p, Some e)
      | Inr rules \<Rightarrow>
          (case (if d_token p = '''' then Enable (de_pfctl env) (d_pf p) else (d_pf p, Inr (d_token p))) of
             (tr, Inl e) \<Rightarrow> (p\<lparr>d_pf := tr\<rparr>, Some e)
           | (tr, Inr tok) \<Rightarrow>
               (case LoadAnchor (de_pfctl env) Anchor rules tr of
                  (tr', err) \<Rightarrow> (p\<lparr>d_pf := tr', d_token := tok\<rparr>, err))))"

text \<open>Releasing the reference on pf, whatever the command answers.\<close>

definition release :: "darwin_env \<Rightarrow> darwin \<Rightarrow> darwin \<times> pf_error option" where
  "release env p =
     (if d_token p \<noteq> '''' then
        (case Disable (de_pfctl env) (d_token p) (d_pf p) of (tr, e) \<Rightarrow> (p\<lparr>d_pf := tr, d_token := ''''\<rparr>, e))
      else (p, None))"

definition PfClear :: "darwin_env \<Rightarrow> darwin \<Rightarrow> darwin \<times> pf_error option" where
  "PfClear env p =
     (case FlushAnchor (de_pfctl env) Anchor (d_pf p) of
        (tr, err) \<Rightarrow>
          (case release env (p\<lparr>d_pf := tr\<rparr>) of
             (p', derr) \<Rightarrow> (p', if err = None then derr else err)))"

definition ResolverSet :: "darwin_env \<Rightarrow> string list \<Rightarrow> int \<Rightarrow> darwin \<Rightarrow> darwin \<times> resolver_error option" where
  "ResolverSet env domains port p =
     (case Resolver_Set (de_files env) domains port (d_dir p) of (d, e) \<Rightarrow> (p\<lparr>d_dir := d\<rparr>, e))"

definition ResolverClear :: "darwin_env \<Rightarrow> darwin \<Rightarrow> darwin \<times> resolver_error option" where
  "ResolverClear env p = (case Resolver_Clear (de_files env) (d_dir p) of (d, e) \<Rightarrow> (p\<lparr>d_dir := d\<rparr>, e))"

definition RouteSet :: "darwin_env \<Rightarrow> ipaddr list \<Rightarrow> darwin \<Rightarrow> darwin \<times> route_error option" where
  "RouteSet env hosts p = (case Router_Set (de_route env) hosts (d_route p) of (r, e) \<Rightarrow> (p\<lparr>d_route := r\<rparr>, e))"

definition RouteClear :: "darwin_env \<Rightarrow> darwin \<Rightarrow> darwin \<times> route_error option" where
  "RouteClear env p = (case Router_Clear (de_route env) (d_route p) of (r, e) \<Rightarrow> (p\<lparr>d_route := r\<rparr>, e))"

datatype platform_error = PfError pf_error | ResolverError resolver_error | RouteError route_error

text \<open>The first error of a list of them.\<close>

definition first_error :: "'e option list \<Rightarrow> 'e option" where
  "first_error es = (case find (\<lambda>e. e \<noteq> None) es of Some e \<Rightarrow> e | None \<Rightarrow> None)"

definition teardown :: "darwin_env \<Rightarrow> bool \<Rightarrow> darwin \<Rightarrow> darwin \<times> platform_error option" where
  "teardown env leftovers p =
     (case ResolverClear env p of
        (p1, e1) \<Rightarrow>
          (case (if leftovers then (p1\<lparr>d_route := ClearRecorded (de_route env) (d_route p1)\<rparr>, None) else RouteClear env p1) of
             (p2, e2) \<Rightarrow>
               (case FlushAnchor (de_pfctl env) Anchor (d_pf p2) of
                  (tr, e3) \<Rightarrow>
                    (case release env (p2\<lparr>d_pf := tr\<rparr>) of
                       (p3, e4) \<Rightarrow>
                         (p3, first_error [map_option ResolverError e1, map_option RouteError e2,
                            map_option PfError e3, map_option PfError e4])))))"

definition Shutdown :: "darwin_env \<Rightarrow> darwin \<Rightarrow> darwin \<times> platform_error option" where
  "Shutdown env p = teardown env False p"

definition ClearLeftovers :: "darwin_env \<Rightarrow> darwin \<Rightarrow> darwin \<times> platform_error option" where
  "ClearLeftovers env p = teardown env True p"

text \<open>As the server sees it: the text of an error is of no interest, that there is one is.\<close>

definition failed :: "'p \<times> 'e option \<Rightarrow> 'p \<times> string option" where
  "failed r = (fst r, map_option (\<lambda>_. ''platform'') (snd r))"

definition darwin_platform :: "darwin_env \<Rightarrow> darwin platform" where
  "darwin_platform env =
     \<lparr>pl_PfApply = (\<lambda>spec p. failed (PfApply env spec p)),
      pl_PfClear = (\<lambda>p. failed (PfClear env p)),
      pl_ResolverSet = (\<lambda>ds port p. failed (ResolverSet env ds port p)),
      pl_ResolverClear = (\<lambda>p. failed (ResolverClear env p)),
      pl_RouteSet = (\<lambda>hosts p. failed (RouteSet env hosts p)),
      pl_RouteClear = (\<lambda>p. failed (RouteClear env p)),
      pl_NatLook = de_natlook env\<rparr>"

section \<open>What is on the machine\<close>

text \<open>
  What a trace of \<^verbatim>\<open>pfctl\<close> commands leaves in the anchor: a load puts filter rules, translation
  rules and the table there, a flush removes its kind, a command that failed changes nothing.
\<close>

fun loaded_step :: "flush set \<Rightarrow> pfcmd \<times> bool \<Rightarrow> flush set" where
  "loaded_step S (c, ok) =
     (if \<not> ok then S
      else case c of
        PfLoad a _ \<Rightarrow> if a = Anchor then {FRules, FNat, FTables} else S
      | PfFlush a w \<Rightarrow> if a = Anchor then S - {w} else S
      | _ \<Rightarrow> S)"

definition loaded :: "pf_trace \<Rightarrow> flush set" where
  "loaded tr = foldl loaded_step {} tr"

definition anchor_on :: "darwin \<Rightarrow> bool" where
  "anchor_on p = (loaded (d_pf p) \<noteq> {})"

definition files_on :: "darwin_env \<Rightarrow> darwin \<Rightarrow> bool" where
  "files_on env p = list_ex (managed (de_files env) (d_dir p)) (mkeys (d_dir p))"

definition pins_on :: "darwin \<Rightarrow> bool" where
  "pins_on p = (r_set (d_route p) \<noteq> [])"

lemma loaded_snoc: "loaded (tr @ [x]) = loaded_step (loaded tr) x"
  by (simp add: loaded_def)

lemma pf_run_simps:
  "pf_run ctl c tr = (tr', ok, out) \<Longrightarrow> tr' = tr @ [(c, ok)] \<and> loaded tr' = loaded_step (loaded tr) (c, ok)"
  by (auto simp: pf_run_def loaded_snoc)

lemma flush_all_loaded:
  assumes "flush_all ctl Anchor ws e tr = (tr', e')"
  shows "loaded tr' \<subseteq> loaded tr \<and> (e' = None \<longrightarrow> e = None \<and> loaded tr' \<inter> set ws = {})"
  using assms
proof (induction ws arbitrary: e tr)
  case (Cons w ws)
  obtain tr1 ok out where r: "pf_run ctl (PfFlush Anchor w) tr = (tr1, ok, out)" by (metis prod.collapse)
  have l1: "loaded tr1 = (if ok then loaded tr - {w} else loaded tr)"
    using conjunct2[OF pf_run_simps[OF r]] by simp
  from Cons.prems r have "flush_all ctl Anchor ws (if \<not> ok \<and> e = None then Some (PfctlFailed out) else e) tr1 = (tr', e')"
    by simp
  from Cons.IH[OF this] l1 show ?case by (auto split: if_splits)
qed simp

lemma FlushAnchor_loaded:
  assumes "FlushAnchor ctl Anchor tr = (tr', e)"
  shows "loaded tr' \<subseteq> loaded tr" and "e = None \<Longrightarrow> loaded tr' = {}"
proof -
  note f = flush_all_loaded[OF assms[unfolded FlushAnchor_def]]
  show "loaded tr' \<subseteq> loaded tr" using f by simp
  have all: "set [FRules, FNat, FTables] = UNIV" by (auto intro: flush.exhaust)
  then show "loaded tr' = {}" if "e = None" using f that by (metis Int_UNIV_right)
qed

lemma release_loaded:
  "release env p = (p', e) \<Longrightarrow> loaded (d_pf p') = loaded (d_pf p) \<and> d_dir p' = d_dir p \<and> d_route p' = d_route p \<and> d_token p' = ''''"
  by (auto simp: release_def Disable_def pf_run_def loaded_snoc split: if_splits prod.splits)

lemma PfClear_loaded:
  assumes "PfClear env p = (p', e)"
  shows "loaded (d_pf p') \<subseteq> loaded (d_pf p)" and "e = None \<Longrightarrow> loaded (d_pf p') = {}"
    and "d_dir p' = d_dir p" and "d_route p' = d_route p" and "d_token p' = ''''"
proof -
  obtain tr err where f: "FlushAnchor (de_pfctl env) Anchor (d_pf p) = (tr, err)" by fastforce
  obtain q derr where r: "release env (p\<lparr>d_pf := tr\<rparr>) = (q, derr)" by fastforce
  from assms f r have p: "p' = q" "e = (if err = None then derr else err)" by (simp_all add: PfClear_def)
  note l = release_loaded[OF r] FlushAnchor_loaded[OF f]
  show "loaded (d_pf p') \<subseteq> loaded (d_pf p)" "d_dir p' = d_dir p" "d_route p' = d_route p" "d_token p' = ''''"
    using l p by simp_all
  show "loaded (d_pf p') = {}" if "e = None" using l p that by (auto split: if_splits)
qed

lemma clear_files_removes:
  "snd (clear_files env ns d) = None \<Longrightarrow> n \<in> set ns \<Longrightarrow> managed env d n \<Longrightarrow> fe_remove env n = None"
proof (induction env ns d rule: clear_files.induct)
  case (2 env m ns d)
  have mm: "managed env (mdel m d) n = (managed env d n \<and> n \<noteq> m)" by (simp add: managed_def read_file_def)
  show ?case
  proof (cases "managed env d m")
    case False
    then show ?thesis using 2(1)[OF False] 2(4-6) by auto
  next
    case True
    then have none: "fe_remove env m = None" using 2(4) by (auto split: option.splits)
    then have "snd (clear_files env ns (mdel m d)) = None" using 2(4) True by simp
    then show ?thesis using 2(2)[OF _ none] True mm 2(5,6) none by auto
  qed
qed simp

lemma Resolver_Clear_managed:
  assumes "Resolver_Clear env d = (d', e)"
  shows "managed env d' n \<Longrightarrow> managed env d n" and "e = None \<Longrightarrow> \<not> managed env d' n"
proof -
  have keys: "managed env d n \<Longrightarrow> n \<in> set (mkeys d)"
    by (auto simp: managed_def read_file_def domIff split: option.splits)
  have sp: "managed env d' n = (managed env d n \<and> \<not> (fe_readdir env = None \<and> fe_remove env n = None))"
  proof (cases "fe_readdir env")
    case None
    then have "mget d' n = (if managed env d n \<and> fe_remove env n = None then None else mget d n)"
      using assms clear_files_spec[of env "mkeys d" d d' e n] keys by (auto simp: Resolver_Clear_def)
    then show ?thesis using None by (auto simp: managed_def read_file_def)
  qed (use assms in \<open>simp add: Resolver_Clear_def\<close>)
  show "managed env d' n \<Longrightarrow> managed env d n" using sp by simp
  show "\<not> managed env d' n" if "e = None"
    using sp that assms keys clear_files_removes[of env "mkeys d" d n]
    by (auto simp: Resolver_Clear_def split: option.splits)
qed

lemma Router_Clear_pins:
  assumes "Router_Clear env r = (r', e)"
  shows "set (r_set r') \<subseteq> set (r_set r)" and "e = None \<Longrightarrow> r_set r' = []"
proof -
  have "clear_hosts env hs r = (r1, left, err) \<Longrightarrow> set left \<subseteq> set hs \<and> (err = None \<longrightarrow> left = [])" for hs r r1 left err
  proof (induction hs arbitrary: r r1 left err)
    case (Cons h hs)
    obtain r2 left2 err2 where "clear_hosts env hs (fst (run env (RDelete h) r)) = (r2, left2, err2)" by (metis prod.collapse)
    with Cons.IH[OF this] Cons.prems show ?case by (auto simp: run_def split: prod.splits if_splits)
  qed simp
  from this[of "r_set r" r] assms show "set (r_set r') \<subseteq> set (r_set r)" "e = None \<Longrightarrow> r_set r' = []"
    by (auto simp: Router_Clear_def split: prod.splits)
qed

section \<open>The platform keeps its contract\<close>

lemma failed_iff: "failed r = (p', None) \<longleftrightarrow> r = (p', None)"
  by (cases r) (auto simp: failed_def)

lemma failed_fst: "failed r = (p', e) \<Longrightarrow> \<exists>e'. r = (p', e')"
  by (cases r) (auto simp: failed_def)

lemma files_on_iff: "files_on env p \<longleftrightarrow> (\<exists>n. managed (de_files env) (d_dir p) n)"
  by (auto simp: files_on_def list_ex_iff managed_def read_file_def domIff split: option.splits)

lemma ResolverClear_files:
  assumes "ResolverClear env p = (p', e)"
  shows "files_on env p' \<Longrightarrow> files_on env p" and "e = None \<Longrightarrow> \<not> files_on env p'"
    and "d_pf p' = d_pf p" and "d_route p' = d_route p"
proof -
  obtain d where r: "Resolver_Clear (de_files env) (d_dir p) = (d, e)" and p': "p' = p\<lparr>d_dir := d\<rparr>"
    using assms by (auto simp: ResolverClear_def split: prod.splits)
  note m = Resolver_Clear_managed[OF r]
  show "files_on env p' \<Longrightarrow> files_on env p" using m(1) p' by (auto simp: files_on_iff)
  show "\<not> files_on env p'" if "e = None" using m(2)[OF that] p' by (simp add: files_on_iff)
  show "d_pf p' = d_pf p" "d_route p' = d_route p" using p' by simp_all
qed

lemma RouteClear_pins:
  assumes "RouteClear env p = (p', e)"
  shows "pins_on p' \<Longrightarrow> pins_on p" and "e = None \<Longrightarrow> \<not> pins_on p'"
    and "d_pf p' = d_pf p" and "d_dir p' = d_dir p"
  using assms Router_Clear_pins[of "de_route env" "d_route p"]
  by (auto simp: RouteClear_def pins_on_def split: prod.splits)

lemma PfApply_frame: "PfApply env spec p = (p', e) \<Longrightarrow> d_dir p' = d_dir p \<and> d_route p' = d_route p"
  by (auto simp: PfApply_def split: prod.splits sum.splits if_splits)

lemma ResolverSet_frame: "ResolverSet env ds port p = (p', e) \<Longrightarrow> d_pf p' = d_pf p \<and> d_route p' = d_route p"
  by (auto simp: ResolverSet_def split: prod.splits)

lemma RouteSet_frame: "RouteSet env hosts p = (p', e) \<Longrightarrow> d_pf p' = d_pf p \<and> d_dir p' = d_dir p"
  by (auto simp: RouteSet_def split: prod.splits)

lemmas on_defs = files_on_def pins_on_def anchor_on_def

interpretation darwin: helper_platform "darwin_platform env" anchor_on "files_on env" pins_on for env
proof (unfold_locales, goal_cases)
  case (1 p p')
  then show ?case using PfClear_loaded(2) by (simp add: darwin_platform_def failed_iff anchor_on_def)
next
  case (2 p p')
  then show ?case using ResolverClear_files(2) by (simp add: darwin_platform_def failed_iff)
next
  case (3 p p' e)
  then obtain e' where "ResolverClear env p = (p', e')" by (auto simp: darwin_platform_def dest: failed_fst)
  from ResolverClear_files(1)[OF this] 3(2) show ?case by blast
next
  case (4 p p' e)
  then obtain e' where "RouteClear env p = (p', e')" by (auto simp: darwin_platform_def dest: failed_fst)
  from RouteClear_pins(1)[OF this] 4(2) show ?case by blast
next
  case (5 p p')
  then show ?case using RouteClear_pins(2) by (simp add: darwin_platform_def failed_iff)
next
  case (6 p p' e)
  then obtain e' where "PfClear env p = (p', e')" by (auto simp: darwin_platform_def dest: failed_fst)
  from PfClear_loaded(1)[OF this] 6(2) show ?case by (simp add: anchor_on_def)
next
  case (7 p p' e)
  then obtain e' where "PfClear env p = (p', e')" by (auto simp: darwin_platform_def dest: failed_fst)
  from PfClear_loaded(3,4)[OF this] show ?case by (simp add: on_defs)
next
  case (8 p p' e)
  then obtain e' where "ResolverClear env p = (p', e')" by (auto simp: darwin_platform_def dest: failed_fst)
  from ResolverClear_files(3,4)[OF this] show ?case by (simp add: on_defs)
next
  case (9 p p' e)
  then obtain e' where "RouteClear env p = (p', e')" by (auto simp: darwin_platform_def dest: failed_fst)
  from RouteClear_pins(3,4)[OF this] show ?case by (simp add: on_defs)
next
  case (10 spec p p' e)
  then obtain e' where "PfApply env spec p = (p', e')" by (auto simp: darwin_platform_def dest: failed_fst)
  from PfApply_frame[OF this] show ?case by (simp add: on_defs)
next
  case (11 ds port p p' e)
  then obtain e' where "ResolverSet env ds port p = (p', e')" by (auto simp: darwin_platform_def dest: failed_fst)
  from ResolverSet_frame[OF this] show ?case by (simp add: on_defs)
next
  case (12 hosts p p' e)
  then obtain e' where "RouteSet env hosts p = (p', e')" by (auto simp: darwin_platform_def dest: failed_fst)
  from RouteSet_frame[OF this] show ?case by (simp add: on_defs)
qed
section \<open>Properties\<close>


definition fine_darwin :: darwin_env where
  "fine_darwin = \<lparr>de_pfctl = (\<lambda>_ c. (True, if c = PfEnable then ''Token : 42'' else '''')), de_files = fine_env,
     de_route = stale_env, de_natlook = (\<lambda>_ _ d. Inr d)\<rparr>"

definition fresh_machine :: darwin where
  "fresh_machine = NewDarwinPlatform [] [] None"

lemma fresh_machine_clean: "\<not> anchor_on fresh_machine" "\<not> files_on env fresh_machine" "\<not> pins_on fresh_machine"
  by (simp_all add: fresh_machine_def NewDarwinPlatform_def on_defs loaded_def mkeys_def new_router_def)

definition one_client :: "darwin server" where
  "one_client = put_conn 1 (new_conn (example_peer 8) 5) \<lparr>hs_active = None, hs_conns = (\<lambda>_. None), hs_plat = fresh_machine\<rparr>"

definition one_applied :: "darwin server" where
  "one_applied = fst (handle example_netparse (darwin_platform fine_darwin) (Some AllowAdmin) 1 (new_conn (example_peer 8) 5)
     apply_request one_client)"

lemma find_token_example: "find_token ''Token : 42'' = Some ''42''"
  by (simp add: is_digit_def)

lemma apply_example:
  "snd (PfApply fine_darwin \<lparr>ps_RemoteCIDRs = [Prefix4 a 16], ps_RedirectPort = 15300\<rparr> fresh_machine) = None \<and>
   anchor_on (fst (PfApply fine_darwin \<lparr>ps_RemoteCIDRs = [Prefix4 a 16], ps_RedirectPort = 15300\<rparr> fresh_machine))"
  by (simp add: PfApply_def Rules_def Enable_def LoadAnchor_def pf_run_def fine_darwin_def fresh_machine_def
      NewDarwinPlatform_def find_token_example anchor_on_def loaded_def del: find_token.simps)
lemma fine_clear: "snd (PfClear fine_darwin p) = None"
  by (simp add: PfClear_def FlushAnchor_def pf_run_def release_def Disable_def fine_darwin_def)

lemma one_applied_eq:
  obtains p where "one_applied = put_conn 1 ((new_conn (example_peer 8) 5)\<lparr>cs_applied := True\<rparr>)
      (one_client\<lparr>hs_plat := p, hs_active := Some 1\<rparr>)" "anchor_on p"
    "handle example_netparse (darwin_platform fine_darwin) (Some AllowAdmin) 1 (new_conn (example_peer 8) 5)
     apply_request one_client = (one_applied, ok_response)"
proof -
  let ?spec = "\<lparr>ps_RemoteCIDRs = [Prefix4 (of_octets 10 0 0 0) 16], ps_RedirectPort = 15300\<rparr>"
  obtain p e where a: "PfApply fine_darwin ?spec fresh_machine = (p, e)" by fastforce
  then have e: "e = None" "anchor_on p" using apply_example[of "of_octets 10 0 0 0"] by simp_all
  have "handle example_netparse (darwin_platform fine_darwin) (Some AllowAdmin) 1 (new_conn (example_peer 8) 5)
     apply_request one_client =
     (put_conn 1 ((new_conn (example_peer 8) 5)\<lparr>cs_applied := True\<rparr>) (one_client\<lparr>hs_plat := p, hs_active := Some 1\<rparr>),
      ok_response)"
    using a e by (simp add: handle_def op_defs AllowAdmin_def AdminGID_def example_peer_def new_conn_def apply_request_def
        plain_request_def pfApply_def example_cidr one_client_def darwin_platform_def failed_def del: parse_all.simps)
  then show thesis using that e by (simp add: one_applied_def)
qed

lemma one_applied_orderly:
  "orderly_reachable example_netparse (darwin_platform fine_darwin) (Some AllowAdmin) fresh_machine one_applied"
proof -
  have "orderly_reachable example_netparse (darwin_platform fine_darwin) (Some AllowAdmin) fresh_machine one_client"
    unfolding one_client_def by (rule o_connect[OF o_start]) simp_all
  moreover have "hs_conns one_client 1 = Some (new_conn (example_peer 8) 5)" by (simp add: one_client_def)
  moreover have "orderly_request example_netparse (darwin_platform fine_darwin) (Some AllowAdmin) 1
      (new_conn (example_peer 8) 5) apply_request one_client"
    by (rule one_applied_eq) (simp add: orderly_request_def new_conn_def)
  ultimately show ?thesis unfolding one_applied_def by (rule o_request)
qed


text \<open>
  The helper's own exit and the sweep of the next one's start: the reference on pf is always given back, and
  when no error is reported nothing is left on the machine. Recorded pins of a killed helper are handled by
  \<^verbatim>\<open>ClearRecorded\<close>.
\<close>

lemma teardown_cleans:
  assumes "teardown env leftovers p = (p', e)" and "leftovers \<Longrightarrow> r_set (d_route p) = []"
  shows "d_token p' = '''' \<and> (e = None \<longrightarrow> \<not> anchor_on p' \<and> \<not> files_on env p' \<and> \<not> pins_on p')"
proof -
  obtain p1 e1 where 1: "ResolverClear env p = (p1, e1)" by fastforce
  obtain p2 e2 where 2: "(if leftovers then (p1\<lparr>d_route := ClearRecorded (de_route env) (d_route p1)\<rparr>, None)
      else RouteClear env p1) = (p2, e2)" by fastforce
  obtain tr e3 where 3: "FlushAnchor (de_pfctl env) Anchor (d_pf p2) = (tr, e3)" by fastforce
  obtain p3 e4 where 4: "release env (p2\<lparr>d_pf := tr\<rparr>) = (p3, e4)" by fastforce
  have eq: "p' = p3" "e = first_error [map_option ResolverError e1, map_option RouteError e2, map_option PfError e3,
      map_option PfError e4]"
    using assms(1) 1 2 3 4 by (simp_all add: teardown_def)
  have dir2: "d_dir p2 = d_dir p1" using 2 RouteClear_pins(4) by (auto split: if_splits)
  have route2: "e2 = None \<Longrightarrow> \<not> pins_on p2"
    using 2 RouteClear_pins(2)[of env p1 p2 e2] assms(2) ResolverClear_files(4)[OF 1]
    by (auto simp: pins_on_def ClearRecorded_def Let_def split: if_splits option.splits)
  note r = release_loaded[OF 4]
  have "\<not> anchor_on p' \<and> \<not> files_on env p' \<and> \<not> pins_on p'" if "e = None"
  proof -
    have n: "e1 = None" "e2 = None" "e3 = None" using that eq(2) by (auto simp: first_error_def split: if_splits)
    show ?thesis
      using r eq(1) dir2 route2[OF n(2)] ResolverClear_files(2)[OF 1 n(1)] FlushAnchor_loaded(2)[OF 3 n(3)]
      by (simp add: on_defs)
  qed
  then show ?thesis using r eq(1) by blast
qed

text \<open>
  An apply whose load fails after pf was enabled reports the failure and keeps the reference: the session
  holds no rules, and \<^verbatim>\<open>cleanup\<close> does not clear pf for it.
\<close>

lemma failed_load_keeps_pf_enabled:
  assumes "Rules spec = Inr rules" "d_token p = ''''" "Enable (de_pfctl env) (d_pf p) = (tr, Inr tok)"
    and "LoadAnchor (de_pfctl env) Anchor rules tr = (tr', Some e)"
  shows "PfApply env spec p = (p\<lparr>d_pf := tr', d_token := tok\<rparr>, Some e)"
  using assms by (simp add: PfApply_def)
end
