(* ===== verification/HelperClient.thy ===== *)
theory HelperClient
  imports DarwinPlatform NetipText RemoteSet
begin

text \<open>
  The client of the privileged helper, \<^verbatim>\<open>internal/helper/client.go\<close>, over the server of \<open>HelperServer\<close>. A
  \<open>link\<close> is one connection: the client's counter, the replies that are on their way and the server at the far end,
  which other connections use as well. What a call meets (a reply in time, none before the deadline, half of one) is
  its \<open>fate\<close>. Shown: whatever the fates of earlier calls, a call never takes another request's reply for its own;
  and the set of prefixes a run captures reaches the packet filter as it was computed.
\<close>

section \<open>The connection\<close>

datatype call_error =
    NotRunning string string
  | NoDeadline
  | SendFailed string
  | NoReply string
  | BadReply
  | IdMismatch
  | Busy int time
  | HelperRefused string
  | VersionMismatch string string

text \<open>A line the server has sent, or the rest of one whose beginning an earlier call has read.\<close>

datatype reply_line = Reply "64 word" hresponse | Torn

record 'p link =
  ln_next :: "64 word"
  ln_waiting :: "reply_line list"
  ln_server :: "'p server"

text \<open>
  The fate of a call. \<open>CannotSet\<close>: the deadline could not be set. \<open>CannotSend\<close>: the request was not
  written. \<open>Broken\<close>: the connection ended before the server read the request. \<open>Late\<close>: the deadline of
  \<^verbatim>\<open>callTimeout\<close> passed before a whole line had come, with the first part of it read or not. \<open>InTime\<close>: a
  line came.
\<close>

datatype fate = CannotSet | CannotSend | Broken | Late bool | InTime

definition reply_verdict :: "string \<Rightarrow> hresponse \<Rightarrow> call_error + hresponse" where
  "reply_verdict op r =
     (if \<not> hr_OK r then
        (case hr_Busy r of
           Some (pid, since) \<Rightarrow> Inl (if hr_Code r = CodeBusy then Busy pid since else HelperRefused op)
         | None \<Rightarrow> Inl (HelperRefused op))
      else Inr r)"

fun receive :: "string \<Rightarrow> 64 word \<Rightarrow> reply_line list \<Rightarrow> (call_error + hresponse) \<times> reply_line list" where
  "receive op i [] = (Inl (NoReply op), [])"
| "receive op i (Torn # w) = (Inl BadReply, w)"
| "receive op i (Reply j r # w) =
     (if j \<noteq> i then Inl IdMismatch else reply_verdict op r, w)"

definition client_call ::
  "netparse \<Rightarrow> 'p platform \<Rightarrow> (Peer \<Rightarrow> bool) option \<Rightarrow> nat \<Rightarrow> fate \<Rightarrow> hrequest \<Rightarrow> 'p link \<Rightarrow> (call_error + hresponse) \<times> 'p link" where
  "client_call np pl allow c f req l =
     (let i = ln_next l + 1; l1 = l\<lparr>ln_next := i\<rparr> in
      case f of
        CannotSet \<Rightarrow> (Inl NoDeadline, l1)
      | CannotSend \<Rightarrow> (Inl (SendFailed (hq_Op req)), l1)
      | _ \<Rightarrow>
        (case hs_conns (ln_server l) c of
           None \<Rightarrow> (Inl (NoReply (hq_Op req)), l1)
         | Some st \<Rightarrow>
             if f = Broken then (Inl (NoReply (hq_Op req)), l1)
             else
               (case handle np pl allow c st req (ln_server l) of
                  (s', r) \<Rightarrow>
                    let w = ln_waiting l @ [Reply i r] in
                    (case f of
                       Late torn \<Rightarrow> (Inl (NoReply (hq_Op req)), l1\<lparr>ln_waiting := (if torn then Torn # tl w else w), ln_server := s'\<rparr>)
                     | _ \<Rightarrow> (case receive (hq_Op req) i w of (res, w') \<Rightarrow> (res, l1\<lparr>ln_waiting := w', ln_server := s'\<rparr>))))))"

section \<open>The operations\<close>

definition request_of :: "string \<Rightarrow> hrequest" where
  "request_of op = \<lparr>hq_Op = op, hq_Pf = None, hq_Resolver = None, hq_NatLook = None, hq_Hosts = []\<rparr>"

definition err_only :: "(call_error + hresponse) \<times> 'p link \<Rightarrow> call_error option \<times> 'p link" where
  "err_only r = (case r of (Inl e, l) \<Rightarrow> (Some e, l) | (Inr _, l) \<Rightarrow> (None, l))"

text \<open>
  \<^verbatim>\<open>Dial\<close>: a connection to a server that has accepted it (\<open>Inr\<close>), or the error of connecting.
\<close>

definition helper_Dial ::
  "netparse \<Rightarrow> 'p platform \<Rightarrow> (Peer \<Rightarrow> bool) option \<Rightarrow> nat \<Rightarrow> string \<Rightarrow> string + 'p server \<Rightarrow> fate \<Rightarrow> call_error + 'p link" where
  "helper_Dial np pl allow c socketPath conn f =
     (case conn of
        Inl e \<Rightarrow> Inl (NotRunning socketPath e)
      | Inr s \<Rightarrow>
          (case client_call np pl allow c f (request_of OpVersion) \<lparr>ln_next = 0, ln_waiting = [], ln_server = s\<rparr> of
             (Inl e, _) \<Rightarrow> Inl e
           | (Inr r, l) \<Rightarrow> if hr_Version r \<noteq> ProtocolVersion then Inl (VersionMismatch (hr_Version r) ProtocolVersion) else Inr l))"

definition client_PfApply ::
  "netparse \<Rightarrow> 'p platform \<Rightarrow> (Peer \<Rightarrow> bool) option \<Rightarrow> nat \<Rightarrow> fate \<Rightarrow> pf_spec \<Rightarrow> 'p link \<Rightarrow> call_error option \<times> 'p link" where
  "client_PfApply np pl allow c f spec l =
     err_only (client_call np pl allow c f
       ((request_of OpPfApply)\<lparr>hq_Pf := Some (map prefix_string (ps_RemoteCIDRs spec), ps_RedirectPort spec)\<rparr>) l)"

definition client_PfClear ::
  "netparse \<Rightarrow> 'p platform \<Rightarrow> (Peer \<Rightarrow> bool) option \<Rightarrow> nat \<Rightarrow> fate \<Rightarrow> 'p link \<Rightarrow> call_error option \<times> 'p link" where
  "client_PfClear np pl allow c f l = err_only (client_call np pl allow c f (request_of OpPfClear) l)"

definition client_ResolverSet ::
  "netparse \<Rightarrow> 'p platform \<Rightarrow> (Peer \<Rightarrow> bool) option \<Rightarrow> nat \<Rightarrow> fate \<Rightarrow> string list \<Rightarrow> int \<Rightarrow> 'p link \<Rightarrow> call_error option \<times> 'p link" where
  "client_ResolverSet np pl allow c f domains port l =
     err_only (client_call np pl allow c f ((request_of OpResolverSet)\<lparr>hq_Resolver := Some (domains, port)\<rparr>) l)"

definition client_ResolverClear ::
  "netparse \<Rightarrow> 'p platform \<Rightarrow> (Peer \<Rightarrow> bool) option \<Rightarrow> nat \<Rightarrow> fate \<Rightarrow> 'p link \<Rightarrow> call_error option \<times> 'p link" where
  "client_ResolverClear np pl allow c f l = err_only (client_call np pl allow c f (request_of OpResolverClear) l)"

definition client_RouteSet ::
  "netparse \<Rightarrow> 'p platform \<Rightarrow> (Peer \<Rightarrow> bool) option \<Rightarrow> nat \<Rightarrow> fate \<Rightarrow> ipaddr list \<Rightarrow> 'p link \<Rightarrow> call_error option \<times> 'p link" where
  "client_RouteSet np pl allow c f hosts l =
     err_only (client_call np pl allow c f ((request_of OpRouteSet)\<lparr>hq_Hosts := map ip_string hosts\<rparr>) l)"

definition client_RouteClear ::
  "netparse \<Rightarrow> 'p platform \<Rightarrow> (Peer \<Rightarrow> bool) option \<Rightarrow> nat \<Rightarrow> fate \<Rightarrow> 'p link \<Rightarrow> call_error option \<times> 'p link" where
  "client_RouteClear np pl allow c f l = err_only (client_call np pl allow c f (request_of OpRouteClear) l)"

text \<open>The answer of \<^verbatim>\<open>NatLook\<close> is parsed again; an address with a port is its text.\<close>

definition client_NatLook ::
  "netparse \<Rightarrow> 'p platform \<Rightarrow> (Peer \<Rightarrow> bool) option \<Rightarrow> nat \<Rightarrow> fate \<Rightarrow> string \<Rightarrow> string \<Rightarrow> string \<Rightarrow> 'p link \<Rightarrow>
   (call_error option + string) \<times> 'p link" where
  "client_NatLook np pl allow c f prt src dst l =
     (case client_call np pl allow c f ((request_of OpNatLook)\<lparr>hq_NatLook := Some (prt, src, dst)\<rparr>) l of
        (Inl e, l') \<Rightarrow> (Inl (Some e), l')
      | (Inr r, l') \<Rightarrow> (case np_addrport np (hr_Dst r) of None \<Rightarrow> (Inl None, l') | Some a \<Rightarrow> (Inr a, l')))"

text \<open>A link after \<open>n\<close> calls, among whatever the helper's other connections do.\<close>

inductive link_reachable ::
  "netparse \<Rightarrow> 'p platform \<Rightarrow> (Peer \<Rightarrow> bool) option \<Rightarrow> nat \<Rightarrow> nat \<Rightarrow> 'p link \<Rightarrow> bool" for np pl allow c where
  fresh: "link_reachable np pl allow c 0 \<lparr>ln_next = 0, ln_waiting = [], ln_server = s\<rparr>"
| called: "link_reachable np pl allow c n l \<Longrightarrow> client_call np pl allow c f req l = (res, l') \<Longrightarrow> link_reachable np pl allow c (Suc n) l'"
| other: "link_reachable np pl allow c n l \<Longrightarrow> server_step np pl allow (ln_server l) s' \<Longrightarrow>
    link_reachable np pl allow c n (l\<lparr>ln_server := s'\<rparr>)"

section \<open>A call and its own reply\<close>

text \<open>Every reply still on its way answers an earlier call.\<close>

definition link_inv :: "nat \<Rightarrow> 'p link \<Rightarrow> bool" where
  "link_inv n l \<longleftrightarrow> ln_next l = of_nat n \<and>
     (\<forall>j r. Reply j r \<in> set (ln_waiting l) \<longrightarrow> (\<exists>m \<le> n. j = of_nat m))"

lemma call_next: "client_call np pl allow c f req l = (res, l') \<Longrightarrow> ln_next l' = ln_next l + 1"
  by (auto simp: client_call_def Let_def split: fate.splits option.splits prod.splits if_splits)

lemma receive_rest: "receive op i w = (res, w') \<Longrightarrow> set w' \<subseteq> set w"
  by (cases "(op, i, w)" rule: receive.cases) auto

lemma call_waiting:
  "client_call np pl allow c f req l = (res, l') \<Longrightarrow>
   set (ln_waiting l') \<subseteq> set (ln_waiting l) \<union> {Torn} \<union> range (Reply (ln_next l + 1))"
  by (auto simp: client_call_def Let_def split: fate.splits option.splits prod.splits if_splits dest!: receive_rest list.set_sel(2)[rotated]) blast

lemma link_inv_call: "link_inv n l \<Longrightarrow> client_call np pl allow c f req l = (res, l') \<Longrightarrow> link_inv (Suc n) l'"
  unfolding link_inv_def
proof safe
  assume n: "ln_next l = of_nat n" and c: "client_call np pl allow c f req l = (res, l')"
  show "ln_next l' = of_nat (Suc n)" using call_next[OF c] n by simp
  fix j r
  assume old: "\<forall>j r. Reply j r \<in> set (ln_waiting l) \<longrightarrow> (\<exists>m\<le>n. j = of_nat m)" and "Reply j r \<in> set (ln_waiting l')"
  then have "Reply j r \<in> set (ln_waiting l) \<or> j = ln_next l + 1" using call_waiting[OF c] by auto
  then show "\<exists>m\<le>Suc n. j = of_nat m"
  proof
    assume "j = ln_next l + 1"
    then have "j = of_nat (Suc n)" using n by simp
    then show ?thesis by blast
  qed (use old le_SucI in blast)
qed

lemma link_reachable_inv: "link_reachable np pl allow c n l \<Longrightarrow> link_inv n l"
  by (induction rule: link_reachable.induct) (auto intro: link_inv_call, simp_all add: link_inv_def)

lemma fresh_id: "m \<le> n \<Longrightarrow> n + 1 < 2 ^ 64 \<Longrightarrow> (of_nat m :: 64 word) \<noteq> of_nat n + 1"
proof
  assume "m \<le> n" "n + 1 < 2 ^ 64" "(of_nat m :: 64 word) = of_nat n + 1"
  then have "(of_nat m :: 64 word) = of_nat (n + 1)" by simp
  then have "m mod 2 ^ 64 = (n + 1) mod 2 ^ 64" by (simp only: word_of_nat_eq_iff take_bit_eq_mod len_of_numeral_defs) simp
  then show False using \<open>m \<le> n\<close> \<open>n + 1 < 2 ^ 64\<close> by simp
qed

text \<open>The errors that tell of the request itself; every other one is the connection's.\<close>

definition about_request :: "call_error + hresponse \<Rightarrow> bool" where
  "about_request res = (case res of Inr _ \<Rightarrow> True | Inl (Busy _ _) \<Rightarrow> True | Inl (HelperRefused _) \<Rightarrow> True | Inl _ \<Rightarrow> False)"

lemma receive_about:
  "receive op i w = (res, w') \<Longrightarrow> about_request res \<Longrightarrow> \<exists>r. w = Reply i r # w' \<and> res = reply_verdict op r"
  by (cases "(op, i, w)" rule: receive.cases) (auto simp: about_request_def split: if_splits)
lemma reply_verdict_about [simp]: "about_request (reply_verdict op r)"
  by (auto simp: reply_verdict_def about_request_def split: option.splits)

lemma call_about:
  assumes "client_call np pl allow c f req l = (res, l')" and "about_request res"
  obtains st r w r' where "f = InTime" "hs_conns (ln_server l) c = Some st" "handle np pl allow c st req (ln_server l) = (ln_server l', r)"
    "ln_waiting l @ [Reply (ln_next l + 1) r] = Reply (ln_next l + 1) r' # w" "res = reply_verdict (hq_Op req) r'"
  using assms
  by (auto simp: client_call_def Let_def about_request_def[of "Inl _"] split: fate.splits option.splits prod.splits if_splits dest!: receive_about)

lemma call_in_time:
  assumes "hs_conns (ln_server l) c = Some st" and "ln_waiting l = []" and "handle np pl allow c st req (ln_server l) = (s', r)"
  shows "client_call np pl allow c InTime req l = (reply_verdict (hq_Op req) r, l\<lparr>ln_next := ln_next l + 1, ln_waiting := [], ln_server := s'\<rparr>)"
  using assms by (simp add: client_call_def Let_def)

lemma own_reply:
  assumes "link_reachable np pl allow c n l" and "n + 1 < 2 ^ 64" and "client_call np pl allow c f req l = (res, l')" and "about_request res"
  shows "\<exists>st r. hs_conns (ln_server l) c = Some st \<and> handle np pl allow c st req (ln_server l) = (ln_server l', r) \<and>
         res = reply_verdict (hq_Op req) r \<and> ln_waiting l = []"
proof -
  have inv: "ln_next l = of_nat n" "\<And>j r. Reply j r \<in> set (ln_waiting l) \<Longrightarrow> \<exists>m\<le>n. j = of_nat m"
    using link_reachable_inv[OF assms(1)] unfolding link_inv_def by blast+
  obtain st r w r' where h: "hs_conns (ln_server l) c = Some st" "handle np pl allow c st req (ln_server l) = (ln_server l', r)"
    and w: "ln_waiting l @ [Reply (ln_next l + 1) r] = Reply (ln_next l + 1) r' # w" "res = reply_verdict (hq_Op req) r'"
    by (rule call_about[OF assms(3,4)])
  have "ln_waiting l = []"
  proof (rule ccontr)
    assume "ln_waiting l \<noteq> []"
    then have "Reply (ln_next l + 1) r' \<in> set (ln_waiting l)" using w(1) by (cases "ln_waiting l") auto
    then show False using inv fresh_id[OF _ assms(2)] by metis
  qed
  then show ?thesis using h w by auto
qed

text \<open>C17: A call never takes another request's reply for its own. However earlier calls on the connection ended
  (late, cut in the middle of a line, not sent) and whatever other connections did in between, up to the last number
  the counter can give: when a call reports success, a busy helper or a refusal, that is what the server answered to
  this very request, and the state it left; and on a connection with nothing outstanding a call answered in time
  does report it.\<close>

theorem client_reads_its_own_reply:
  assumes "link_reachable np pl allow c n l" and "n + 1 < 2 ^ 64" and "client_call np pl allow c f req l = (res, l')"
  shows "(about_request res \<longrightarrow>
      (\<exists>st r. hs_conns (ln_server l) c = Some st \<and> handle np pl allow c st req (ln_server l) = (ln_server l', r) \<and>
         res = reply_verdict (hq_Op req) r)) \<and>
    (f = InTime \<and> hs_conns (ln_server l) c \<noteq> None \<and> ln_waiting l = [] \<longrightarrow> about_request res)"
proof (intro conjI impI)
  assume "about_request res"
  then show "\<exists>st r. hs_conns (ln_server l) c = Some st \<and> handle np pl allow c st req (ln_server l) = (ln_server l', r) \<and>
         res = reply_verdict (hq_Op req) r"
    using own_reply[OF assms] by blast
next
  assume "f = InTime \<and> hs_conns (ln_server l) c \<noteq> None \<and> ln_waiting l = []"
  then obtain st where "f = InTime" "hs_conns (ln_server l) c = Some st" "ln_waiting l = []" by auto
  then show "about_request res" using assms(3) call_in_time[of l c st np pl allow req] by (cases "handle np pl allow c st req (ln_server l)") auto
qed

text \<open>
  The other side of it: a reply that came late stays in front of every later one. From then on no call of the
  connection reports what its request did, although the server carries each of them out.
\<close>

lemma late_reply_desynchronises:
  assumes "link_reachable np pl allow c n l" and "n + 1 < 2 ^ 64" and "ln_waiting l \<noteq> []" and "client_call np pl allow c f req l = (res, l')"
  shows "\<not> about_request res \<and> ln_waiting l' \<noteq> []"
proof
  show "\<not> about_request res" using own_reply[OF assms(1,2,4)] assms(3) by blast
  obtain x xs where "ln_waiting l = x # xs" using assms(3) by (cases "ln_waiting l") auto
  then show "ln_waiting l' \<noteq> []"
    using assms(4) by (cases x) (auto simp: client_call_def Let_def split: fate.splits option.splits prod.splits if_splits)
qed
section \<open>From the captured set to the packet filter\<close>

lemma remoteSet_canonical:
  assumes "remoteSet vpc services opts tk = Inr out"
    and "\<And>s ps. vpc s = Inr ps \<Longrightarrow> list_all canonical ps" and "\<And>n ps. services n = Inr ps \<Longrightarrow> list_all canonical ps"
  shows "list_all canonical out \<and> out \<noteq> []"
proof -
  from remoteSet_Inr[OF assms(1)] obtain extra loc v svc where
    p: "ParseRemoteCIDRs ''--remote-cidr'' (o_RemoteCIDRs opts) = Inr extra"
       "ParseRemoteCIDRs ''network.local_cidrs'' (o_LocalCIDRs opts) = Inr loc"
    and v: "vpc (t_SubnetID tk) = Inr v"
    and svc: "if o_RemoteServices opts = [] then svc = [] else services (o_RemoteServices opts) = Inr svc"
    and out: "applyLocalCIDRs (v @ extra @ svc) loc (credentialRouteFloor opts) = Inr out" by blast
  have "list_all canonical (v @ extra @ svc)"
    using assms(2)[OF v] assms(3) svc ParseRemoteCIDRs_canonical[OF p(1)] by (auto split: if_splits)
  moreover have "list_all wf_prefix loc" using ParseRemoteCIDRs_canonical[OF p(2)] by (auto simp: list_all_iff canonical_wf)
  ultimately have "list_all canonical (Subtract (v @ extra @ svc) loc)" using Subtract_spec by blast
  moreover have "canonical TaskRoleCIDR" by (simp add: canonical_def wf_prefix_def TaskRoleCIDR_def net4_def of_octets_def mask_numeral)
  then have "list_all canonical (credentialRouteFloor opts)" by (simp add: credentialRouteFloor_def)
  ultimately show ?thesis using out by (auto simp: applyLocalCIDRs_Inr)
qed

lemma canonical_text: "canonical p \<Longrightarrow> ParsePrefix np (prefix_string p) = Some p \<and> masked p = p \<and> is4 p"
  by (cases p) (auto simp: canonical_def wf_prefix_def ParsePrefix_def parse_prefix_string)

lemma canonical_texts: "list_all canonical ps \<Longrightarrow> parse_all (ParsePrefix np) (map prefix_string ps) = Some ps"
  by (induction ps) (simp_all add: canonical_text)

lemma canonical_rules:
  assumes "list_all canonical ps" and "ps \<noteq> []" and "0 < port" and "port \<le> 65535"
  shows "Rules \<lparr>ps_RemoteCIDRs = ps, ps_RedirectPort = port\<rparr> = Inr (rules_text (map prefix_string ps) port)"
proof -
  have "find (\<lambda>p. \<not> is4 p) ps = None" "map (\<lambda>p. prefix_string (masked p)) ps = map prefix_string ps"
    using assms(1) canonical_text by (auto simp: find_None_iff list_all_iff)
  then show ?thesis using assms(2-4) by (simp add: Rules_def del: map_eq_conv)
qed

text \<open>C16: The set a run captures is well-typed for everything it goes through. Whatever the flags, the configuration
  and the VPC hold, each prefix \<^verbatim>\<open>remoteSet\<close> returns is an IPv4 prefix with no host bits; printed into the
  request it is read back by the helper as the same prefix; the rules are never refused for their shape; and the
  packet filter is asked to load exactly the rules for that set, the client reporting what it answered.\<close>

theorem captured_set_reaches_pf:
  assumes "remoteSet vpc services opts tk = Inr cidrs"
    and "\<And>s ps. vpc s = Inr ps \<Longrightarrow> list_all canonical ps" and "\<And>n ps. services n = Inr ps \<Longrightarrow> list_all canonical ps"
    and "0 < port" and "port \<le> 65535" and "hs_conns (ln_server l) c = Some st" and "\<not> cs_applied st" and "ln_waiting l = []"
    and "hs_active (ln_server l) = None" and "AllowAdmin (cs_peer st)"
  shows "let spec = \<lparr>ps_RemoteCIDRs = cidrs, ps_RedirectPort = port\<rparr>;
             (p', e) = PfApply env spec (hs_plat (ln_server l));
             (res, l') = client_PfApply np (darwin_platform env) (Some AllowAdmin) c InTime spec l
         in list_all canonical cidrs \<and> Rules spec = Inr (rules_text (map prefix_string cidrs) port) \<and>
            hs_plat (ln_server l') = p' \<and> ln_waiting l' = [] \<and>
            (case e of None \<Rightarrow> res = None \<and> hs_active (ln_server l') = Some c
             | Some _ \<Rightarrow> res = Some (HelperRefused OpPfApply) \<and> hs_active (ln_server l') = None)"
proof -
  let ?spec = "\<lparr>ps_RemoteCIDRs = cidrs, ps_RedirectPort = port\<rparr>" and ?s = "ln_server l"
  let ?req = "(request_of OpPfApply)\<lparr>hq_Pf := Some (map prefix_string cidrs, port)\<rparr>"
  have can: "list_all canonical cidrs" "cidrs \<noteq> []" using remoteSet_canonical[OF assms(1-3)] by auto
  obtain p' e where e: "PfApply env ?spec (hs_plat ?s) = (p', e)" by fastforce
  have h: "handle np (darwin_platform env) (Some AllowAdmin) c st ?req ?s =
      (case e of Some _ \<Rightarrow> (?s\<lparr>hs_plat := p'\<rparr>, err_response CodePlatform)
       | None \<Rightarrow> (put_conn c (st\<lparr>cs_applied := True\<rparr>) (?s\<lparr>hs_plat := p', hs_active := Some c\<rparr>), ok_response))"
    using assms(4-10) e
    by (simp add: handle_def op_defs request_of_def pfApply_def canonical_texts[OF can(1)] darwin_platform_def failed_def split: option.splits)
  have r: "client_PfApply np (darwin_platform env) (Some AllowAdmin) c InTime ?spec l =
      err_only (client_call np (darwin_platform env) (Some AllowAdmin) c InTime ?req l)"
    by (simp add: client_PfApply_def)
  show ?thesis
  proof (cases e)
    case None
    note call = call_in_time[OF assms(6,8) h[unfolded None option.case(1)]]
    show ?thesis using canonical_rules[OF can assms(4,5)] can(1) e None
      by (simp add: r call err_only_def reply_verdict_def ok_response_def put_conn_def)
  next
    case (Some x)
    note call = call_in_time[OF assms(6,8) h[unfolded Some option.case(2)]]
    show ?thesis using canonical_rules[OF can assms(4,5)] can(1) e Some
      by (simp add: r call err_only_def reply_verdict_def err_response_def assms(9)) (simp add: request_of_def)
  qed
qed
definition demo_link :: "'p \<Rightarrow> 'p link" where
  "demo_link p = \<lparr>ln_next = 0, ln_waiting = [], ln_server = two_clients p\<rparr>"

theorem client_reads_its_own_reply_witness:
  "about_request (fst (client_call example_netparse example_platform (Some AllowAdmin) 1 InTime (request_of OpVersion) (demo_link ())))"
proof -
  have "link_reachable example_netparse example_platform (Some AllowAdmin) 1 0 (demo_link ())"
    unfolding demo_link_def by (rule link_reachable.fresh)
  from client_reads_its_own_reply[OF this _ surjective_pairing, of InTime "request_of OpVersion"]
  show ?thesis by (simp add: demo_link_def two_clients_def put_conn_def)
qed

theorem captured_set_reaches_pf_witness:
  "Rules \<lparr>ps_RemoteCIDRs = [vpc16, TaskRoleCIDR], ps_RedirectPort = 15300\<rparr> =
     Inr (rules_text [prefix_string vpc16, prefix_string TaskRoleCIDR] 15300)"
proof -
  have r: "remoteSet (\<lambda>_. Inr [vpc16]) (\<lambda>_. Inr []) pinned_options zero_task = Inr [vpc16, TaskRoleCIDR]"
    by (simp add: remoteSet_def pinned_options_def zero_options_def applyLocalCIDRs_def credentialRouteFloor_def)
  show ?thesis
    using captured_set_reaches_pf[OF r, of 15300 "demo_link fresh_machine" 1 "new_conn (example_peer 8) 5" fine_darwin example_netparse]
      vpc16_canonical
    by (simp add: Let_def case_prod_beta demo_link_def two_clients_def put_conn_def new_conn_def example_peer_def AllowAdmin_def AdminGID_def)
qed
end
