(* ===== verification/Capture.thy ===== *)
theory Capture
  imports HelperClient
begin

text \<open>
  Captured connections: \<^verbatim>\<open>internal/capture/pfrdr/pfrdr.go\<close>, which listens where the packet filter redirects
  to and asks the helper for each connection's original destination, and \<^verbatim>\<open>internal/proxy/forwarder.go\<close>, which
  dials that destination through the agent. The helper is the client of \<open>HelperClient\<close>; the dial through the
  agent is a parameter. Shown: a connection is only ever forwarded to the destination the packet filter recorded for
  it, and every one is closed.
\<close>

section \<open>The capturer\<close>

datatype capture_error = AlreadyStarted | ListenError string | InstallRules call_error

text \<open>\<open>cap_ln\<close> is the field \<^verbatim>\<open>ln\<close>, by the port it listens on; \<open>cap_open\<close> are the listeners that are open.\<close>

record 'p capturer =
  cap_ln :: "int option"
  cap_open :: "int list"
  cap_link :: "'p link"

definition cap_Start ::
  "netparse \<Rightarrow> 'p platform \<Rightarrow> (Peer \<Rightarrow> bool) option \<Rightarrow> nat \<Rightarrow> string + int \<Rightarrow> fate \<Rightarrow> prefix list \<Rightarrow> 'p capturer \<Rightarrow>
   capture_error option \<times> 'p capturer" where
  "cap_Start np pl allow c listen f cidrs k =
     (if cap_ln k \<noteq> None then (Some AlreadyStarted, k)
      else case listen of
        Inl e \<Rightarrow> (Some (ListenError e), k)
      | Inr port \<Rightarrow>
          (case client_PfApply np pl allow c f \<lparr>ps_RemoteCIDRs = cidrs, ps_RedirectPort = port\<rparr> (cap_link k) of
             (Some e, l) \<Rightarrow> (Some (InstallRules e), k\<lparr>cap_link := l\<rparr>)
           | (None, l) \<Rightarrow> (None, k\<lparr>cap_link := l, cap_open := port # cap_open k, cap_ln := Some port\<rparr>)))"

definition RedirectPort :: "'p capturer \<Rightarrow> int" where
  "RedirectPort k = (case cap_ln k of None \<Rightarrow> 0 | Some port \<Rightarrow> port)"

definition cap_Close ::
  "netparse \<Rightarrow> 'p platform \<Rightarrow> (Peer \<Rightarrow> bool) option \<Rightarrow> nat \<Rightarrow> fate \<Rightarrow> 'p capturer \<Rightarrow> call_error option \<times> 'p capturer" where
  "cap_Close np pl allow c f k =
     (case cap_ln k of
        None \<Rightarrow> (None, k)
      | Some port \<Rightarrow>
          (case client_PfClear np pl allow c f (cap_link k) of
             (err, l) \<Rightarrow> (err, k\<lparr>cap_link := l, cap_open := remove1 port (cap_open k), cap_ln := None\<rparr>)))"

text \<open>A connection the listener accepts: its number, its two ends in text, and the fate of the question about it.\<close>

record incoming_conn =
  ic_id :: nat
  ic_src :: string
  ic_dst :: string
  ic_fate :: fate

datatype 'r event = Dialed nat string | Piped nat 'r | ClosedRemote 'r | ClosedConn nat

text \<open>
  \<^verbatim>\<open>Accept\<close>: the connections that come until the listener's end. One whose look-up fails is closed and passed
  over; the result is the first of the others with its destination, and what the listener has left, or nothing when
  there is no listener (the capturer was not started) or it has ended.
\<close>

type_synonym ('l, 'e) look_up = "incoming_conn \<Rightarrow> 'l \<Rightarrow> ('e + string) \<times> 'l"

fun cap_Accept ::
  "('l, 'e) look_up \<Rightarrow> int option \<Rightarrow> incoming_conn list \<Rightarrow> 'l \<Rightarrow>
   'r event list \<times> (incoming_conn \<times> string) option \<times> incoming_conn list \<times> 'l" where
  "cap_Accept look None ks l = ([], None, ks, l)"
| "cap_Accept look (Some ln) [] l = ([], None, [], l)"
| "cap_Accept look (Some ln) (k # ks) l =
     (case look k l of
        (Inl _, l') \<Rightarrow> (case cap_Accept look (Some ln) ks l' of (evs, r) \<Rightarrow> (ClosedConn (ic_id k) # evs, r))
      | (Inr orig, l') \<Rightarrow> ([], Some (k, orig), ks, l'))"

text \<open>The look-up of the capturer: the helper's client, asked about a TCP connection.\<close>

definition helper_look ::
  "netparse \<Rightarrow> 'p platform \<Rightarrow> (Peer \<Rightarrow> bool) option \<Rightarrow> nat \<Rightarrow> ('p link, call_error option) look_up" where
  "helper_look np pl allow c k l = client_NatLook np pl allow c (ic_fate k) ''tcp'' (ic_src k) (ic_dst k) l"

section \<open>The forwarder\<close>

text \<open>\<^verbatim>\<open>handle\<close>: \<open>dial\<close> is the dial through the agent; the pipe has ended when the two are closed.\<close>

definition fwd_handle :: "(string \<Rightarrow> string + 'r) \<Rightarrow> incoming_conn \<Rightarrow> string \<Rightarrow> 'r event list" where
  "fwd_handle dial k dst =
     Dialed (ic_id k) dst #
     (case dial dst of
        Inl _ \<Rightarrow> []
      | Inr remote \<Rightarrow> [Piped (ic_id k) remote, ClosedRemote remote]) @ [ClosedConn (ic_id k)]"

lemma cap_Accept_shorter:
  "cap_Accept look ln ks l = (evs, Some x, ks', l') \<Longrightarrow> length ks' < length ks"
  by (induction look ln ks l arbitrary: evs rule: cap_Accept.induct) (auto split: prod.splits sum.splits simp: less_SucI)

text \<open>
  \<^verbatim>\<open>Run\<close>: one \<^verbatim>\<open>handle\<close> for each connection, until \<^verbatim>\<open>Accept\<close> fails. The handlers run
  beside each other; the list has each one's events in their order and says nothing about two of them.
\<close>

function fwd_Run ::
  "('l, 'e) look_up \<Rightarrow> int option \<Rightarrow> (string \<Rightarrow> string + 'r) \<Rightarrow> incoming_conn list \<Rightarrow> 'l \<Rightarrow> 'r event list \<times> 'l" where
  "fwd_Run look ln dial ks l =
     (case cap_Accept look ln ks l of
        (evs, None, _, l') \<Rightarrow> (evs, l')
      | (evs, Some (k, orig), ks', l') \<Rightarrow>
          (case fwd_Run look ln dial ks' l' of (evs', l'') \<Rightarrow> (evs @ fwd_handle dial k orig @ evs', l'')))"
  by pat_completeness auto
termination
  by (relation "measure (\<lambda>(_, _, _, ks, _). length ks)") (auto dest: cap_Accept_shorter[OF sym])

declare fwd_Run.simps [simp del]

text \<open>The loop, one connection at a time.\<close>

lemma fwd_Run_Nil: "fwd_Run look (Some ln) dial [] l = ([], l)"
  by (simp add: fwd_Run.simps)

lemma fwd_Run_Cons:
  "fwd_Run look (Some ln) dial (k # ks) l =
     (case look k l of
        (res, l') \<Rightarrow> (case fwd_Run look (Some ln) dial ks l' of
           (evs, l'') \<Rightarrow> ((case res of Inl _ \<Rightarrow> [ClosedConn (ic_id k)] | Inr orig \<Rightarrow> fwd_handle dial k orig) @ evs, l'')))"
proof (cases "look k l")
  case (Pair res l')
  show ?thesis
  proof (cases res)
    case (Inl e)
    then show ?thesis
      by (simp add: Pair fwd_Run.simps[of look "Some ln" dial "k # ks"] fwd_Run.simps[of look "Some ln" dial ks]
          split: prod.splits option.splits)
  next
    case (Inr orig)
    then show ?thesis by (simp add: Pair fwd_Run.simps[of look "Some ln" dial "k # ks"] split: prod.splits)
  qed
qed

fun closed_id :: "'r event \<Rightarrow> nat option" where
  "closed_id (ClosedConn i) = Some i"
| "closed_id _ = None"

lemma handle_events:
  "Dialed i d \<in> set (fwd_handle dial k orig) \<longleftrightarrow> i = ic_id k \<and> d = orig"
  "Piped i r \<in> set (fwd_handle dial k orig) \<longleftrightarrow> i = ic_id k \<and> dial orig = Inr r"
  "List.map_filter closed_id (fwd_handle dial k orig) = [ic_id k]"
  by (auto simp: fwd_handle_def List.map_filter_simps split: sum.splits)

lemma closed_append: "List.map_filter closed_id (xs @ ys) = List.map_filter closed_id xs @ List.map_filter closed_id ys"
  by (simp add: List.map_filter_def)

section \<open>What the capturer needs of the helper\<close>

text \<open>
  The interface \<^verbatim>\<open>pfrdr.Helper\<close>, as far as the forwarder relies on it: an answer is the recorded destination of
  the connection that was asked about, for as many questions as the counter has numbers; and the client can be asked
  again after every answer.
\<close>

locale pf_helper =
  fixes look :: "('l, 'e) look_up" and usable :: "nat \<Rightarrow> 'l \<Rightarrow> bool" and origin :: "incoming_conn \<Rightarrow> string \<Rightarrow> bool"
  assumes look_origin: "usable n l \<Longrightarrow> n + 1 < 2 ^ 64 \<Longrightarrow> look k l = (Inr d, l') \<Longrightarrow> origin k d"
    and look_usable: "usable n l \<Longrightarrow> look k l = (res, l') \<Longrightarrow> usable (Suc n) l'"
begin

lemma run_sound:
  assumes "usable n l" and "n + length ks < 2 ^ 64" and "fwd_Run look (Some ln) dial ks l = (evs, l')"
  shows "(\<forall>i d. Dialed i d \<in> set evs \<longrightarrow> (\<exists>k \<in> set ks. ic_id k = i \<and> origin k d)) \<and>
    (\<forall>i r. Piped i r \<in> set evs \<longrightarrow> (\<exists>d. Dialed i d \<in> set evs \<and> dial d = Inr r)) \<and>
    List.map_filter closed_id evs = map ic_id ks"
  using assms
proof (induction ks arbitrary: n l evs)
  case (Cons k ks)
  obtain res l1 where r: "look k l = (res, l1)" by fastforce
  obtain evs1 where run: "fwd_Run look (Some ln) dial ks l1 = (evs1, l')"
    and evs: "evs = (case res of Inl _ \<Rightarrow> [ClosedConn (ic_id k)] | Inr orig \<Rightarrow> fwd_handle dial k orig) @ evs1"
    using Cons.prems(3) by (auto simp: fwd_Run_Cons r split: prod.splits)
  have IH: "\<forall>i d. Dialed i d \<in> set evs1 \<longrightarrow> (\<exists>k \<in> set ks. ic_id k = i \<and> origin k d)"
    "\<forall>i r. Piped i r \<in> set evs1 \<longrightarrow> (\<exists>d. Dialed i d \<in> set evs1 \<and> dial d = Inr r)" "List.map_filter closed_id evs1 = map ic_id ks"
    using Cons.IH[OF look_usable[OF Cons.prems(1) r] _ run] Cons.prems(2) by auto
  show ?case
  proof (cases res)
    case (Inl e)
    then show ?thesis using IH evs by (auto simp: List.map_filter_simps)
  next
    case (Inr orig)
    then have "origin k orig" using look_origin[OF Cons.prems(1) _ r[unfolded Inr]] Cons.prems(2) by simp
    then show ?thesis using IH evs Inr by (auto simp: handle_events closed_append) blast
  qed
qed (simp add: fwd_Run_Nil List.map_filter_simps)

end

text \<open>A helper that is prompt: it answers a question that is answered in time, and stays so.\<close>

locale prompt_helper = pf_helper +
  fixes prompt :: "'l \<Rightarrow> bool"
  assumes prompt_answers: "prompt l \<Longrightarrow> ic_fate k = InTime \<Longrightarrow> origin k d \<Longrightarrow> look k l = (res, l') \<Longrightarrow> res = Inr d"
    and prompt_stays: "prompt l \<Longrightarrow> ic_fate k = InTime \<Longrightarrow> look k l = (res, l') \<Longrightarrow> prompt l'"
begin

lemma run_complete:
  assumes "prompt l" and "fwd_Run look (Some ln) dial ks l = (evs, l')" and "\<forall>k \<in> set ks. ic_fate k = InTime"
    and "k \<in> set ks" and "origin k d"
  shows "Dialed (ic_id k) d \<in> set evs"
  using assms
proof (induction ks arbitrary: l evs)
  case (Cons k1 ks)
  obtain res l1 where r: "look k1 l = (res, l1)" by fastforce
  obtain evs1 where run: "fwd_Run look (Some ln) dial ks l1 = (evs1, l')"
    and evs: "evs = (case res of Inl _ \<Rightarrow> [ClosedConn (ic_id k1)] | Inr orig \<Rightarrow> fwd_handle dial k1 orig) @ evs1"
    using Cons.prems(2) by (auto simp: fwd_Run_Cons r split: prod.splits)
  have "ic_fate k1 = InTime" using Cons.prems(3) by simp
  note prompt = prompt_answers[OF Cons.prems(1) this _ r] prompt_stays[OF Cons.prems(1) this r]
  show ?case
  proof (cases "k = k1")
    case True
    then show ?thesis using prompt(1) Cons.prems(5) evs by (auto simp: handle_events)
  next
    case False
    then have "Dialed (ic_id k) d \<in> set evs1" using Cons.IH[OF prompt(2) run] Cons.prems(3-5) by auto
    then show ?thesis using evs by simp
  qed
qed simp

end

section \<open>Where a connection goes\<close>

text \<open>The destination the packet filter recorded for a connection.\<close>

definition recorded :: "netparse \<Rightarrow> 'p platform \<Rightarrow> incoming_conn \<Rightarrow> string \<Rightarrow> bool" where
  "recorded np pl k d =
     (case (np_addrport np (ic_src k), np_addrport np (ic_dst k)) of
        (Some s, Some t) \<Rightarrow> (case pl_NatLook pl ''tcp'' s t of Inr orig \<Rightarrow> np_addrport np orig = Some d | Inl _ \<Rightarrow> False)
      | _ \<Rightarrow> False)"

lemma natlook_answer:
  assumes "hq_NatLook req = Some (''tcp'', ic_src k, ic_dst k)" and "hq_Op req = OpNatLook" and "handle np pl allow c st req s = (s', r)"
  shows "s' = s" and "hr_OK r \<Longrightarrow> np_addrport np (hr_Dst r) = Some d \<Longrightarrow> recorded np pl k d"
    and "(case allow of Some f \<Rightarrow> f (cs_peer st) | None \<Rightarrow> True) \<Longrightarrow> recorded np pl k d \<Longrightarrow> hr_OK r \<and> np_addrport np (hr_Dst r) = Some d"
  using assms
  by (auto simp: handle_def op_defs natLook_def recorded_def err_response_def ok_response_def
      split: option.splits sum.splits if_splits)

lemma looked_up:
  assumes "link_reachable np pl allow c n l" and "n + 1 < 2 ^ 64"
    and "client_NatLook np pl allow c f ''tcp'' (ic_src k) (ic_dst k) l = (Inr d, l')"
  shows "recorded np pl k d" and "ln_waiting l = []"
proof -
  let ?req = "(request_of OpNatLook)\<lparr>hq_NatLook := Some (''tcp'', ic_src k, ic_dst k)\<rparr>"
  obtain r where r: "client_call np pl allow c f ?req l = (Inr r, l')" "np_addrport np (hr_Dst r) = Some d"
    using assms(3) by (auto simp: client_NatLook_def split: prod.splits sum.splits option.splits)
  then obtain st r' where h: "handle np pl allow c st ?req (ln_server l) = (ln_server l', r')" "Inr r = reply_verdict (hq_Op ?req) r'" "ln_waiting l = []"
    using own_reply[OF assms(1,2) r(1)] by (auto simp: about_request_def)
  then have "hr_OK r'" "r' = r" by (auto simp: reply_verdict_def split: if_splits option.splits)
  then show "recorded np pl k d" using natlook_answer(2)[OF _ _ h(1)] r(2) by (simp add: request_of_def)
  show "ln_waiting l = []" by (rule h(3))
qed

lemma looked_up_in_time:
  assumes "hs_conns (ln_server l) c = Some st" and "case allow of Some f \<Rightarrow> f (cs_peer st) | None \<Rightarrow> True" and "ln_waiting l = []"
    and "client_NatLook np pl allow c InTime ''tcp'' (ic_src k) (ic_dst k) l = (res, l')"
  shows "ln_server l' = ln_server l" and "ln_waiting l' = []" and "recorded np pl k d \<Longrightarrow> res = Inr d"
proof -
  let ?req = "(request_of OpNatLook)\<lparr>hq_NatLook := Some (''tcp'', ic_src k, ic_dst k)\<rparr>"
  obtain s' r where h: "handle np pl allow c st ?req (ln_server l) = (s', r)" by fastforce
  note call = call_in_time[OF assms(1,3) h]
  have s: "s' = ln_server l" using natlook_answer(1)[OF _ _ h] by (simp add: request_of_def)
  show "ln_server l' = ln_server l" "ln_waiting l' = []"
    using assms(4) by (auto simp: client_NatLook_def call s split: sum.splits option.splits)
  assume "recorded np pl k d"
  then have "hr_OK r" "np_addrport np (hr_Dst r) = Some d" using natlook_answer(3)[OF _ _ h assms(2)] by (simp_all add: request_of_def)
  then show "res = Inr d" using assms(4) by (auto simp: client_NatLook_def call reply_verdict_def)
qed

lemma natlook_reachable:
  "link_reachable np pl allow c n l \<Longrightarrow> client_NatLook np pl allow c f prt src dst l = (res, l') \<Longrightarrow> link_reachable np pl allow c (Suc n) l'"
  by (auto simp: client_NatLook_def split: prod.splits sum.splits option.splits intro: link_reachable.called)

text \<open>The client of the helper is such a helper; it is prompt while it is connected, allowed and has nothing outstanding.\<close>

definition in_step :: "(Peer \<Rightarrow> bool) option \<Rightarrow> nat \<Rightarrow> 'p link \<Rightarrow> bool" where
  "in_step allow c l \<longleftrightarrow> ln_waiting l = [] \<and>
     (\<exists>st. hs_conns (ln_server l) c = Some st \<and> (case allow of Some f \<Rightarrow> f (cs_peer st) | None \<Rightarrow> True))"

interpretation client: prompt_helper "helper_look np pl allow c" "link_reachable np pl allow c" "recorded np pl" "in_step allow c"
  for np pl allow c
proof unfold_locales
  show "link_reachable np pl allow c n l \<Longrightarrow> n + 1 < 2 ^ 64 \<Longrightarrow> helper_look np pl allow c k l = (Inr d, l') \<Longrightarrow> recorded np pl k d"
    for n l k d l' using looked_up(1) by (simp add: helper_look_def)
  show "link_reachable np pl allow c n l \<Longrightarrow> helper_look np pl allow c k l = (res, l') \<Longrightarrow> link_reachable np pl allow c (Suc n) l'"
    for n l k res l' by (auto simp: helper_look_def intro: natlook_reachable)
  show "in_step allow c l \<Longrightarrow> ic_fate k = InTime \<Longrightarrow> recorded np pl k d \<Longrightarrow> helper_look np pl allow c k l = (res, l') \<Longrightarrow> res = Inr d"
    for l k d res l' using looked_up_in_time(3) by (fastforce simp: helper_look_def in_step_def)
  show "in_step allow c l \<Longrightarrow> ic_fate k = InTime \<Longrightarrow> helper_look np pl allow c k l = (res, l') \<Longrightarrow> in_step allow c l'"
    for l k res l' using looked_up_in_time(1,2) unfolding helper_look_def in_step_def by metis
qed

text \<open>C15: A captured connection goes where the child sent it, or nowhere. Whatever becomes of the questions to the
  helper, each connection the forwarder dials for is dialed to the destination the packet filter recorded for that
  connection, bytes are exchanged only with what that dial returned, and every connection is closed exactly once;
  and when the helper answers in time, every connection with a recorded destination is dialed.\<close>

theorem captured_goes_where_it_was_sent:
  assumes "link_reachable np pl allow c n l" and "n + length ks < 2 ^ 64"
    and "fwd_Run (helper_look np pl allow c) (Some ln) dial ks l = (evs, l')"
  shows "(\<forall>i d. Dialed i d \<in> set evs \<longrightarrow> (\<exists>k \<in> set ks. ic_id k = i \<and> recorded np pl k d)) \<and>
    (\<forall>i r. Piped i r \<in> set evs \<longrightarrow> (\<exists>d. Dialed i d \<in> set evs \<and> dial d = Inr r)) \<and>
    List.map_filter closed_id evs = map ic_id ks \<and>
    (in_step allow c l \<and> (\<forall>k \<in> set ks. ic_fate k = InTime) \<longrightarrow>
       (\<forall>k \<in> set ks. \<forall>d. recorded np pl k d \<longrightarrow> Dialed (ic_id k) d \<in> set evs))"
  using client.run_sound[OF assms] client.run_complete[OF _ assms(3)] by blast

theorem captured_goes_where_it_was_sent_witness:
  "Dialed 7 ''10.0.0.5:5432'' \<in> set (fst (fwd_Run (helper_look example_netparse example_platform (Some AllowAdmin) 1) (Some 15300)
      (\<lambda>d. Inr d) [\<lparr>ic_id = 7, ic_src = ''127.0.0.1:50000'', ic_dst = ''10.0.0.5:5432'', ic_fate = InTime\<rparr>] (demo_link ())))"
proof -
  let ?k = "\<lparr>ic_id = 7, ic_src = ''127.0.0.1:50000'', ic_dst = ''10.0.0.5:5432'', ic_fate = InTime\<rparr>"
  have "link_reachable example_netparse example_platform (Some AllowAdmin) 1 0 (demo_link ())"
    unfolding demo_link_def by (rule link_reachable.fresh)
  from captured_goes_where_it_was_sent[OF this _ surjective_pairing, of "[?k]" 15300 Inr]
  show ?thesis
    by (auto simp: in_step_def demo_link_def two_clients_def put_conn_def new_conn_def example_peer_def AllowAdmin_def AdminGID_def
        recorded_def example_netparse_def example_platform_def)
qed

text \<open>
  One answer that comes after its deadline ends the capture for good: every later connection is closed unserved,
  although the helper finds each destination.
\<close>

lemma one_late_answer_ends_capture:
  assumes "link_reachable np pl allow c n l" and "n + length ks < 2 ^ 64" and "ln_waiting l \<noteq> []"
    and "fwd_Run (helper_look np pl allow c) (Some ln) dial ks l = (evs, l')"
  shows "evs = map (ClosedConn \<circ> ic_id) ks"
  using assms
proof (induction ks arbitrary: n l evs)
  case (Cons k ks)
  obtain res l1 where r: "helper_look np pl allow c k l = (res, l1)" by fastforce
  note r' = r[unfolded helper_look_def]
  have n: "n + 1 < 2 ^ 64" using Cons.prems(2) by simp
  obtain e where e: "res = Inl e" using looked_up(2)[OF Cons.prems(1) n] r' Cons.prems(3) by (cases res) auto
  have "ln_waiting l1 \<noteq> []"
    using r' late_reply_desynchronises[OF Cons.prems(1) n Cons.prems(3)]
    by (auto simp: client_NatLook_def split: prod.splits sum.splits option.splits)
  then show ?case using Cons.IH[OF natlook_reachable[OF Cons.prems(1) r']] Cons.prems(2,4) by (auto simp: fwd_Run_Cons r e split: prod.splits)
qed (simp add: fwd_Run_Nil)

section \<open>No listener is left\<close>

lemma capturer_leaks_no_listener:
  assumes "cap_ln k = None"
  shows "cap_Start np pl allow c listen f cidrs k = (Some e, k') \<Longrightarrow> cap_open k' = cap_open k \<and> cap_ln k' = None"
    and "cap_Start np pl allow c listen f cidrs k = (None, k') \<Longrightarrow>
      cap_open (snd (cap_Close np pl allow c f' (k'\<lparr>cap_link := l\<rparr>))) = cap_open k \<and>
      RedirectPort (snd (cap_Close np pl allow c f' (k'\<lparr>cap_link := l\<rparr>))) = 0"
  using assms by (auto simp: cap_Start_def cap_Close_def RedirectPort_def split: sum.splits prod.splits option.splits)
end
