(* ===== verification/HelperDaemon.thy ===== *)
theory HelperDaemon
  imports DarwinPlatform HelperInstall
begin

text \<open>
  The helper as a process: \<^verbatim>\<open>cmd/tetherd-helper/main.go\<close> and \<^verbatim>\<open>internal/helper/activation.go\<close>. The first
  part is the lock that decides which of several helpers sweeps the machine when it starts: the steps of
  \<^verbatim>\<open>takeSweepLock\<close>, of any number of processes, interleave (\<open>helper_step\<close>). The second is the listener launchd hands
  over, with the descriptors it leaves open, and the third the daemon's run and its exit code.
\<close>

section \<open>The lock\<close>

text \<open>
  \<^verbatim>\<open>flock(2)\<close> on one file, by the process that holds a lock: an exclusive one is granted when nobody else holds
  any, a shared one when nobody else holds an exclusive one, and a lock the caller has is replaced.
\<close>

datatype flock = LockSh | LockEx

type_synonym locks = "(nat, flock) gomap"

definition flock_ok :: "nat \<Rightarrow> flock \<Rightarrow> locks \<Rightarrow> bool" where
  "flock_ok p k t = list_all (\<lambda>(q, h). q = p \<or> (k = LockSh \<and> h = LockSh)) t"

definition Flock :: "nat \<Rightarrow> flock \<Rightarrow> locks \<Rightarrow> locks option" where
  "Flock p k t = (if flock_ok p k t then Some (mput p k t) else None)"

text \<open>
  The two calls of \<^verbatim>\<open>takeSweepLock\<close>. A call can also fail for another reason (\<open>fault\<close>). The second one waits
  only when the first succeeded, and then the lock is the caller's own.
\<close>

definition probe_lock :: "bool \<Rightarrow> nat \<Rightarrow> locks \<Rightarrow> locks \<times> bool" where
  "probe_lock fault p t =
     (if fault then (t, False)
      else case Flock p LockEx t of Some t' \<Rightarrow> (t', True) | None \<Rightarrow> (t, False))"

definition keep_lock :: "bool \<Rightarrow> nat \<Rightarrow> bool \<Rightarrow> locks \<Rightarrow> locks \<times> bool option" where
  "keep_lock fault p maySweep t =
     (case (if fault then None else Flock p LockSh t) of
        Some t' \<Rightarrow> (t', Some maySweep)
      | None \<Rightarrow> if maySweep then (mdel p t, None) else (t, Some False))"

text \<open>Without interleaving; \<open>None\<close> is the error. The faults are of the open and the two calls.\<close>

definition takeSweepLock :: "bool \<Rightarrow> bool \<Rightarrow> bool \<Rightarrow> nat \<Rightarrow> locks \<Rightarrow> locks \<times> bool option" where
  "takeSweepLock no_open f1 f2 p t =
     (if no_open then (t, None) else (case probe_lock f1 p t of (t1, may) \<Rightarrow> keep_lock f2 p may t1))"

text \<open>\<^verbatim>\<open>main\<close>: an error of the lock means to sweep anyway.\<close>

definition sweeps :: "bool option \<Rightarrow> bool" where
  "sweeps r = (case r of None \<Rightarrow> True | Some may \<Rightarrow> may)"

section \<open>Several helpers\<close>

datatype stage = Starting | Probed bool | Decided bool | Serving

text \<open>
  The helpers that run, where each is in its start, which of them hold a client's session, and the sessions that a
  sweep took down.
\<close>

record helpers =
  hp_locks :: locks
  hp_procs :: "(nat, stage) gomap"
  hp_sessions :: "nat list"
  hp_lost :: "(nat \<times> nat) list" \<comment> \<open>who swept, and whose session it was\<close>

datatype action =
    Launch nat
  | OpenFails nat
  | Probe bool nat
  | Keep bool nat
  | Sweep nat
  | Skip nat
  | Connect nat
  | Disconnect nat
  | Die nat

definition goto_stage :: "nat \<Rightarrow> stage \<Rightarrow> helpers \<Rightarrow> helpers" where
  "goto_stage p g s = s\<lparr>hp_procs := mput p g (hp_procs s)\<rparr>"

fun helper_step :: "action \<Rightarrow> helpers \<Rightarrow> helpers option" where
  "helper_step (Launch p) s = (if mget (hp_procs s) p = None then Some (goto_stage p Starting s) else None)"
| "helper_step (OpenFails p) s =
     (if mget (hp_procs s) p = Some Starting then Some (goto_stage p (Decided (sweeps None)) s) else None)"
| "helper_step (Probe fault p) s =
     (if mget (hp_procs s) p = Some Starting then
        (case probe_lock fault p (hp_locks s) of (t, may) \<Rightarrow> Some (goto_stage p (Probed may) (s\<lparr>hp_locks := t\<rparr>)))
      else None)"
| "helper_step (Keep fault p) s =
     (case mget (hp_procs s) p of
        Some (Probed may) \<Rightarrow>
          (case keep_lock fault p may (hp_locks s) of (t, r) \<Rightarrow> Some (goto_stage p (Decided (sweeps r)) (s\<lparr>hp_locks := t\<rparr>)))
      | _ \<Rightarrow> None)"
| "helper_step (Sweep p) s =
     (if mget (hp_procs s) p = Some (Decided True) then
        Some (goto_stage p Serving (s\<lparr>hp_sessions := [], hp_lost := map (Pair p) (hp_sessions s) @ hp_lost s\<rparr>))
      else None)"
| "helper_step (Skip p) s = (if mget (hp_procs s) p = Some (Decided False) then Some (goto_stage p Serving s) else None)"
| "helper_step (Connect p) s =
     (if mget (hp_procs s) p = Some Serving \<and> p \<notin> set (hp_sessions s) then Some (s\<lparr>hp_sessions := p # hp_sessions s\<rparr>) else None)"
| "helper_step (Disconnect p) s = Some (s\<lparr>hp_sessions := removeAll p (hp_sessions s)\<rparr>)"
| "helper_step (Die p) s =
     Some (s\<lparr>hp_locks := mdel p (hp_locks s), hp_procs := mdel p (hp_procs s), hp_sessions := removeAll p (hp_sessions s)\<rparr>)"

fun helper_run :: "action list \<Rightarrow> helpers \<Rightarrow> helpers option" where
  "helper_run [] s = Some s"
| "helper_run (a # as) s = (case helper_step a s of None \<Rightarrow> None | Some s' \<Rightarrow> helper_run as s')"

definition no_helpers :: helpers where
  "no_helpers = \<lparr>hp_locks = [], hp_procs = [], hp_sessions = [], hp_lost = []\<rparr>"

section \<open>Who may sweep\<close>

lemma Flock_others: "Flock p k t = Some t' \<Longrightarrow> q \<noteq> p \<Longrightarrow> mget t' q = mget t q"
  by (auto simp: Flock_def gomap split: if_splits)

lemma Flock_held: "mget t q = Some h \<Longrightarrow> q \<noteq> p \<Longrightarrow> Flock p LockEx t = None"
  by (auto simp: Flock_def flock_ok_def list_all_iff dest: map_of_SomeD)

text \<open>
  A process that holds its shared lock has come to its decision, one that holds the exclusive lock has just probed,
  and whoever holds a lock runs.
\<close>

definition locks_inv :: "helpers \<Rightarrow> bool" where
  "locks_inv s \<longleftrightarrow>
     (\<forall>p. mget (hp_locks s) p = Some LockSh \<longrightarrow> (\<exists>d. mget (hp_procs s) p = Some (Decided d)) \<or> mget (hp_procs s) p = Some Serving) \<and>
     (\<forall>p. mget (hp_locks s) p = Some LockEx \<longrightarrow> mget (hp_procs s) p = Some (Probed True))"

lemma probe_lock_cases:
  assumes "probe_lock fault p t = (t', may)"
  shows "q \<noteq> p \<Longrightarrow> mget t' q = mget t q" and "may \<Longrightarrow> (\<forall>q h. q \<noteq> p \<longrightarrow> mget t q \<noteq> Some h) \<and> mget t' p = Some LockEx" and "\<not> may \<Longrightarrow> t' = t"
  using assms Flock_others[of p LockEx t] Flock_held[of t]
  by (fastforce simp: probe_lock_def Flock_def split: if_splits option.splits)+

lemma keep_lock_cases:
  assumes "keep_lock fault p may t = (t', r)"
  shows "q \<noteq> p \<Longrightarrow> mget t' q = mget t q" and "\<not> may \<Longrightarrow> r = Some False"
    and "mget t' p = Some LockSh \<or> mget t' p = None \<or> (\<not> may \<and> t' = t)"
  using assms by (auto simp: keep_lock_def Flock_def split: if_splits option.splits)

lemma set_mput: "set (mput k v m) \<subseteq> insert (k, v) (set m)"
  by (induction m) (auto simp: mput_def)

text \<open>The second call never waits: after a probe that succeeded the caller is alone.\<close>

lemma keeps_at_once:
  assumes "probe_lock fault p t = (t', True)" shows "Flock p LockSh t' \<noteq> None"
proof -
  have "t' = mput p LockEx t" "flock_ok p LockEx t" using assms by (auto simp: probe_lock_def Flock_def split: if_splits option.splits)
  then have "set t' \<subseteq> insert (p, LockEx) (set t)" "\<And>q h. (q, h) \<in> set t \<Longrightarrow> q = p"
    using set_mput[of p LockEx t] by (auto simp: flock_ok_def list_all_iff)
  then show ?thesis by (auto simp: Flock_def flock_ok_def list_all_iff)
qed

lemma locks_inv_step:
  assumes "helper_step a s = Some s'" and "locks_inv s" shows "locks_inv s'"
  using assms
proof (cases a)
  case (Probe fault p)
  then obtain t may where t: "probe_lock fault p (hp_locks s) = (t, may)" "mget (hp_procs s) p = Some Starting"
    "s' = goto_stage p (Probed may) (s\<lparr>hp_locks := t\<rparr>)" using assms(1) by (auto split: if_splits prod.splits)
  then have "mget (hp_locks s) p = None" using assms(2) by (cases "mget (hp_locks s) p") (auto simp: locks_inv_def, metis flock.exhaust stage.distinct option.inject)
  then show ?thesis using t assms(2) probe_lock_cases[OF t(1)] by (cases may) (auto simp: locks_inv_def goto_stage_def)
next
  case (Keep fault p)
  then obtain t may r where t: "keep_lock fault p may (hp_locks s) = (t, r)" "mget (hp_procs s) p = Some (Probed may)"
    "s' = goto_stage p (Decided (sweeps r)) (s\<lparr>hp_locks := t\<rparr>)" using assms(1) by (auto split: option.splits stage.splits prod.splits)
  then show ?thesis using assms(2) keep_lock_cases[OF t(1)] by (auto simp: locks_inv_def goto_stage_def)
qed (auto simp: locks_inv_def goto_stage_def split: if_splits)

lemma locks_inv_run: "helper_run as s = Some s' \<Longrightarrow> locks_inv s \<Longrightarrow> locks_inv s'"
  by (induction as arbitrary: s) (auto split: option.splits dest: locks_inv_step)

lemma locks_inv_start: "locks_inv no_helpers"
  by (simp add: locks_inv_def no_helpers_def)
lemma spared_step:
  assumes "helper_step a s = Some s'" and "locks_inv s" and "mget (hp_locks s) q = Some LockSh" and "p \<noteq> q"
    and "mget (hp_procs s) p \<noteq> Some (Probed True)" and "mget (hp_procs s) p \<noteq> Some (Decided True)" and "a \<noteq> Die q" and "a \<noteq> OpenFails p"
  shows "mget (hp_locks s') q = Some LockSh \<and> mget (hp_procs s') p \<noteq> Some (Probed True) \<and> mget (hp_procs s') p \<noteq> Some (Decided True) \<and>
    a \<noteq> Sweep p"
proof -
  have q: "mget (hp_procs s) q \<noteq> None" "mget (hp_procs s) q \<noteq> Some Starting" "\<And>b. mget (hp_procs s) q \<noteq> Some (Probed b)"
    using assms(2,3) by (auto simp: locks_inv_def)
  show ?thesis
  proof (cases a)
    case (Probe fault p')
    then obtain t may where t: "probe_lock fault p' (hp_locks s) = (t, may)" "mget (hp_procs s) p' = Some Starting"
      "s' = goto_stage p' (Probed may) (s\<lparr>hp_locks := t\<rparr>)" using assms(1) by (auto split: if_splits prod.splits)
    have "p' \<noteq> q" using q(2) t(2) by auto
    moreover have "\<not> may" using probe_lock_cases(2)[OF t(1)] assms(3) \<open>p' \<noteq> q\<close> by auto
    ultimately show ?thesis using t(3) probe_lock_cases(3)[OF t(1)] assms Probe by (auto simp: goto_stage_def)
  next
    case (Keep fault p')
    then obtain t may r where t: "keep_lock fault p' may (hp_locks s) = (t, r)" "mget (hp_procs s) p' = Some (Probed may)"
      "s' = goto_stage p' (Decided (sweeps r)) (s\<lparr>hp_locks := t\<rparr>)" using assms(1) by (auto split: option.splits stage.splits prod.splits)
    have "p' \<noteq> q" using q(3) t(2) by auto
    then show ?thesis using t assms(3-6) keep_lock_cases[OF t(1)] Keep by (auto simp: goto_stage_def sweeps_def)
  qed (use assms q in \<open>auto simp: goto_stage_def split: if_splits\<close>)
qed

lemma spared_run:
  assumes "helper_run as s = Some s'" and "locks_inv s" and "mget (hp_locks s) q = Some LockSh" and "p \<noteq> q"
    and "mget (hp_procs s) p \<noteq> Some (Probed True)" and "mget (hp_procs s) p \<noteq> Some (Decided True)" and "Die q \<notin> set as" and "OpenFails p \<notin> set as"
  shows "Sweep p \<notin> set as"
  using assms
proof (induction as arbitrary: s)
  case (Cons a as)
  then obtain s1 where s1: "helper_step a s = Some s1" "helper_run as s1 = Some s'" by (auto split: option.splits)
  have "mget (hp_locks s1) q = Some LockSh \<and> mget (hp_procs s1) p \<noteq> Some (Probed True) \<and> mget (hp_procs s1) p \<noteq> Some (Decided True) \<and>
    a \<noteq> Sweep p"
    by (rule spared_step[OF s1(1) Cons.prems(2-6)]) (use Cons.prems in auto)
  then show ?case using Cons.IH[OF s1(2) locks_inv_step[OF s1(1) Cons.prems(2)]] Cons.prems by auto
qed simp

text \<open>C20: A helper that starts while another one serves does not sweep its session away, and a helper that was killed
  is swept up after. However the starts of any number of helpers interleave: once a helper holds its shared lock, no
  helper launched after that sweeps for as long as the first one lives (unless the lock file cannot be opened, when the code
  sweeps anyway); and when no helper is left, however the last ones ended, the next one to start does sweep.\<close>

theorem sweep_spares_the_serving_helper:
  assumes "helper_run before no_helpers = Some s"
  shows "(mget (hp_locks s) q = Some LockSh \<and> mget (hp_procs s) p = None \<and> helper_run as s = Some s' \<and>
      Die q \<notin> set as \<and> OpenFails p \<notin> set as \<longrightarrow> Sweep p \<notin> set as) \<and>
    ((\<forall>r. mget (hp_procs s) r = None) \<longrightarrow> helper_run [Launch p, Probe False p, Keep False p, Sweep p] s \<noteq> None)"
proof (intro conjI impI)
  have inv: "locks_inv s" using locks_inv_run[OF assms locks_inv_start] .
  {
    assume h: "mget (hp_locks s) q = Some LockSh \<and> mget (hp_procs s) p = None \<and> helper_run as s = Some s' \<and> Die q \<notin> set as \<and> OpenFails p \<notin> set as"
    then have "p \<noteq> q" using inv by (auto simp: locks_inv_def)
    then show "Sweep p \<notin> set as" using spared_run[of as s s' q p] inv h by simp
  }
  assume none: "\<forall>r. mget (hp_procs s) r = None"
  have "mget (hp_locks s) r = None" for r
    using inv none by (cases "mget (hp_locks s) r") (auto simp: locks_inv_def, metis flock.exhaust option.distinct(1))
  then have "hp_locks s = []" by (cases "hp_locks s") (auto split: if_splits, metis option.distinct(1))
  moreover have "mput p k [] = [(p, k)]" for k by (simp add: mput_def)
  ultimately show "helper_run [Launch p, Probe False p, Keep False p, Sweep p] s \<noteq> None"
    using none by (simp add: goto_stage_def probe_lock_def keep_lock_def Flock_def flock_ok_def sweeps_def)
qed

theorem sweep_spares_the_serving_helper_witness:
  "let as = [Launch 2, Probe False 2, Keep False 2, Skip 2, Connect 2];
       s = the (helper_run [Launch 1, Probe False 1, Keep False 1, Sweep 1, Connect 1] no_helpers)
   in helper_run as s \<noteq> None \<and> Sweep 2 \<notin> set as"
proof -
  let ?before = "[Launch 1, Probe False 1, Keep False 1, Sweep 1, Connect 1]"
  let ?as = "[Launch 2, Probe False 2, Keep False 2, Skip 2, Connect 2]"
  have b: "helper_run ?before no_helpers = Some (the (helper_run ?before no_helpers))" by code_simp
  have m: "mget (hp_locks (the (helper_run ?before no_helpers))) 1 = Some LockSh"
    "mget (hp_procs (the (helper_run ?before no_helpers))) 2 = None" by code_simp+
  have a: "helper_run ?as (the (helper_run ?before no_helpers)) \<noteq> None" by code_simp
  then obtain s' where s': "helper_run ?as (the (helper_run ?before no_helpers)) = Some s'" by blast
  show ?thesis using sweep_spares_the_serving_helper[OF b, of 1 2 ?as s'] m s' by (simp add: Let_def del: helper_run.simps)
qed

text \<open>
  Two starts at once are not covered. The sweep comes after the lock was made shared, so a helper that started in
  between has its lock and its session when the sweep takes it down; and a helper that probed during the other's
  probe gets no lock at all, serves without one, and is swept by that helper, or by any later one.
\<close>

lemma late_sweep_takes_a_session:
  "map_option hp_lost (helper_run [Launch 1, Probe False 1, Keep False 1, Launch 2, Probe False 2, Keep False 2, Skip 2, Connect 2, Sweep 1]
     no_helpers) = Some [(1, 2)]"
  by code_simp

lemma unlocked_helper_is_swept:
  "map_option hp_lost (helper_run [Launch 1, Launch 2, Probe False 1, Probe False 2, Keep False 2, Skip 2, Keep False 1, Sweep 1, Connect 2, Die 1,
     Launch 3, Probe False 3, Keep False 3, Sweep 3] no_helpers) = Some [(3, 2)]"
  by code_simp
section \<open>The inherited listener\<close>

text \<open>What launchd answers for the socket's name: that it holds none for this process, an error, or descriptors.\<close>

datatype activation = NoInheritedSocket | ActivationError string | Handed "nat list"

datatype activation_error = Activation string | NotAListener nat string | CloseFailed string

text \<open>A new descriptor is the lowest number that is free.\<close>

definition lowest_free :: "nat list \<Rightarrow> nat" where
  "lowest_free fds = hd (filter (\<lambda>n. n \<notin> set fds) [0..<Suc (length fds)])"

text \<open>
  \<open>listens\<close> is whether a descriptor is a listening socket, \<open>close_err\<close> the error of closing the first one, \<open>fds\<close> the
  open descriptors. \<^verbatim>\<open>net.FileListener\<close> works on a copy of its own; the one that was handed over is closed after
  it, and so are all the others.
\<close>

definition InheritedListener ::
  "activation \<Rightarrow> string \<Rightarrow> (nat \<Rightarrow> bool) \<Rightarrow> string option \<Rightarrow> nat list \<Rightarrow> (activation_error + nat option) \<times> nat list" where
  "InheritedListener act name listens close_err fds =
     (case act of
        NoInheritedSocket \<Rightarrow> (Inr None, fds)
      | ActivationError e \<Rightarrow> (Inl (Activation e), fds)
      | Handed [] \<Rightarrow> (Inr None, fds)
      | Handed (fd # rest) \<Rightarrow>
          let ln = lowest_free fds;
              fds1 = (if listens fd then ln # fds else fds);
              fds2 = foldl (\<lambda>open x. removeAll x open) (removeAll fd fds1) rest
          in if \<not> listens fd then (Inl (NotAListener fd name), fds2)
             else case close_err of
               Some e \<Rightarrow> (Inl (CloseFailed name), removeAll ln fds2)
             | None \<Rightarrow> (Inr (Some ln), fds2))"

section \<open>The daemon\<close>

definition DefaultIdleTimeout :: int where "DefaultIdleTimeout = 30 * 1000000000"

datatype serving = ServeInherited nat int | ListenAndServeOn string

record daemon =
  dm_inherited :: "nat option"
  dm_socket :: string
  dm_idle :: int

text \<open>\<open>serve\<close> is the server's life, from the platform's state to the one it leaves and its error.\<close>

definition daemon_run ::
  "darwin_env \<Rightarrow> (serving \<Rightarrow> darwin \<Rightarrow> darwin \<times> string option) \<Rightarrow> daemon \<Rightarrow> darwin \<Rightarrow> (nat \<times> serving) \<times> darwin" where
  "daemon_run env serve d p =
     (let how = (case dm_inherited d of Some ln \<Rightarrow> ServeInherited ln (dm_idle d) | None \<Rightarrow> ListenAndServeOn (dm_socket d)) in
      case serve how p of
        (p1, err) \<Rightarrow> ((if err \<noteq> None then 1 else 0, how), fst (Shutdown env p1)))"

text \<open>
  \<^verbatim>\<open>ListenAndServe\<close>: what it does to the socket's path, in order, around the serving.
\<close>

datatype sock_event = RemoveSocket | BindSocket | ChmodSocket nat | ServeOnSocket | CloseSocket

definition ListenAndServe :: "string option \<Rightarrow> string option \<Rightarrow> string option \<Rightarrow> sock_event list \<times> string option" where
  "ListenAndServe listen_err chmod_err served =
     (case listen_err of
        Some e \<Rightarrow> ([RemoveSocket], Some e)
      | None \<Rightarrow>
          (case chmod_err of
             Some e \<Rightarrow> ([RemoveSocket, BindSocket, ChmodSocket socketMode, CloseSocket], Some e)
           | None \<Rightarrow> ([RemoveSocket, BindSocket, ChmodSocket socketMode, ServeOnSocket, RemoveSocket], served)))"

section \<open>The command\<close>

text \<open>The flags that were given, sorted as \<^verbatim>\<open>flag.Visit\<close> visits them, their values, and the arguments.\<close>

record helper_flags =
  hf_given :: "string list"
  hf_socket :: string
  hf_execSrc :: string
  hf_installDir :: string
  hf_version :: bool
  hf_args :: "string list"

definition refuseUnusableFlags :: "string list \<Rightarrow> string list \<Rightarrow> string list" where
  "refuseUnusableFlags usable given = map ((@) ''--'') (filter (\<lambda>f. f \<notin> set usable) given)"

definition install_paths :: "string \<Rightarrow> string \<Rightarrow> Paths option" where
  "install_paths socket installDir =
     (if is_abs installDir then Some (DefaultPaths\<lparr>pa_InstallDir := installDir, pa_Socket := socket\<rparr>) else None)"

datatype helper_end =
    PrintedVersion
  | Returned_ok
  | FatalNotMacOS
  | FatalNotRoot
  | FatalFlags "string list"
  | FatalNotAbsolute
  | FatalNoSelf string
  | FatalInstall install_error
  | FatalUninstall install_error
  | FatalUnknown string
  | FatalActivation activation_error
  | FatalGroup install_error
  | FatalExec install_error
  | Exit nat serving

text \<open>
  What the process meets: the system and its user, its own path before and after symbolic links, launchd's answer,
  the answer of \<^verbatim>\<open>takeSweepLock\<close>, the platform's tools, and the server's life.
\<close>

record 's helper_world =
  hw_darwin :: bool
  hw_euid :: nat
  hw_self :: "string + path"
  hw_resolved :: "string + path"
  hw_sys :: "'s sys"
  hw_activation :: activation
  hw_listens :: "nat \<Rightarrow> bool"
  hw_close_err :: "string option"
  hw_lock :: "bool option"
  hw_env :: darwin_env
  hw_serve :: "serving \<Rightarrow> darwin \<Rightarrow> darwin \<times> string option"

record 's helper_state =
  hst_machine :: "'s machine"
  hst_fds :: "nat list"
  hst_platform :: darwin

definition doInstall :: "'s helper_world \<Rightarrow> Paths \<Rightarrow> 's helper_state \<Rightarrow> helper_end \<times> 's helper_state" where
  "doInstall w p s =
     (case hw_self w of
        Inl e \<Rightarrow> (FatalNoSelf e, s)
      | Inr _ \<Rightarrow>
          (case hw_resolved w of
             Inl e \<Rightarrow> (FatalNoSelf e, s)
           | Inr self \<Rightarrow>
               (case Install p (hw_sys w) (butlast self) (hst_machine s) of
                  (Inl e, m) \<Rightarrow> (FatalInstall e, s\<lparr>hst_machine := m\<rparr>)
                | (Inr _, m) \<Rightarrow> (Returned_ok, s\<lparr>hst_machine := m\<rparr>))))"

definition doUninstall :: "'s helper_world \<Rightarrow> Paths \<Rightarrow> 's helper_state \<Rightarrow> helper_end \<times> 's helper_state" where
  "doUninstall w p s =
     (case Uninstall p (hw_sys w) (hst_machine s) of
        (Inl e, m) \<Rightarrow> (FatalUninstall e, s\<lparr>hst_machine := m\<rparr>)
      | (Inr _, m) \<Rightarrow> (Returned_ok, s\<lparr>hst_machine := m\<rparr>))"

text \<open>The daemon's part of \<^verbatim>\<open>main\<close>; its install directory is an absolute path.\<close>

definition daemon_main :: "'s helper_world \<Rightarrow> helper_flags \<Rightarrow> 's helper_state \<Rightarrow> helper_end \<times> 's helper_state" where
  "daemon_main w fl s =
     (case InheritedListener (hw_activation w) ActivationSocketName (hw_listens w) (hw_close_err w) (hst_fds s) of
        (Inl e, fds) \<Rightarrow> (FatalActivation e, s\<lparr>hst_fds := fds\<rparr>)
      | (Inr inherited, fds) \<Rightarrow>
          (case EnsureGroup (hw_sys w) GroupName (hst_machine s) of
             (Inl e, m) \<Rightarrow> (FatalGroup e, s\<lparr>hst_fds := fds, hst_machine := m\<rparr>)
           | (Inr gid, m) \<Rightarrow>
               let src = (if hf_execSrc fl = '''' then (case hw_self w of Inl _ \<Rightarrow> [ExecName] | Inr self \<Rightarrow> butlast self @ [ExecName])
                          else clean_path (hf_execSrc fl)) in
               (case InstallExec (hw_sys w) src (clean_path (hf_installDir fl)) gid m of
                  (Inl e, m') \<Rightarrow> (FatalExec e, s\<lparr>hst_fds := fds, hst_machine := m'\<rparr>)
                | (Inr _, m') \<Rightarrow>
                    let p = hst_platform s;
                        p1 = (if sweeps (hw_lock w) then fst (ClearLeftovers (hw_env w) p) else p)
                    in case daemon_run (hw_env w) (hw_serve w)
                              \<lparr>dm_inherited = inherited, dm_socket = hf_socket fl, dm_idle = DefaultIdleTimeout\<rparr> p1 of
                         ((code, how), p2) \<Rightarrow> (Exit code how, \<lparr>hst_machine = m', hst_fds = fds, hst_platform = p2\<rparr>))))"

definition helper_main :: "'s helper_world \<Rightarrow> helper_flags \<Rightarrow> 's helper_state \<Rightarrow> helper_end \<times> 's helper_state" where
  "helper_main w fl s =
     (if hf_version fl \<or> (hf_args fl \<noteq> [] \<and> hd (hf_args fl) = ''version'') then (PrintedVersion, s)
      else if \<not> hw_darwin w then (FatalNotMacOS, s)
      else if hw_euid w \<noteq> 0 then (FatalNotRoot, s)
      else
        let sub = (case hf_args fl of [] \<Rightarrow> '''' | a # _ \<Rightarrow> a) in
        if sub = ''install'' then
          (case refuseUnusableFlags [''socket'', ''install-dir''] (hf_given fl) of
             [] \<Rightarrow> (case install_paths (hf_socket fl) (hf_installDir fl) of None \<Rightarrow> (FatalNotAbsolute, s) | Some p \<Rightarrow> doInstall w p s)
           | bad \<Rightarrow> (FatalFlags bad, s))
        else if sub = ''uninstall'' then
          (case refuseUnusableFlags [''install-dir''] (hf_given fl) of
             [] \<Rightarrow> (case install_paths (hf_socket fl) (hf_installDir fl) of None \<Rightarrow> (FatalNotAbsolute, s) | Some p \<Rightarrow> doUninstall w p s)
           | bad \<Rightarrow> (FatalFlags bad, s))
        else if sub = '''' then daemon_main w fl s
        else (FatalUnknown sub, s))"
section \<open>What the process leaves open, and how it ends\<close>

lemma lowest_free_new: "lowest_free fds \<notin> set fds"
proof -
  let ?free = "filter (\<lambda>n. n \<notin> set fds) [0..<Suc (length fds)]"
  have "\<not> {0..<Suc (length fds)} \<subseteq> set fds"
    using card_mono[of "set fds" "{0..<Suc (length fds)}"] card_length[of fds] by auto
  then have "?free \<noteq> []" by (auto simp: filter_empty_conv simp del: upt_Suc)
  then have "hd ?free \<in> set ?free" by (rule hd_in_set)
  then show ?thesis by (auto simp: lowest_free_def simp del: upt_Suc)
qed

lemma close_all: "set (foldl (\<lambda>open x. removeAll x open) open xs) = set open - set xs"
  by (induction xs arbitrary: "open") auto

text \<open>
  Whatever launchd hands over, the helper keeps one descriptor of it, a new one that listens, or none: everything
  that was handed over is closed, and nothing else.
\<close>

lemma inherited_listener_leaks_nothing:
  assumes "InheritedListener (Handed handed) name listens close_err fds = (r, fds')" and "handed \<noteq> []" and "set handed \<subseteq> set fds"
  shows "case r of
      Inr (Some ln) \<Rightarrow> ln \<notin> set fds \<and> listens (hd handed) \<and> set fds' = insert ln (set fds - set handed)
    | Inr None \<Rightarrow> False
    | Inl _ \<Rightarrow> set fds' = set fds - set handed"
proof -
  obtain fd rest where h: "handed = fd # rest" using assms(2) by (cases handed) auto
  have "lowest_free fds \<notin> set handed" using lowest_free_new assms(3) by auto
  then show ?thesis
    using assms(1) lowest_free_new[of fds] by (auto simp: InheritedListener_def h Let_def close_all split: if_splits option.splits)
qed

text \<open>
  The daemon's contract with launchd: it binds the socket itself exactly when launchd holds none, it sweeps before it
  serves exactly when the lock allows it (or failed), the platform is shut down after every ending, and the exit code
  is 0 unless serving failed, so that an idle exit is not restarted.
\<close>

lemma daemon_contract:
  assumes "daemon_main w fl s = (Exit code how, s')"
  shows "(case how of
        ListenAndServeOn path \<Rightarrow> path = hf_socket fl \<and> (hw_activation w = NoInheritedSocket \<or> hw_activation w = Handed [])
      | ServeInherited ln idle \<Rightarrow> idle = DefaultIdleTimeout \<and>
          InheritedListener (hw_activation w) ActivationSocketName (hw_listens w) (hw_close_err w) (hst_fds s) = (Inr (Some ln), hst_fds s')) \<and>
    (let p = (if sweeps (hw_lock w) then fst (ClearLeftovers (hw_env w) (hst_platform s)) else hst_platform s);
         (p1, err) = hw_serve w how p
     in hst_platform s' = fst (Shutdown (hw_env w) p1) \<and> (code = 0 \<longleftrightarrow> err = None))"
proof -
  have none: "act = NoInheritedSocket \<or> act = Handed []" if "InheritedListener act name listens ce fds = (Inr None, fds')" for act name listens ce fds fds'
    using that by (auto simp: InheritedListener_def Let_def split: activation.splits list.splits if_splits option.splits)
  show ?thesis
    using assms unfolding daemon_main_def daemon_run_def
    by (auto simp: Let_def dest: none split: prod.splits sum.splits option.splits if_splits)
qed

lemma only_root_on_macOS:
  assumes "\<not> hw_darwin w \<or> hw_euid w \<noteq> 0" shows "snd (helper_main w fl s) = s"
  using assms by (simp add: helper_main_def)

text \<open>A flag the subcommand cannot act on is refused before anything is done.\<close>

lemma unusable_flag_refused:
  assumes "hf_args fl = [''uninstall'']" and "\<not> hf_version fl" and "hw_darwin w" and "hw_euid w = 0" and "f \<in> set (hf_given fl)" and "f \<noteq> ''install-dir''"
  shows "\<exists>bad. helper_main w fl s = (FatalFlags bad, s) \<and> ''--'' @ f \<in> set bad"
proof -
  have "''--'' @ f \<in> set (refuseUnusableFlags [''install-dir''] (hf_given fl))" using assms(5,6) by (auto simp: refuseUnusableFlags_def)
  then show ?thesis using assms(1-4) by (auto simp: helper_main_def split: list.splits)
qed

end
