(* ===== verification/Spec2Isabelle.thy ===== *)
theory Spec2Isabelle
  imports StealPath DnsProxy CliConfig DoctorRun Capture HelperDaemon
begin

text \<open>
  tetherd lets a developer's process on a laptop take part in a task running on ECS. Its parts are:
  an \<^emph>\<open>agent\<close> in the task (\<^verbatim>\<open>internal/agent\<close>) that proxies the application's HTTP port and
  hands matching requests to attached laptops; a \<^emph>\<open>session\<close> protocol between the CLI and the agent
  (\<^verbatim>\<open>internal/session\<close>, \<^verbatim>\<open>internal/proto\<close>); the \<^emph>\<open>CLI\<close> (\<^verbatim>\<open>internal/cli\<close>,
  \<^verbatim>\<open>internal/env\<close>) that discovers tasks (\<^verbatim>\<open>internal/provider/ecs\<close>), attaches to them,
  decides what to capture, starts the developer's process in the task's environment and serves stolen requests
  locally; and a privileged \<^emph>\<open>helper\<close> (\<^verbatim>\<open>internal/helper\<close>, \<^verbatim>\<open>cmd/tetherd-helper\<close>) that installs packet
  filter rules, resolver files and host routes on the laptop. This development models them one theory per component
  and proves what makes them correct.

  \<^bold>\<open>Shared theories.\<close>
  \<^item> \<open>Prelude\<close>: Go maps as association lists (\<open>mget\<close>, \<open>mput\<close>, \<open>mdel\<close>), the string functions the
    sources use, decimal text.
  \<^item> \<open>Proto\<close>: message types, tags and codes; a line of the wire is a value of the datatype \<open>line\<close>.
  \<^item> \<open>Http\<close>: headers with canonical keys, requests, responses and what \<^verbatim>\<open>ReverseProxy\<close> does to headers.
  \<^item> \<open>Netip\<close>, \<open>NetipText\<close>: IPv4 addresses as 32-bit words, prefixes, the set \<open>pset p\<close> a prefix stands for, and
    that their text is read back.

  \<^bold>\<open>The agent.\<close>
  \<^item> \<open>Session\<close> (\<^verbatim>\<open>session/server.go\<close>, \<^verbatim>\<open>session/client.go\<close>): \<open>Serve\<close> with its handshake, control
    loop and streams; \<open>Dial\<close>, and the client's end as a state machine (\<open>client_step\<close>). Locale
    \<open>session_handler\<close> is what \<open>Serve\<close> needs of its handler. Shown: both ends agree on the handshake, a
    resolved name arrives as the agent's resolver answered it, \<^verbatim>\<open>Closed\<close> runs once, the ping loop gives up
    exactly at \<^verbatim>\<open>MaxMissed\<close> silent pings, a client ends once.
  \<^item> \<open>Registry\<close> (\<^verbatim>\<open>agent/registry.go\<close>, \<^verbatim>\<open>agent.go\<close>, \<^verbatim>\<open>steal.go\<close>, \<^verbatim>\<open>config.go\<close>): attached sessions,
    attach and detach of any number of connections (\<open>agent_step\<close>), the match of a request. It interprets
    \<open>session_handler\<close>. Shown: a match is sound and complete, registered sessions belong to live connections, a
    read-only attach is invisible, a session leaves no trace.
  \<^item> \<open>L7Proxy\<close> (\<^verbatim>\<open>agent/proxy.go\<close>): routing one request, replay to the application, the reply of the laptop.
    Shown: when a replay happens and with what, which headers travel, which reply is taken.
  \<^item> \<open>AgentEnv\<close> (\<^verbatim>\<open>agent/environ.go\<close>, \<^verbatim>\<open>resolve.go\<close>): the application's environment from \<^verbatim>\<open>/proc\<close> and the
    answer to a resolve request. Shown: the environment is that of the oldest process of the container.

  \<^bold>\<open>The CLI.\<close>
  \<^item> \<open>CliOptions\<close>, \<open>CliConfig\<close>, \<open>ConfigFiles\<close>, \<open>PersonalFile\<close> (\<^verbatim>\<open>cli/root.go\<close>, \<^verbatim>\<open>cli/config.go\<close>,
    \<^verbatim>\<open>internal/config\<close>): options, commands and exit codes, both configuration files, and the personal file with
    its token under any number of concurrent runs (\<open>personal_step\<close>). Shown: flags beat files, the process's exit
    code, every run agrees on one token.
  \<^item> \<open>Discover\<close> (\<^verbatim>\<open>provider/ecs\<close>): which tasks are eligible, CIDRs and prefix lists, target group; AWS
    answers are parameters, the sort of \<^verbatim>\<open>sort.Slice\<close> is locale \<open>slice_sorter\<close>, whose sublocale gives
    \<open>task_lister\<close>.
  \<^item> \<open>Attach\<close>, \<open>SsmTransport\<close>, \<open>SessionSet\<close>, \<open>Status\<close> (\<^verbatim>\<open>cli/run.go\<close>, \<^verbatim>\<open>cli/deps.go\<close>,
    \<^verbatim>\<open>internal/transport\<close>, \<^verbatim>\<open>cli/sessionset.go\<close>, \<^verbatim>\<open>follow.go\<close>, \<^verbatim>\<open>status.go\<close>): from the options to sessions
    with the agents, the sessions and plugin processes of the SSM transport, the set of sessions as a refinement of
    a finite map, and the report of who is attached. Locales \<open>lists_tasks\<close> and \<open>task_lister\<close> are what they need of
    the list of tasks.
  \<^item> \<open>RemoteSet\<close> (\<^verbatim>\<open>cli/run.go\<close>): parsing and subtracting CIDRs, the captured set.
  \<^item> \<open>EnvMerge\<close>, \<open>ChildEnv\<close>, \<open>EnvPrint\<close> (\<^verbatim>\<open>internal/env\<close>, \<^verbatim>\<open>cli/run.go\<close>, \<^verbatim>\<open>cli/credproxy.go\<close>,
    \<^verbatim>\<open>cli/env.go\<close>): the child's environment and \<^verbatim>\<open>tetherd env\<close>. Shown: the child uses the task's role, secrets
    stay masked, printed values are read back by a shell and by a dotenv reader.
  \<^item> \<open>DnsProxy\<close> (\<^verbatim>\<open>internal/dnsproxy\<close>): a question from the child to the agent's resolver and back.
  \<^item> \<open>Capture\<close> (\<^verbatim>\<open>capture/pfrdr\<close>, \<^verbatim>\<open>proxy/forwarder.go\<close>): captured connections and where they are dialed.
    Locale \<open>pf_helper\<close> is what it needs of the helper's client; \<open>prompt_helper\<close> extends it by answers in time.
  \<^item> \<open>RunFlow\<close> (\<^verbatim>\<open>RunWithDeps\<close>): a run from its options to its exit code, as the trace of what it does to the
    machine. Shown: every exit path undoes what the run did, and the child runs only in the environment asked for.
  \<^item> \<open>StealServer\<close> (\<^verbatim>\<open>cli/steal.go\<close>): settings, the local reverse proxy, its listener of one connection.
  \<^item> \<open>StealPath\<close>: what an exchange between \<open>L7Proxy\<close> and \<open>StealServer\<close> can look like, as a relation with
    whether the local process may have acted; the basis of the properties in this theory.
  \<^item> \<open>DoctorChecks\<close>, \<open>DoctorRun\<close> (\<^verbatim>\<open>internal/doctor\<close>, \<^verbatim>\<open>cli/doctor.go\<close>): every judgement of
    \<^verbatim>\<open>tetherd doctor\<close>, its calls with a deadline as a step relation (\<open>bounded\<close>), and the report. Shown: a report
    is complete and never guesses, and a clean one means that a run gets past what it refuses on.

  \<^bold>\<open>The helper.\<close>
  \<^item> \<open>Router\<close> (\<^verbatim>\<open>helper/route.go\<close>) and \<open>ResolverFiles\<close> (\<^verbatim>\<open>helper/resolver.go\<close>): the machine state it
    changes; \<^verbatim>\<open>route(8)\<close> and the file system's failures are parameters.
  \<^item> \<open>HelperServer\<close> (\<^verbatim>\<open>helper/wire.go\<close>, \<^verbatim>\<open>server.go\<close>): all operations over a platform, connections in any
    order (\<open>server_step\<close>), the accept loop with its idle exit (\<open>accept_step\<close>). Locale \<open>helper_platform\<close> is
    what it needs of the platform.
  \<^item> \<open>DarwinPlatform\<close> (\<^verbatim>\<open>helper/pf\<close>, \<^verbatim>\<open>platform_darwin.go\<close>): the macOS platform; it interprets
    \<open>helper_platform\<close>. Shown: one session at a time, a machine nobody uses is clean.
  \<^item> \<open>HelperClient\<close> (\<^verbatim>\<open>helper/client.go\<close>): calls over a connection whose replies can be late, cut or lost. Shown:
    a call never takes another request's reply, and the captured set reaches the packet filter as it was computed.
  \<^item> \<open>HelperInstall\<close> (\<^verbatim>\<open>helper/install.go\<close>, \<^verbatim>\<open>daemon.go\<close>): installing and uninstalling over a file system with
    owners and modes. Shown: root is only given what root alone can change.
  \<^item> \<open>HelperDaemon\<close> (\<^verbatim>\<open>cmd/tetherd-helper/main.go\<close>, \<^verbatim>\<open>helper/activation.go\<close>): the starts of several helpers
    and the lock between them (\<open>helper_run\<close>), the inherited listener, the daemon and the command.

  \<^bold>\<open>Loops and bounds.\<close> All loops are total functions: recursion on the list being ranged over, on the missing
  bits of a prefix (\<open>subtractOne\<close>), on the time left (\<open>attach_loop\<close>, \<open>await_port\<close>), or up to the constant the source
  has (\<^verbatim>\<open>maxInformationalResponses\<close>, \<^verbatim>\<open>maxPrefixListPages\<close>); there is no fuel. The ping loop is a function of the
  sequence of ticks; goroutines and processes are the step relations named above, one step per critical section or
  system call. The helper client's counter is a 64-bit word, and what is shown of it holds for as many calls.

  \<^bold>\<open>Not modelled.\<close> yamux, JSON and YAML text, TLS and sockets; \<^verbatim>\<open>pfctl\<close>, \<^verbatim>\<open>route\<close>, \<^verbatim>\<open>dscl\<close>, launchd and
  the session-manager plugin beyond what the code reads of their answers; the calls of the kernel through unsafe
  pointers (\<^verbatim>\<open>natlook_darwin.go\<close>, \<^verbatim>\<open>peer_darwin.go\<close>); the loopback server of \<^verbatim>\<open>cli/credproxy.go\<close> and the
  fetch of \<^verbatim>\<open>internal/awsid\<close>, which are HTTP library calls; the bytes of a pipe; log lines; IPv6 prefixes beyond
  recognising them. Each is a parameter of the definitions that use it, or left out because nothing depends on it.
\<close>

section \<open>The steal path across both ends\<close>

text \<open>C1: No request is executed twice: whenever the developer's process may have received a stolen
  request (it answered, failed part way, or its reply was lost), the agent does not also hand that request
  to the deployed application.\<close>

theorem no_double_execution:
  assumes "header_get (rq_Header r) ''Upgrade'' = ''''" and "MatchRequest a r = Some s"
    and "laptop_exchange onHTTP port local ex True"
  shows "oc_app (Handler app a ex r) = None"
proof -
  have "s_open s \<noteq> None"
    using assms(2) MatchSession_Some by (fastforce simp: MatchRequest_def Match_def claims_def)
  from executed_is_served[OF assms(3) this] have "\<nexists>why. RoundTrip s ex = Inl (Unserved why)" by blast
  moreover have "Handler app a ex r = steal app s ex r" using assms by (simp add: Handler_def)
  ultimately show ?thesis using steal_app_iff by metis
qed

theorem no_double_execution_witness:
  "oc_app (Handler (\<lambda>_. bad_gateway) example_agent
      \<lparr>ex_open = Opened, ex_header = None, ex_reply = Silence ''i/o timeout'', ex_written = None\<rparr>
      (example_request ''s3cret'')) = None"
  by (rule no_double_execution[OF example_matches(2,1), where onHTTP = "Some Returned" and port = 8080
        and local = "FailsPartWay ''reset''"])
     (rule laptop_exchange.silent; simp add: stream_up_def)

text \<open>A matched request with a body that fits the replay buffer is not lost when the laptop cannot take
  it: if the stream does not come up, the CLI refuses it, or nothing listens on the local port, the deployed
  application serves it instead.\<close>

lemma unavailable_laptop_falls_back:
  assumes "header_get (rq_Header r) ''Upgrade'' = ''''" and "MatchRequest a r = Some s"
    and "case rq_Body r of None \<Rightarrow> True | Some b \<Rightarrow> length (body_data b) \<le> MaxReplayBody \<and> \<not> body_err b"
    and "\<not> stream_up ex \<or>
         (\<exists>l user. ex_reply ex = JSONLine (Inr l) \<and> serveInbound onHTTP (Inr (LHTTP user)) = Refused l) \<or>
         (\<exists>infos resp e. steal_response port (DialFailed e) = (infos, resp) \<and>
            ex_reply ex = Responses (map Inr infos @ [Inr resp]))"
  shows "\<exists>q. oc_app (Handler app a ex r) = Some q \<and> oc_resp (Handler app a ex r) = app q"
proof -
  have op: "s_open s \<noteq> None"
    using assms(2) MatchSession_Some by (fastforce simp: MatchRequest_def Match_def claims_def)
  have un: "\<exists>why. RoundTrip s ex = Inl (Unserved why)"
  proof (cases "stream_up ex")
    case True
    with assms(4) op show ?thesis
      using not_accepted_is_unserved no_listener_is_unserved by meson
  next
    case False
    then show ?thesis
      using op by (auto simp: RoundTrip_def stream_up_def split: open_result.splits option.splits)
  qed
  have H: "Handler app a ex r = steal app s ex r" using assms by (simp add: Handler_def)
  have "oc_app (steal app s ex r) \<noteq> None"
    unfolding steal_app_iff using un assms(3) by (auto simp: bufferBody_def split: option.splits)
  then show ?thesis
    unfolding H
    by (auto simp: steal_def serve_app_def Let_def split: prod.splits sum.splits steal_error.splits)
qed

text \<open>The settings the CLI sends are always usable: when \<^verbatim>\<open>stealSettings\<close> turns steal on, the
  agent finds no gap in them, and once the hello is accepted a request carrying the developer's name and token
  in the announced headers is matched to this session, unless another session claims it.\<close>

lemma steal_settings_are_matchable:
  assumes "stealSettings opts = Inr sc" and "inc_Enabled (sc_Incoming sc)" and "o_User opts \<noteq> ''''"
    and "mget (ag_sessions a) (o_User opts) = None" and "MatchRequest a r = None"
    and "header_get (rq_Header r) (inc_Header (sc_Incoming sc)) = o_User opts"
    and "header_get (rq_Header r) (inc_TokenHeader (sc_Incoming sc)) = o_Token opts"
  shows "\<exists>a' hn' w s. handler_Hello env a hn (attach_hello opts (sc_Incoming sc)) remote (Some c) now = (a', hn', Inr w) \<and>
           snd (snd (register a (attach_hello opts (sc_Incoming sc)) remote (Some c) now)) = NoGap \<and>
           MatchRequest a' r = Some s \<and> s_User s = o_User opts \<and> s_open s = Some c"
proof -
  let ?h = "attach_hello opts (sc_Incoming sc)"
  note ok = stealSettings_enabled[OF assms(1,2)]
  obtain a' hn' w where h: "handler_Hello env a hn ?h remote (Some c) now = (a', hn', Inr w)"
    using assms(2-4) by (cases env) (auto simp: handler_Hello_def register_def stealSession_def attach_hello_def Let_def)
  from h obtain g where r: "register a ?h remote (Some c) now = (a', None, g)" by (rule handler_Hello_Inr)
  define s where "s = \<lparr>s_User = o_User opts, s_From = remote, s_Since = now, s_Incoming = sc_Incoming sc,
      s_token = o_Token opts, s_open = Some c\<rparr>"
  have "ag_sessions a' = ag_sessions a @ [(o_User opts, s)]"
    using register_ok(2)[OF r] assms(2,4) by (simp add: stealSession_def attach_hello_def mput_fresh s_def)
  moreover have "claims (header_get (rq_Header r)) s"
    using assms(2,3,6,7) ok(1) by (simp add: claims_def s_def)
  ultimately have "MatchRequest a' r = Some s"
    using assms(5) by (simp add: MatchRequest_def Match_def MatchSession_find mvals_def find_append)
  moreover have "g = NoGap"
    using r assms(2,4) ok by (auto simp: register_def stealSession_def attach_hello_def incomingGap_def)
  ultimately show ?thesis using h r by (intro exI[of _ a'] exI[of _ hn'] exI[of _ w] exI[of _ s]) (simp add: s_def)
qed

definition example_options :: RunOptions where
  "example_options = zero_options\<lparr>o_User := ''bob'', o_Token := ''tok''\<rparr>"

end
